(* ===== verification/Prelude.thy ===== *)
theory Prelude
  imports Main "HOL-Library.State_Monad"
begin

text \<open>
  Shared vocabulary of the development: the result type of a Go function that returns
  \<^verbatim>\<open>(value, error)\<close>, the sequencing of such functions over a state
  (\<^verbatim>\<open>if err != nil { return err }\<close>), the weakest-precondition calculus in which the
  components are verified, and the generic lemmas on lists the components share.

  A stateful Go function is a value of the library's state monad
  \<open>('s, 'a) state\<close>; one that can fail returns a sum, \<open>Inl\<close> for a non-nil error.
  \<open>check m f\<close> is the Go idiom that runs \<open>m\<close>, returns its error at once and otherwise
  continues with its value; plain \<open>do\<close> notation is used where the code looks at the
  error itself or ignores it.
\<close>

named_theorems wp_simps \<open>equations that compute weakest preconditions\<close>
named_theorems wp_intros \<open>introduction rules for weakest preconditions\<close>

subsection \<open>Go results in the state monad\<close>

definition check :: "('s, 'e + 'a) state \<Rightarrow> ('a \<Rightarrow> ('s, 'e + 'b) state) \<Rightarrow> ('s, 'e + 'b) state" where
  "check m f = do { r \<leftarrow> m; case r of Inl e \<Rightarrow> State_Monad.return (Inl e) | Inr a \<Rightarrow> f a }"

abbreviation ok :: "'a \<Rightarrow> ('s, 'e + 'a) state" where
  "ok a \<equiv> State_Monad.return (Inr a)"

abbreviation fail :: "'e \<Rightarrow> ('s, 'e + 'a) state" where
  "fail e \<equiv> State_Monad.return (Inl e)"

abbreviation skip :: "('s, unit) state" where
  "skip \<equiv> State_Monad.return ()"

text \<open>A \<^verbatim>\<open>defer\<close>: the clean-up runs after the body, whatever the body returned, and its
  own result is ignored.\<close>

definition defer_after :: "('s, 'a) state \<Rightarrow> ('s, 'b) state \<Rightarrow> ('s, 'a) state" where
  "defer_after m cleanup = do { r \<leftarrow> m; _ \<leftarrow> cleanup; State_Monad.return r }"

text \<open>A \<^verbatim>\<open>range\<close> loop whose body returns an error to leave the function.\<close>

fun for_check :: "'a list \<Rightarrow> ('a \<Rightarrow> ('s, 'e + unit) state) \<Rightarrow> ('s, 'e + unit) state" where
  "for_check [] f = ok ()"
| "for_check (x # xs) f = check (f x) (\<lambda>_. for_check xs f)"

text \<open>A \<^verbatim>\<open>range\<close> loop whose body never leaves the loop.\<close>

fun for_all :: "'a list \<Rightarrow> ('a \<Rightarrow> ('s, unit) state) \<Rightarrow> ('s, unit) state" where
  "for_all [] f = skip"
| "for_all (x # xs) f = do { f x; for_all xs f }"

subsection \<open>Weakest preconditions\<close>

definition wp :: "('s, 'a) state \<Rightarrow> ('a \<Rightarrow> 's \<Rightarrow> bool) \<Rightarrow> 's \<Rightarrow> bool" where
  "wp m Q s \<longleftrightarrow> (case run_state m s of (a, s') \<Rightarrow> Q a s')"

lemma wpD: "wp m Q s \<Longrightarrow> run_state m s = (a, s') \<Longrightarrow> Q a s'"
  by (simp add: wp_def)

lemma wpI: "(\<And>a s'. run_state m s = (a, s') \<Longrightarrow> Q a s') \<Longrightarrow> wp m Q s"
  by (simp add: wp_def split: prod.split)

lemma wp_run: "run_state m w = (a, u) \<Longrightarrow> wp m Q w = Q a u"
  by (simp add: wp_def)

lemma wp_return [wp_simps, simp]: "wp (State_Monad.return a) Q s = Q a s"
  by (simp add: wp_def)

lemma wp_bind [wp_simps, simp]:
  "wp (State_Monad.bind m f) Q s = wp m (\<lambda>a s'. wp (f a) Q s') s"
  by (simp add: wp_def split: prod.split)

lemma wp_check [wp_simps, simp]:
  "wp (check m f) Q s =
     wp m (\<lambda>r s'. case r of Inl e \<Rightarrow> Q (Inl e) s' | Inr a \<Rightarrow> wp (f a) Q s') s"
  by (simp add: check_def wp_def split: prod.split sum.split)

lemma wp_defer [wp_simps, simp]:
  "wp (defer_after m c) Q s = wp m (\<lambda>a s'. wp c (\<lambda>_ s''. Q a s'') s') s"
  by (simp add: defer_after_def)

lemma wp_get [wp_simps, simp]: "wp State_Monad.get Q s = Q s s"
  by (simp add: wp_def)

lemma wp_set [wp_simps, simp]: "wp (State_Monad.set s') Q s = Q () s'"
  by (simp add: wp_def)

lemma wp_if [wp_simps, simp]:
  "wp (if b then m else n) Q s = (if b then wp m Q s else wp n Q s)"
  by simp

lemma wp_mono: "wp m Q s \<Longrightarrow> (\<And>a s'. Q a s' \<Longrightarrow> R a s') \<Longrightarrow> wp m R s"
  by (auto simp: wp_def)

lemma wp_conj: "wp m Q s \<Longrightarrow> wp m R s \<Longrightarrow> wp m (\<lambda>a s'. Q a s' \<and> R a s') s"
  by (auto simp: wp_def)

lemma wp_True [simp]: "wp m (\<lambda>_ _. True) s"
  by (simp add: wp_def split: prod.split)

text \<open>The same rules with an intermediate assertion \<open>R\<close>.\<close>

lemma wp_bindI: "wp m R s \<Longrightarrow> (\<And>a u. R a u \<Longrightarrow> wp (f a) Q u) \<Longrightarrow> wp (State_Monad.bind m f) Q s"
  unfolding wp_bind by (rule wp_mono)

lemma wp_checkI:
  "wp m R s \<Longrightarrow> (\<And>e u. R (Inl e) u \<Longrightarrow> Q (Inl e) u) \<Longrightarrow> (\<And>a u. R (Inr a) u \<Longrightarrow> wp (f a) Q u) \<Longrightarrow>
     wp (check m f) Q s"
  unfolding wp_check by (erule wp_mono) (auto split: sum.split)

lemma wp_deferI: "wp m R s \<Longrightarrow> (\<And>a u. R a u \<Longrightarrow> wp c (\<lambda>_. Q a) u) \<Longrightarrow> wp (defer_after m c) Q s"
  unfolding wp_defer by (rule wp_mono)

lemma run_check:
  "run_state (check m f) s =
     (case run_state m s of (Inl e, s') \<Rightarrow> (Inl e, s') | (Inr a, s') \<Rightarrow> run_state (f a) s')"
  by (simp add: check_def split: prod.split sum.split)

lemma run_defer:
  "run_state (defer_after m c) s =
     (case run_state m s of (a, s') \<Rightarrow> (a, snd (run_state c s')))"
  by (simp add: defer_after_def split: prod.split)

lemmas run_simps = run_check run_defer

subsection \<open>Relations every step keeps\<close>

text \<open>
  \<open>within R m\<close>: every run of \<open>m\<close> relates the state before to the state after by \<open>R\<close>. The interface
  \<open>step_order\<close> is what a relation has to promise so that a function lies within it as soon as its
  calls do: that doing nothing is allowed and that steps compose. Invariants (\<open>keeps\<close> below),
  frames (\<open>reads_only\<close> in theory \<open>OSFrame\<close>) and what becomes visible (\<open>emits\<close> in theory \<open>Traces\<close>)
  are interpretations of it.
\<close>

definition within :: "('s \<Rightarrow> 's \<Rightarrow> bool) \<Rightarrow> ('s, 'a) state \<Rightarrow> bool" where
  "within R m \<longleftrightarrow> (\<forall>s. R s (snd (run_state m s)))"

lemma withinI: "(\<And>s a s'. run_state m s = (a, s') \<Longrightarrow> R s s') \<Longrightarrow> within R m"
  unfolding within_def by (metis prod.collapse)

lemma withinD: "within R m \<Longrightarrow> run_state m s = (a, s') \<Longrightarrow> R s s'"
  unfolding within_def by (metis snd_conv)

lemma within_wp: "within R m \<longleftrightarrow> (\<forall>s. wp m (\<lambda>_. R s) s)"
  by (simp add: within_def wp_def split: prod.split) (metis snd_conv surj_pair)

lemma within_mono: "within R m \<Longrightarrow> (\<And>s t. R s t \<Longrightarrow> S s t) \<Longrightarrow> within S m"
  by (simp add: within_def)

locale step_order =
  fixes R :: "'s \<Rightarrow> 's \<Rightarrow> bool"
  assumes refl: "R s s" and trans: "R s t \<Longrightarrow> R t u \<Longrightarrow> R s u"
begin

lemma within_return: "within R (State_Monad.return a)" and within_get: "within R State_Monad.get"
  by (simp_all add: within_def refl)

lemma within_bind: "within R m \<Longrightarrow> (\<And>a. within R (f a)) \<Longrightarrow> within R (State_Monad.bind m f)"
proof (rule withinI)
  fix s a u
  assume m: "within R m" and f: "\<And>a. within R (f a)" and r: "run_state (State_Monad.bind m f) s = (a, u)"
  obtain b t where t: "run_state m s = (b, t)" by fastforce
  then have "run_state (f b) t = (a, u)" using r by simp
  then show "R s u" using trans withinD [OF m t] withinD [OF f] by blast
qed

lemma within_sum: "(\<And>e. within R (f e)) \<Longrightarrow> (\<And>a. within R (g a)) \<Longrightarrow> within R (case x of Inl e \<Rightarrow> f e | Inr a \<Rightarrow> g a)"
  by (cases x) simp_all

lemma within_option: "within R f \<Longrightarrow> (\<And>a. within R (g a)) \<Longrightarrow> within R (case x of None \<Rightarrow> f | Some a \<Rightarrow> g a)"
  by (cases x) simp_all

lemma within_prod: "(\<And>a b. within R (f a b)) \<Longrightarrow> within R (case x of (a, b) \<Rightarrow> f a b)"
  by (cases x) simp

lemma within_if: "within R m \<Longrightarrow> within R n \<Longrightarrow> within R (if b then m else n)"
  by simp

lemma within_check: "within R m \<Longrightarrow> (\<And>a. within R (f a)) \<Longrightarrow> within R (check m f)"
  unfolding check_def by (intro within_bind within_sum within_return)

lemma within_defer: "within R m \<Longrightarrow> within R c \<Longrightarrow> within R (defer_after m c)"
  unfolding defer_after_def by (intro within_bind within_return)

lemma within_for_check: "(\<And>x. x \<in> set xs \<Longrightarrow> within R (f x)) \<Longrightarrow> within R (for_check xs f)"
  by (induction xs) (simp_all add: within_return within_check)

lemma within_for_all: "(\<And>x. x \<in> set xs \<Longrightarrow> within R (f x)) \<Longrightarrow> within R (for_all xs f)"
  by (induction xs) (simp_all add: within_return within_bind)

lemmas within_intros = within_bind within_check within_defer within_if within_sum within_option within_prod
  within_for_check within_for_all within_return within_get

end

subsection \<open>Invariants of a stateful function\<close>

text \<open>
  \<open>keeps P m\<close>: running \<open>m\<close> from a state that satisfies \<open>P\<close> ends in one that does.
\<close>

definition keeps :: "('s \<Rightarrow> bool) \<Rightarrow> ('s, 'a) state \<Rightarrow> bool" where
  "keeps P = within (\<lambda>s s'. P s \<longrightarrow> P s')"

interpretation keep: step_order "\<lambda>s s'. P s \<longrightarrow> P s'" for P
  by unfold_locales auto

lemmas keepsI = withinI [where R = "\<lambda>s s'. P s \<longrightarrow> P s'" for P, folded keeps_def, rule_format]

lemma keepsD: "keeps P m \<Longrightarrow> P s \<Longrightarrow> run_state m s = (a, s') \<Longrightarrow> P s'"
  unfolding keeps_def by (blast dest: withinD)

lemma keeps_wp: "keeps P m \<Longrightarrow> P s \<Longrightarrow> wp m (\<lambda>_. P) s"
  by (auto intro: wpI dest: keepsD)

lemmas keeps_return [simp, intro] = keep.within_return [folded keeps_def]
  and keeps_get [simp, intro] = keep.within_get [folded keeps_def]
  and keeps_intros [intro] = keep.within_intros [folded keeps_def]

subsection \<open>Lists\<close>

lemma append_singleton_eq: "xs @ [x] = ys @ [y] \<longleftrightarrow> xs = ys \<and> x = y"
  by simp

lemma butlast_snoc_eq: "p \<noteq> [] \<Longrightarrow> butlast p = d \<longleftrightarrow> p = d @ [last p]"
  by (metis append_butlast_last_id butlast_snoc)

end
