(* ===== verification/GoStrings.thy ===== *)
theory GoStrings
  imports Prelude "HOL-Library.Sublist" "HOL-Library.Char_ord" "HOL-Library.List_Lexorder"
begin

text \<open>
  The part of Go's packages \<^verbatim>\<open>strings\<close>, \<^verbatim>\<open>bytes\<close> and \<^verbatim>\<open>bufio\<close> the sources use. A Go string is
  a sequence of bytes, and an Isabelle \<open>char\<close> is one byte, so \<open>string\<close> is the Go type as it
  is. White space is that of \<^verbatim>\<open>unicode.IsSpace\<close>: \<open>space_encs\<close> lists the UTF-8 encodings of
  its runes, and because UTF-8 is self-synchronising a space starts at a byte exactly where
  one of these encodings does. Upper and lower case are mapped for ASCII letters (the keys
  and answers the code compares with are ASCII).
\<close>

type_synonym bytes = string

abbreviation NL :: char where "NL \<equiv> CHR 0x0A"
abbreviation CR :: char where "CR \<equiv> CHR 0x0D"
abbreviation DQ :: char where "DQ \<equiv> CHR 0x22"
abbreviation BSL :: char where "BSL \<equiv> CHR 0x5C"

definition HasPrefix :: "string \<Rightarrow> string \<Rightarrow> bool" where
  "HasPrefix s p = prefix p s"

definition HasSuffix :: "string \<Rightarrow> string \<Rightarrow> bool" where
  "HasSuffix s p = prefix (rev p) (rev s)"

definition TrimPrefix :: "string \<Rightarrow> string \<Rightarrow> string" where
  "TrimPrefix s p = (if HasPrefix s p then drop (length p) s else s)"

fun Contains :: "string \<Rightarrow> string \<Rightarrow> bool" where
  "Contains [] sub = (sub = [])"
| "Contains (c # s) sub = (prefix sub (c # s) \<or> Contains s sub)"

text \<open>\<^verbatim>\<open>Split(s, sep)\<close> for a one-byte separator (the only kind the code uses).\<close>

fun Split :: "string \<Rightarrow> char \<Rightarrow> string list" where
  "Split [] sep = [[]]"
| "Split (c # s) sep =
     (if c = sep then [] # Split s sep
      else case Split s sep of [] \<Rightarrow> [[c]] | f # fs \<Rightarrow> (c # f) # fs)"

text \<open>\<^verbatim>\<open>SplitN(s, sep, 2)\<close>: the text before the first separator and, if there is one, the rest.\<close>

definition SplitN2 :: "string \<Rightarrow> char \<Rightarrow> string list" where
  "SplitN2 s sep =
     (let h = takeWhile (\<lambda>c. c \<noteq> sep) s; t = dropWhile (\<lambda>c. c \<noteq> sep) s
      in if t = [] then [h] else [h, tl t])"

fun Join :: "string list \<Rightarrow> string \<Rightarrow> string" where
  "Join [] sep = []"
| "Join [x] sep = x"
| "Join (x # y # xs) sep = x @ sep @ Join (y # xs) sep"

subsection \<open>White space\<close>

definition space_encs :: "string list" where
  "space_encs =
     [[CHR 0x09], [CHR 0x0A], [CHR 0x0B], [CHR 0x0C], [CHR 0x0D], [CHR 0x20],
      [CHR 0xC2, CHR 0x85], [CHR 0xC2, CHR 0xA0],
      [CHR 0xE1, CHR 0x9A, CHR 0x80],
      [CHR 0xE2, CHR 0x80, CHR 0x80], [CHR 0xE2, CHR 0x80, CHR 0x81], [CHR 0xE2, CHR 0x80, CHR 0x82],
      [CHR 0xE2, CHR 0x80, CHR 0x83], [CHR 0xE2, CHR 0x80, CHR 0x84], [CHR 0xE2, CHR 0x80, CHR 0x85],
      [CHR 0xE2, CHR 0x80, CHR 0x86], [CHR 0xE2, CHR 0x80, CHR 0x87], [CHR 0xE2, CHR 0x80, CHR 0x88],
      [CHR 0xE2, CHR 0x80, CHR 0x89], [CHR 0xE2, CHR 0x80, CHR 0x8A],
      [CHR 0xE2, CHR 0x80, CHR 0xA8], [CHR 0xE2, CHR 0x80, CHR 0xA9],
      [CHR 0xE2, CHR 0x80, CHR 0xAF], [CHR 0xE2, CHR 0x81, CHR 0x9F],
      [CHR 0xE3, CHR 0x80, CHR 0x80]]"

text \<open>The number of bytes of the white-space rune at the start of a string, 0 if there is none.\<close>

definition space_len :: "string \<Rightarrow> nat" where
  "space_len s = (case find (\<lambda>e. prefix e s) space_encs of None \<Rightarrow> 0 | Some e \<Rightarrow> length e)"

definition space_len_end :: "string \<Rightarrow> nat" where
  "space_len_end s =
     (case find (\<lambda>e. prefix (rev e) (rev s)) space_encs of None \<Rightarrow> 0 | Some e \<Rightarrow> length e)"

lemma space_encs_nonempty: "e \<in> set space_encs \<Longrightarrow> e \<noteq> []"
  by (auto simp: space_encs_def)

lemma space_len_le: "space_len s \<le> length s"
  by (auto simp: space_len_def split: option.split dest!: find_Some_iff [THEN iffD1] prefix_length_le)

lemma space_len_end_le: "space_len_end s \<le> length s"
  by (fastforce simp: space_len_end_def find_Some_iff split: option.split dest: prefix_length_le)

lemma space_len_drop: "0 < space_len s \<Longrightarrow> length s - space_len s < length s"
  using space_len_le [of s] by linarith

lemma space_len_end_drop: "0 < space_len_end s \<Longrightarrow> length s - space_len_end s < length s"
  using space_len_end_le [of s] by linarith

function TrimLeftSpace :: "string \<Rightarrow> string" where
  "TrimLeftSpace s = (if space_len s = 0 then s else TrimLeftSpace (drop (space_len s) s))"
  by pat_completeness auto
termination
  by (relation "measure length") (auto simp: space_len_drop)

function TrimRightSpace :: "string \<Rightarrow> string" where
  "TrimRightSpace s =
     (if space_len_end s = 0 then s
      else TrimRightSpace (take (length s - space_len_end s) s))"
  by pat_completeness auto
termination
  by (relation "measure length") (use space_len_end_drop in \<open>auto simp: min_def not_le\<close>)

declare TrimLeftSpace.simps [simp del] TrimRightSpace.simps [simp del]

definition TrimSpace :: "string \<Rightarrow> string" where
  "TrimSpace s = TrimRightSpace (TrimLeftSpace s)"

text \<open>\<^verbatim>\<open>Fields\<close>: the maximal runs without white space.\<close>

function fields_from :: "string \<Rightarrow> string \<Rightarrow> string list" where
  "fields_from acc [] = (if acc = [] then [] else [rev acc])"
| "fields_from acc (c # s) =
     (let k = space_len (c # s)
      in if k = 0 then fields_from (c # acc) s
         else (if acc = [] then [] else [rev acc]) @ fields_from [] (drop k (c # s)))"
  by pat_completeness auto
termination
  by (relation "measure (\<lambda>(acc, s). length s)") auto

definition Fields :: "string \<Rightarrow> string list" where
  "Fields s = fields_from [] s"

subsection \<open>Case, trimming a cut set, replacing\<close>

definition is_upper :: "char \<Rightarrow> bool" where
  "is_upper c \<longleftrightarrow> CHR ''A'' \<le> c \<and> c \<le> CHR ''Z''"

definition is_lower :: "char \<Rightarrow> bool" where
  "is_lower c \<longleftrightarrow> CHR ''a'' \<le> c \<and> c \<le> CHR ''z''"

definition to_lower :: "char \<Rightarrow> char" where
  "to_lower c = (if is_upper c then char_of (of_char c + 32 :: nat) else c)"

definition to_upper :: "char \<Rightarrow> char" where
  "to_upper c = (if is_lower c then char_of (of_char c - 32 :: nat) else c)"

definition ToLower :: "string \<Rightarrow> string" where
  "ToLower s = map to_lower s"

definition ToUpper :: "string \<Rightarrow> string" where
  "ToUpper s = map to_upper s"

text \<open>\<^verbatim>\<open>Trim(s, c)\<close> for a one-byte cut set.\<close>

definition Trim :: "string \<Rightarrow> char \<Rightarrow> string" where
  "Trim s c = rev (dropWhile (\<lambda>x. x = c) (rev (dropWhile (\<lambda>x. x = c) s)))"

text \<open>\<^verbatim>\<open>Replace(s, c, "", -1)\<close> for a one-byte \<open>c\<close>.\<close>

definition RemoveAllChar :: "string \<Rightarrow> char \<Rightarrow> string" where
  "RemoveAllChar s c = filter (\<lambda>x. x \<noteq> c) s"

subsection \<open>\<^verbatim>\<open>bufio.Scanner\<close> with \<^verbatim>\<open>ScanLines\<close>\<close>

text \<open>
  The scanner returns the lines without their \<^verbatim>\<open>\n\<close> and one trailing \<^verbatim>\<open>\r\<close>; a last line with no
  newline is returned if it is not empty. A line that does not fit the 64 KiB buffer ends
  the scan, and \<^verbatim>\<open>Err()\<close> is then \<^verbatim>\<open>ErrTooLong\<close>: the flag of the result.
\<close>

definition dropCR :: "string \<Rightarrow> string" where
  "dropCR l = (if l \<noteq> [] \<and> last l = CR then butlast l else l)"

definition MaxScanTokenSize :: nat where
  "MaxScanTokenSize = 65536"

fun scan_raw :: "string list \<Rightarrow> string list \<times> bool" where
  "scan_raw [] = ([], False)"
| "scan_raw [l] = (if length l \<ge> MaxScanTokenSize then ([], True)
                   else if l = [] then ([], False) else ([dropCR l], False))"
| "scan_raw (l # l' # ls) =
     (if length l \<ge> MaxScanTokenSize then ([], True)
      else case scan_raw (l' # ls) of (xs, e) \<Rightarrow> (dropCR l # xs, e))"

definition scan_lines :: "string \<Rightarrow> string list \<times> bool" where
  "scan_lines s = scan_raw (Split s NL)"

subsection \<open>Lemmas\<close>

lemma HasPrefix_iff: "HasPrefix s p \<longleftrightarrow> (\<exists>t. s = p @ t)"
  by (auto simp: HasPrefix_def prefix_def)

lemma HasPrefix_append [simp]: "HasPrefix (p @ t) p"
  by (simp add: HasPrefix_def)

lemma Contains_iff: "Contains s sub \<longleftrightarrow> (\<exists>a b. s = a @ sub @ b)"
proof (induction s)
  case Nil
  then show ?case by auto
next
  case (Cons c s)
  show ?case
  proof
    assume "Contains (c # s) sub"
    then consider "prefix sub (c # s)" | "Contains s sub" by auto
    then show "\<exists>a b. c # s = a @ sub @ b"
    proof cases
      case 1
      then show ?thesis by (metis append_Nil prefix_def)
    next
      case 2
      with Cons.IH show ?thesis by (metis append_Cons)
    qed
  next
    assume "\<exists>a b. c # s = a @ sub @ b"
    then obtain a b where ab: "c # s = a @ sub @ b" by blast
    show "Contains (c # s) sub"
    proof (cases a)
      case Nil
      with ab show ?thesis by (metis Contains.simps(2) append_Nil prefixI)
    next
      case (Cons x xs)
      with ab have "s = xs @ sub @ b" by simp
      with Cons.IH show ?thesis by auto
    qed
  qed
qed

lemma Contains_self [simp]: "Contains s s"
  by (auto simp: Contains_iff) (metis append_Nil append_Nil2)

lemma Contains_append: "Contains s sub \<Longrightarrow> Contains (a @ s @ b) sub"
  by (auto simp: Contains_iff) (metis append.assoc)

lemma Split_nonempty [simp]: "Split s sep \<noteq> []"
  by (cases s) (auto split: list.split)

lemma Split_no_sep: "sep \<notin> set s \<Longrightarrow> Split s sep = [s]"
  by (induction s) auto

lemma Split_append_sep: "sep \<notin> set a \<Longrightarrow> Split (a @ sep # s) sep = a # Split s sep"
  by (induction a) auto

lemma Split_sep_free: "x \<in> set (Split s sep) \<Longrightarrow> sep \<notin> set x"
  by (induction s arbitrary: x) (auto split: if_splits list.splits)

lemma Split_chars: "x \<in> set (Split s sep) \<Longrightarrow> set x \<subseteq> set s"
proof (induction s arbitrary: x)
  case (Cons c s)
  obtain f fs where f: "Split s sep = f # fs" by (meson Split_nonempty neq_Nil_conv)
  then have "set f \<subseteq> set s" and "\<forall>y \<in> set fs. set y \<subseteq> set s" using Cons.IH by auto
  with Cons.prems f show ?case by (auto split: if_splits)
qed simp

lemma Join_Split: "Join (Split s sep) [sep] = s"
proof (induction s)
  case (Cons c s)
  obtain f fs where f: "Split s sep = f # fs" by (meson Split_nonempty neq_Nil_conv)
  with Cons.IH show ?case by (cases fs) auto
qed simp

lemma Join_Cons: "xs \<noteq> [] \<Longrightarrow> Join (x # xs) sep = x @ sep @ Join xs sep"
  by (cases xs) auto

lemma Split_Join:
  "xs \<noteq> [] \<Longrightarrow> \<forall>x \<in> set xs. sep \<notin> set x \<Longrightarrow> Split (Join xs [sep]) sep = xs"
proof (induction xs)
  case (Cons x xs)
  then show ?case by (cases xs) (auto simp: Split_no_sep Split_append_sep)
qed simp

lemma SplitN2_nonempty [simp]: "SplitN2 s sep \<noteq> []"
  by (simp add: SplitN2_def Let_def)

lemma SplitN2_no_sep: "sep \<notin> set s \<Longrightarrow> SplitN2 s sep = [s]"
  by (simp add: SplitN2_def Let_def dropWhile_eq_Nil_conv takeWhile_eq_all_conv)

lemma SplitN2_sep: "sep \<notin> set a \<Longrightarrow> SplitN2 (a @ sep # b) sep = [a, b]"
proof -
  assume "sep \<notin> set a"
  then have "\<forall>c \<in> set a. c \<noteq> sep" by auto
  then show ?thesis by (simp add: SplitN2_def takeWhile_append2 dropWhile_append2)
qed

text \<open>A word of printable ASCII bytes holds no white space, so trimming and splitting keep it.\<close>

definition wordy :: "string \<Rightarrow> bool" where
  "wordy s \<longleftrightarrow> (\<forall>c \<in> set s. CHR 0x20 < c \<and> c < CHR 0x7F)"

lemma wordy_simps [simp]:
  "wordy []" "wordy (c # s) \<longleftrightarrow> CHR 0x20 < c \<and> c < CHR 0x7F \<and> wordy s"
  "wordy (s @ t) \<longleftrightarrow> wordy s \<and> wordy t" "wordy (rev s) = wordy s"
  by (auto simp: wordy_def)

lemma space_enc_outer:
  "e \<in> set space_encs \<Longrightarrow> \<not> (CHR 0x20 < hd e \<and> hd e < CHR 0x7F) \<and>
     \<not> (CHR 0x20 < last e \<and> last e < CHR 0x7F)"
  by (auto simp: space_encs_def)

lemma space_len_wordy: "CHR 0x20 < c \<Longrightarrow> c < CHR 0x7F \<Longrightarrow> space_len (c # s) = 0"
proof -
  assume c: "CHR 0x20 < c" "c < CHR 0x7F"
  have "\<not> prefix e (c # s)" if "e \<in> set space_encs" for e
    using c space_enc_outer [OF that] space_encs_nonempty [OF that]
    by (cases e rule: list.exhaust) auto
  then have "find (\<lambda>e. prefix e (c # s)) space_encs = None"
    by (simp add: find_None_iff)
  then show ?thesis by (simp add: space_len_def)
qed

lemma space_len_end_wordy: "CHR 0x20 < c \<Longrightarrow> c < CHR 0x7F \<Longrightarrow> space_len_end (s @ [c]) = 0"
proof -
  assume c: "CHR 0x20 < c" "c < CHR 0x7F"
  have "\<not> prefix (rev e) (c # rev s)" if "e \<in> set space_encs" for e
    using c space_enc_outer [OF that] space_encs_nonempty [OF that]
    by (cases e rule: rev_cases) auto
  then have "find (\<lambda>e. prefix (rev e) (c # rev s)) space_encs = None"
    by (simp add: find_None_iff)
  then show ?thesis by (simp add: space_len_end_def)
qed

lemma TrimSpace_Nil [simp]: "TrimSpace [] = []"
  by (simp add: TrimSpace_def TrimLeftSpace.simps TrimRightSpace.simps space_len_def
      space_len_end_def space_encs_def)

lemma TrimSpace_wordy: "wordy s \<Longrightarrow> TrimSpace s = s"
proof (cases s)
  case (Cons c t)
  moreover assume w: "wordy s"
  ultimately have l: "TrimLeftSpace s = s"
    by (simp add: TrimLeftSpace.simps space_len_wordy)
  obtain u d where s: "s = u @ [d]" using Cons by (metis list.distinct(1) rev_exhaust)
  with w have "TrimRightSpace s = s"
    by (simp add: TrimRightSpace.simps space_len_end_wordy)
  with l show ?thesis by (simp add: TrimSpace_def)
qed simp

lemma TrimRight_newline: "TrimRightSpace (s @ [NL]) = TrimRightSpace s"
proof -
  have "space_len_end (s @ [NL]) = 1"
    by (simp add: space_len_end_def space_encs_def)
  then show ?thesis by (subst TrimRightSpace.simps) simp
qed

lemma TrimSpace_wordy_newline: "wordy s \<Longrightarrow> TrimSpace (s @ [NL]) = s"
proof (cases s)
  case Nil
  then show ?thesis
    by (simp add: TrimSpace_def TrimLeftSpace.simps TrimRightSpace.simps space_len_def
        space_len_end_def space_encs_def)
next
  case (Cons c t)
  moreover assume w: "wordy s"
  ultimately have "TrimLeftSpace (s @ [NL]) = s @ [NL]" "TrimLeftSpace s = s"
    by (simp_all add: TrimLeftSpace.simps space_len_wordy)
  with w TrimSpace_wordy [OF w] show ?thesis by (simp add: TrimSpace_def TrimRight_newline)
qed

lemma fields_from_wordy:
  "wordy s \<Longrightarrow> fields_from acc (s @ t) = fields_from (rev s @ acc) t"
  by (induction s arbitrary: acc) (auto simp: space_len_wordy)

lemma space_len_blank: "space_len (CHR '' '' # s) = 1"
  by (simp add: space_len_def space_encs_def)

lemma Fields_words:
  "\<forall>w \<in> set ws. wordy w \<and> w \<noteq> [] \<Longrightarrow> Fields (Join ws '' '') = ws"
proof -
  have "\<forall>w \<in> set ws. wordy w \<and> w \<noteq> [] \<Longrightarrow> fields_from [] (Join ws '' '') = ws"
  proof (induction ws rule: induct_list012)
    case (2 w)
    then show ?case using fields_from_wordy [of w "[]" "[]"] by simp
  next
    case (3 w v ws)
    have "fields_from [] (w @ CHR '' '' # Join (v # ws) '' '')
        = w # fields_from [] (Join (v # ws) '' '')"
      using 3 by (simp add: fields_from_wordy space_len_blank)
    with 3 show ?case by simp
  qed simp
  then show "\<forall>w \<in> set ws. wordy w \<and> w \<noteq> [] \<Longrightarrow> Fields (Join ws '' '') = ws"
    by (simp add: Fields_def)
qed

end
