(* ===== verification/GoPath.thy ===== *)
theory GoPath
  imports GoStrings
begin

text \<open>
  Go's lexical path functions (\<^verbatim>\<open>path\<close> and, on Linux identical, \<^verbatim>\<open>path/filepath\<close>): \<open>Clean\<close>,
  \<open>Join\<close>, \<open>Dir\<close>, \<open>Base\<close> and \<open>Split\<close>. The library computes them on bytes; the model computes
  them on the components between slashes. \<open>comps\<close> is the sequence of components the kernel
  sees when it is given the string.
\<close>

abbreviation SLASH :: char where "SLASH \<equiv> CHR ''/''"

type_synonym path = "string list"

definition comps :: "string \<Rightarrow> path" where
  "comps s = filter (\<lambda>c. c \<noteq> []) (Split s SLASH)"

definition is_abs :: "string \<Rightarrow> bool" where
  "is_abs s = HasPrefix s ''/''"

text \<open>\<^verbatim>\<open>Clean\<close>: the components seen so far are kept last first. \<^verbatim>\<open>..\<close> removes a component; at
  the root it disappears, and at the start of a relative path it stays.\<close>

fun clean_comps :: "bool \<Rightarrow> path \<Rightarrow> path \<Rightarrow> path" where
  "clean_comps rooted acc [] = rev acc"
| "clean_comps rooted acc (c # cs) =
     (if c = [] \<or> c = ''.'' then clean_comps rooted acc cs
      else if c = ''..'' then
        (case acc of
           a # acc' \<Rightarrow> if a \<noteq> ''..'' then clean_comps rooted acc' cs
                       else clean_comps rooted (c # acc) cs
         | [] \<Rightarrow> if rooted then clean_comps rooted [] cs else clean_comps rooted [c] cs)
      else clean_comps rooted (c # acc) cs)"

definition Clean :: "string \<Rightarrow> string" where
  "Clean s =
     (let cs = clean_comps (is_abs s) [] (Split s SLASH)
      in if is_abs s then ''/'' @ Join cs ''/''
         else if cs = [] then ''.'' else Join cs ''/'')"

text \<open>\<^verbatim>\<open>Join(elem...)\<close>: empty elements are ignored; with nothing left the result is empty.\<close>

definition PathJoin :: "string list \<Rightarrow> string" where
  "PathJoin es =
     (case filter (\<lambda>e. e \<noteq> []) es of [] \<Rightarrow> [] | e # es' \<Rightarrow> Clean (Join (e # es') ''/''))"

definition PathSplit :: "string \<Rightarrow> string \<times> string" where
  "PathSplit s =
     (let f = rev (takeWhile (\<lambda>c. c \<noteq> SLASH) (rev s))
      in (take (length s - length f) s, f))"

definition PathDir :: "string \<Rightarrow> string" where
  "PathDir s = Clean (fst (PathSplit s))"

definition PathBase :: "string \<Rightarrow> string" where
  "PathBase s =
     (if s = [] then ''.''
      else let t = rev (dropWhile (\<lambda>c. c = SLASH) (rev s))
           in if t = [] then ''/'' else snd (PathSplit t))"

subsection \<open>Plain names and clean absolute paths\<close>

text \<open>A component that is a real name: not empty, no slash, not \<^verbatim>\<open>.\<close> or \<^verbatim>\<open>..\<close>.\<close>

definition plain_name :: "string \<Rightarrow> bool" where
  "plain_name c \<longleftrightarrow> c \<noteq> [] \<and> SLASH \<notin> set c \<and> c \<noteq> ''.'' \<and> c \<noteq> ''..''"

definition abs_string :: "path \<Rightarrow> string" where
  "abs_string p = ''/'' @ Join p ''/''"

lemma plain_nameD: "plain_name c \<Longrightarrow> c \<noteq> [] \<and> SLASH \<notin> set c"
  by (simp add: plain_name_def)

lemma clean_comps_plain:
  "list_all plain_name cs \<Longrightarrow> clean_comps r acc cs = rev acc @ cs"
  by (induction cs arbitrary: acc) (auto simp: plain_name_def)

lemma clean_comps_append_plain:
  "list_all plain_name cs \<Longrightarrow> clean_comps r acc (cs @ ds) = clean_comps r (rev cs @ acc) ds"
  by (induction cs arbitrary: acc) (auto simp: plain_name_def)

text \<open>A rooted path never keeps a \<^verbatim>\<open>..\<close>: cleaning leaves plain names only.\<close>

lemma clean_comps_rooted:
  "list_all plain_name acc \<Longrightarrow> \<forall>c \<in> set cs. SLASH \<notin> set c \<Longrightarrow>
     list_all plain_name (clean_comps True acc cs)"
proof (induction cs arbitrary: acc)
  case Nil
  then show ?case by (simp add: list_all_iff)
next
  case (Cons c cs)
  have acc': "list_all plain_name (tl acc)" using Cons.prems(1) by (cases acc) auto
  show ?case
    using Cons.prems Cons.IH [OF acc'] Cons.IH [of acc] Cons.IH [of "c # acc"] Cons.IH [of "[]"]
    by (auto simp: plain_name_def split: list.split)
qed

lemma Split_slash_free: "c \<in> set (Split s SLASH) \<Longrightarrow> SLASH \<notin> set c"
  by (rule Split_sep_free)

lemma is_abs_iff: "is_abs s \<longleftrightarrow> (\<exists>t. s = SLASH # t)"
  by (auto simp: is_abs_def HasPrefix_iff)

lemma is_abs_abs_string [simp]: "is_abs (abs_string p)"
  by (simp add: abs_string_def is_abs_def HasPrefix_def)

lemma Split_abs_string:
  "list_all plain_name p \<Longrightarrow> Split (abs_string p) SLASH = [] # (if p = [] then [[]] else p)"
  by (auto simp: abs_string_def list_all_iff plain_name_def intro!: Split_Join)

lemma comps_abs_string [simp]: "list_all plain_name p \<Longrightarrow> comps (abs_string p) = p"
  by (auto simp: comps_def Split_abs_string list_all_iff plain_name_def intro!: filter_True)

lemma Clean_abs_string: "list_all plain_name p \<Longrightarrow> Clean (abs_string p) = abs_string p"
  by (auto simp: Clean_def Split_abs_string clean_comps_plain) (simp_all add: abs_string_def)

lemma Clean_abs:
  assumes "is_abs s"
  obtains p where "list_all plain_name p" and "Clean s = abs_string p"
proof -
  have "list_all plain_name (clean_comps True [] (Split s SLASH))"
    using Split_slash_free by (intro clean_comps_rooted) auto
  then show thesis
    using that assms by (auto simp: Clean_def Let_def abs_string_def)
qed

text \<open>\<^verbatim>\<open>Clean\<close> is idempotent on absolute paths, and its result never climbs above the root.\<close>

lemma Clean_Clean_abs: "is_abs s \<Longrightarrow> Clean (Clean s) = Clean s"
  by (metis Clean_abs Clean_abs_string)

lemma Clean_abs_plain: "is_abs s \<Longrightarrow> list_all plain_name (comps (Clean s))"
  by (metis Clean_abs comps_abs_string)

subsection \<open>Joining plain names below an absolute path\<close>

lemma Join_append_singletons:
  "xs \<noteq> [] \<Longrightarrow> ys \<noteq> [] \<Longrightarrow> Join (xs @ ys) sep = Join xs sep @ sep @ Join ys sep"
  by (induction xs rule: induct_list012) (auto simp: Join_Cons)

lemma Split_append_gen:
  "Split (a @ sep # b) sep = Split a sep @ Split b sep"
proof (induction a)
  case (Cons c a)
  obtain f fs where "Split a sep = f # fs" by (meson Split_nonempty neq_Nil_conv)
  with Cons show ?case by auto
qed simp

lemma Split_Join_gen:
  "es \<noteq> [] \<Longrightarrow> Split (Join es ''/'') SLASH = concat (map (\<lambda>e. Split e SLASH) es)"
  by (induction es rule: induct_list012) (auto simp: Split_append_gen)

lemma PathJoin_abs:
  assumes p: "list_all plain_name p" and cs: "list_all plain_name cs"
  shows "PathJoin (abs_string p # cs) = abs_string (p @ cs)"
proof -
  let ?es = "abs_string p # cs"
  have ne: "filter (\<lambda>e. e \<noteq> []) ?es = ?es"
    using cs by (auto simp: abs_string_def list_all_iff plain_name_def intro!: filter_True)
  have "Split (Join ?es ''/'') SLASH = Split (abs_string p) SLASH @ cs"
    using cs by (subst Split_Join_gen)
      (auto simp: list_all_iff plain_name_def Split_no_sep concat_map_singleton cong: map_cong
        intro!: arg_cong [where f = concat] map_idI)
  moreover have "is_abs (Join ?es ''/'')"
    by (cases cs) (auto simp: abs_string_def is_abs_def HasPrefix_def)
  moreover have "clean_comps True [] (([] # (if p = [] then [[]] else p)) @ cs) = p @ cs"
    using p cs by (auto simp: clean_comps_append_plain clean_comps_plain)
  ultimately have "Clean (Join ?es ''/'') = abs_string (p @ cs)"
    by (simp add: Clean_def Split_abs_string [OF p] Let_def) (simp add: abs_string_def)
  then show ?thesis by (simp only: PathJoin_def ne list.case)
qed

lemma PathSplit_append: "SLASH \<notin> set f \<Longrightarrow> PathSplit (d @ SLASH # f) = (d @ ''/'', f)"
proof -
  assume "SLASH \<notin> set f"
  then have "takeWhile (\<lambda>c. c \<noteq> SLASH) (rev f @ SLASH # rev d) = rev f"
    by (subst takeWhile_append2) auto
  then show ?thesis by (simp add: PathSplit_def)
qed

lemma abs_string_snoc: "abs_string (p @ [c]) = (if p = [] then ''/'' @ c else abs_string p @ ''/'' @ c)"
  by (auto simp: abs_string_def Join_append_singletons)

lemma PathSplit_abs_snoc:
  assumes "plain_name c"
  shows "PathSplit (abs_string (p @ [c])) = ((if p = [] then ''/'' else abs_string p @ ''/''), c)"
  using assms PathSplit_append [of c "[]"] PathSplit_append [of c "abs_string p"]
  by (auto simp: abs_string_snoc plain_name_def)

lemma PathBase_abs_snoc:
  assumes "plain_name c"
  shows "PathBase (abs_string (p @ [c])) = c"
proof -
  have ne: "c \<noteq> []" "SLASH \<notin> set c" using assms by (auto simp: plain_name_def)
  obtain a where "abs_string (p @ [c]) = a @ c" by (metis abs_string_snoc append.assoc)
  with ne have l: "last (abs_string (p @ [c])) \<noteq> SLASH" "abs_string (p @ [c]) \<noteq> []"
    using last_in_set [OF ne(1)] by (metis last_appendR, simp)
  then have "dropWhile (\<lambda>x. x = SLASH) (rev (abs_string (p @ [c]))) = rev (abs_string (p @ [c]))"
    by (cases "abs_string (p @ [c])" rule: rev_cases) auto
  with l show ?thesis by (simp add: PathBase_def PathSplit_abs_snoc [OF assms])
qed

lemma comps_append_slash [simp]: "comps (s @ ''/'') = comps s"
  using Split_append_gen [of s SLASH "[]"] by (simp add: comps_def)

lemma comps_append: "comps (a @ SLASH # b) = comps a @ comps b"
  by (simp add: comps_def Split_append_gen)

lemma comps_plain: "plain_name c \<Longrightarrow> comps c = [c]"
  by (simp add: comps_def plain_name_def Split_no_sep)

end
