(* ===== verification/GoStrconv.thy ===== *)
theory GoStrconv
  imports GoPath
begin

text \<open>
  Go's \<^verbatim>\<open>strconv\<close>: decimal formatting, \<^verbatim>\<open>Atoi\<close> and \<^verbatim>\<open>ParseInt\<close> in a base up to ten. The code only
  looks at whether the conversion failed, so an error is \<open>None\<close>.
\<close>

definition digit_char :: "nat \<Rightarrow> char" where
  "digit_char d = ''0123456789'' ! d"

definition digit_val :: "char \<Rightarrow> nat option" where
  "digit_val c = (if CHR ''0'' \<le> c \<and> c \<le> CHR ''9'' then Some (of_char c - 48) else None)"

fun digits_base :: "nat \<Rightarrow> nat \<Rightarrow> string" where
  "digits_base b n =
     (if n < b \<or> b < 2 then [digit_char n] else digits_base b (n div b) @ [digit_char (n mod b)])"

declare digits_base.simps [simp del]

definition Itoa :: "int \<Rightarrow> string" where
  "Itoa i = (if i < 0 then CHR ''-'' # digits_base 10 (nat (- i)) else digits_base 10 (nat i))"

text \<open>Digits to a number, most significant first; \<open>None\<close> on a byte that is no digit of the base.\<close>

fun parse_digits :: "nat \<Rightarrow> nat \<Rightarrow> string \<Rightarrow> nat option" where
  "parse_digits b acc [] = Some acc"
| "parse_digits b acc (c # cs) =
     (case digit_val c of
        None \<Rightarrow> None
      | Some d \<Rightarrow> if d < b then parse_digits b (acc * b + d) cs else None)"

definition ParseUint :: "nat \<Rightarrow> string \<Rightarrow> nat option" where
  "ParseUint b s = (if s = [] then None else parse_digits b 0 s)"

text \<open>\<^verbatim>\<open>ParseInt(s, base, bitSize)\<close>: an optional sign, digits, and the range of a signed
  \<open>bits\<close>-bit integer.\<close>

definition ParseInt :: "nat \<Rightarrow> nat \<Rightarrow> string \<Rightarrow> int option" where
  "ParseInt b bits s =
     (let neg = HasPrefix s ''-'';
          ds = (if neg \<or> HasPrefix s ''+'' then tl s else s)
      in case ParseUint b ds of
           None \<Rightarrow> None
         | Some u \<Rightarrow>
             if neg then (if u > 2 ^ (bits - 1) then None else Some (- int u))
             else (if u \<ge> 2 ^ (bits - 1) then None else Some (int u)))"

definition Atoi :: "string \<Rightarrow> int option" where
  "Atoi s = ParseInt 10 64 s"

subsection \<open>Lemmas\<close>

lemma digit_cases: "d < 10 \<Longrightarrow> d \<in> {0,1,2,3,4,5,6,7,8,9::nat}"
  by auto

lemma digit_val_char [simp]: "d < 10 \<Longrightarrow> digit_val (digit_char d) = Some d"
  by (drule digit_cases) (auto simp: digit_val_def digit_char_def less_eq_char_def)

lemma digit_char_wordy: "d < 10 \<Longrightarrow> CHR 0x20 < digit_char d \<and> digit_char d < CHR 0x7F"
  by (drule digit_cases) (auto simp: digit_char_def less_char_def)

lemma digit_char_neq:
  "d < 10 \<Longrightarrow> digit_char d \<noteq> SLASH \<and> digit_char d \<noteq> CHR ''.'' \<and> digit_char d \<noteq> CHR ''-''
     \<and> digit_char d \<noteq> CHR ''+'' \<and> digit_char d \<noteq> CHR ''*''"
  by (drule digit_cases) (auto simp: digit_char_def)

lemma digits_base_nonempty [simp]: "digits_base b n \<noteq> []"
  by (subst digits_base.simps) simp

lemma digits_base_chars:
  "2 \<le> b \<Longrightarrow> b \<le> 10 \<Longrightarrow> \<forall>c \<in> set (digits_base b n). \<exists>d < b. c = digit_char d"
proof (induction b n rule: digits_base.induct)
  case (1 b n)
  show ?case
  proof (cases "n < b")
    case True
    then show ?thesis by (subst digits_base.simps) auto
  next
    case False
    with 1 have "\<forall>c \<in> set (digits_base b (n div b)). \<exists>d < b. c = digit_char d" by auto
    moreover have "n mod b < b" using "1.prems" by simp
    moreover have "digits_base b n = digits_base b (n div b) @ [digit_char (n mod b)]"
      using False "1.prems" by (subst digits_base.simps) simp
    ultimately show ?thesis by auto
  qed
qed

lemma digits_base_safe: "2 \<le> b \<Longrightarrow> b \<le> 10 \<Longrightarrow> c \<in> set (digits_base b n) \<Longrightarrow>
  c \<noteq> SLASH \<and> c \<noteq> CHR ''.'' \<and> c \<noteq> CHR ''-'' \<and> c \<noteq> CHR ''+'' \<and> c \<noteq> CHR ''*''"
  by (drule (1) digits_base_chars [of b n], drule (1) bspec) (use digit_char_neq in auto)

lemma parse_digits_append:
  "parse_digits b acc (xs @ ys) =
     (case parse_digits b acc xs of None \<Rightarrow> None | Some a \<Rightarrow> parse_digits b a ys)"
  by (induction xs arbitrary: acc) (auto split: option.splits)

lemma parse_digits_base:
  "2 \<le> b \<Longrightarrow> b \<le> 10 \<Longrightarrow> parse_digits b 0 (digits_base b n) = Some n"
proof (induction b n rule: digits_base.induct)
  case (1 b n)
  show ?case
  proof (cases "n < b")
    case True
    with 1 show ?thesis by (subst digits_base.simps) auto
  next
    case False
    with 1 have IH: "parse_digits b 0 (digits_base b (n div b)) = Some (n div b)" by auto
    have m: "n mod b < b" using "1.prems" by simp
    then have "n mod b < 10" using "1.prems" by linarith
    with IH m have "parse_digits b 0 (digits_base b (n div b) @ [digit_char (n mod b)])
        = Some (n div b * b + n mod b)"
      by (simp add: parse_digits_append)
    with False 1 show ?thesis by (subst digits_base.simps) simp
  qed
qed

lemma ParseUint_digits: "2 \<le> b \<Longrightarrow> b \<le> 10 \<Longrightarrow> ParseUint b (digits_base b n) = Some n"
  by (simp add: ParseUint_def parse_digits_base)

lemma digits_base_no_sign:
  "2 \<le> b \<Longrightarrow> b \<le> 10 \<Longrightarrow> \<not> HasPrefix (digits_base b n) ''-'' \<and> \<not> HasPrefix (digits_base b n) ''+''"
  using digits_base_safe [of b _ n] by (fastforce simp: HasPrefix_iff)

lemma ParseInt_digits:
  "2 \<le> b \<Longrightarrow> b \<le> 10 \<Longrightarrow> n < 2 ^ (bits - 1) \<Longrightarrow> ParseInt b bits (digits_base b n) = Some (int n)"
  by (simp add: ParseInt_def Let_def digits_base_no_sign ParseUint_digits)

lemma ParseInt_range:
  "ParseInt b bits s = Some i \<Longrightarrow> - (2 ^ (bits - 1)) \<le> i \<and> i < 2 ^ (bits - 1)"
proof -
  assume "ParseInt b bits s = Some i"
  then consider u where "i = - int u" "u \<le> 2 ^ (bits - 1)" | u where "i = int u" "u < 2 ^ (bits - 1)"
    by (auto simp: ParseInt_def Let_def split: option.splits if_splits)
  then show ?thesis
  proof cases
    case (1 u)
    then have "int u \<le> 2 ^ (bits - 1)" by (metis of_nat_le_iff of_nat_numeral of_nat_power)
    moreover have "0 < (2::int) ^ (bits - 1)" by simp
    ultimately show ?thesis using 1 by linarith
  next
    case (2 u)
    then have "int u < 2 ^ (bits - 1)" by (metis of_nat_less_iff of_nat_numeral of_nat_power)
    moreover have "0 < (2::int) ^ (bits - 1)" by simp
    ultimately show ?thesis using 2 by linarith
  qed
qed

lemma Atoi_Itoa: "- (2 ^ 63) \<le> i \<Longrightarrow> i < 2 ^ 63 \<Longrightarrow> Atoi (Itoa i) = Some i"
proof (cases "i < 0")
  case True
  assume "- (2 ^ 63) \<le> i"
  with True have "nat (- i) \<le> 2 ^ 63" by (simp add: nat_le_iff)
  with True show ?thesis
    by (simp add: Atoi_def ParseInt_def Itoa_def HasPrefix_def ParseUint_digits)
next
  case False
  assume "i < 2 ^ 63"
  with False have "nat i < 2 ^ 63" by (simp add: nat_less_iff)
  with False show ?thesis by (simp add: Atoi_def Itoa_def ParseInt_digits)
qed

lemma digits_plain_name:
  assumes "\<forall>c \<in> set a. c \<noteq> SLASH" and "\<forall>c \<in> set b. c \<noteq> SLASH"
  shows "plain_name (a @ digits_base 10 n @ b)"
proof -
  obtain c where c: "c \<in> set (digits_base 10 n)"
    using digits_base_nonempty [of 10 n] by (metis last_in_set)
  then have "c \<noteq> CHR ''.''" "c \<in> set (a @ digits_base 10 n @ b)"
    using digits_base_safe [of 10 c n] by auto
  then have "a @ digits_base 10 n @ b \<noteq> ''.''" "a @ digits_base 10 n @ b \<noteq> ''..''"
    by (metis empty_set insertE list.set(2) singletonD set_ConsD)+
  then show ?thesis
    using assms digits_base_safe [of 10 SLASH n] by (auto simp: plain_name_def)
qed

text \<open>A name that ends in digits is none that ends in a letter.\<close>

lemma last_digit:
  assumes "2 \<le> b" "b \<le> 10"
  shows "\<exists>d < 10. last (a @ digits_base b n) = digit_char d"
proof -
  have "last (digits_base b n) \<in> set (digits_base b n)" by (rule last_in_set) simp
  then obtain d where "d < b" "last (digits_base b n) = digit_char d"
    using digits_base_chars [OF assms] by blast
  then show ?thesis using assms by (intro exI [of _ d]) simp
qed

lemma digit_char_letter: "d < 10 \<Longrightarrow> digit_char d \<notin> {CHR ''t'', CHR ''s'', CHR ''p'', CHR ''d''}"
  by (drule digit_cases) (auto simp: digit_char_def)

lemma digits_no_letter:
  "s \<noteq> [] \<Longrightarrow> last s \<in> {CHR ''t'', CHR ''s'', CHR ''p'', CHR ''d''} \<Longrightarrow> a @ digits_base 10 n \<noteq> s"
  using last_digit [of 10 a n] digit_char_letter by fastforce

end
