(* ===== verification/OS.thy ===== *)
theory OS
  imports GoStrconv "HOL-Library.Word"
begin

unbundle bit_operations_syntax

text \<open>
  The operating system as the Go runtime sees it: file modes, a file system with
  directories, links and special files, path resolution through symbolic links, and the
  state \<open>world\<close> every component works on.

  Everything outside the program is a field of the world and so is universally quantified
  in every theorem: \<open>fault\<close> decides for each system call whether the environment makes it
  fail (an I/O error, a full disk, a missing permission, a read-only or different device)
  and, for a write, how many bytes arrive before it does; because the schedule is
  arbitrary, a crash is the schedule under which every call after some point fails. \<open>progs\<close>
  is what the external programs do to the file system, what they print and whether they fail;
  \<open>net\<close> what the network answers; \<open>rnd\<close> the random numbers of temporary names;
  \<open>mount_view\<close> the tree a mount, a change of the root or of the namespace brings into view.
\<close>

type_synonym mode = "32 word"

subsection \<open>Errors\<close>

datatype errno =
    ENOENT | EEXIST | ENOTDIR | EISDIR | ENOTEMPTY | ELOOP | EINVAL | EBADF | EWOULDBLOCK
  | EFault nat

text \<open>Go's error values: a failed system call (\<^verbatim>\<open>PathError\<close>, \<^verbatim>\<open>LinkError\<close>, \<^verbatim>\<open>SyscallError\<close>), a
  message, the end of input, the exit of a program, a wrapped error, a \<^verbatim>\<open>cli.MultiError\<close>.\<close>

datatype goerr =
    Sys string string errno
  | Msg string
  | IOEOF
  | ExitError string nat
  | Wrapped string goerr
  | MultiError "goerr list"

fun underlying :: "goerr \<Rightarrow> errno option" where
  "underlying (Sys _ _ e) = Some e"
| "underlying _ = None"

definition IsNotExist :: "goerr \<Rightarrow> bool" where
  "IsNotExist e \<longleftrightarrow> underlying e = Some ENOENT"

definition IsExist :: "goerr \<Rightarrow> bool" where
  "IsExist e \<longleftrightarrow> underlying e \<in> {Some EEXIST, Some ENOTEMPTY}"

subsection \<open>Modes\<close>

text \<open>The bits of Go's \<^verbatim>\<open>os.FileMode\<close>.\<close>

definition ModeDir :: mode where "ModeDir = push_bit 31 1"
definition ModeSymlink :: mode where "ModeSymlink = push_bit 27 1"
definition ModeDevice :: mode where "ModeDevice = push_bit 26 1"
definition ModeNamedPipe :: mode where "ModeNamedPipe = push_bit 25 1"
definition ModeSocket :: mode where "ModeSocket = push_bit 24 1"
definition ModeSetuid :: mode where "ModeSetuid = push_bit 23 1"
definition ModeSetgid :: mode where "ModeSetgid = push_bit 22 1"
definition ModeCharDevice :: mode where "ModeCharDevice = push_bit 21 1"
definition ModeSticky :: mode where "ModeSticky = push_bit 20 1"
definition ModePerm :: mode where "ModePerm = 0x1FF"

text \<open>The kernel's mode bits.\<close>

definition S_IFMT :: mode where "S_IFMT = 0xF000"
definition S_IFSOCK :: mode where "S_IFSOCK = 0xC000"
definition S_IFREG :: mode where "S_IFREG = 0x8000"
definition S_IFBLK :: mode where "S_IFBLK = 0x6000"
definition S_IFCHR :: mode where "S_IFCHR = 0x2000"
definition S_IFIFO :: mode where "S_IFIFO = 0x1000"
definition S_ISUID :: mode where "S_ISUID = 0x800"
definition S_ISGID :: mode where "S_ISGID = 0x400"
definition S_ISVTX :: mode where "S_ISVTX = 0x200"

lemmas mode_defs =
  ModeDir_def ModeSymlink_def ModeDevice_def ModeNamedPipe_def ModeSocket_def ModeSetuid_def
  ModeSetgid_def ModeCharDevice_def ModeSticky_def ModePerm_def S_IFMT_def S_IFSOCK_def
  S_IFREG_def S_IFBLK_def S_IFCHR_def S_IFIFO_def S_ISUID_def S_ISGID_def S_ISVTX_def

text \<open>\<^verbatim>\<open>os.syscallMode\<close>: what \<^verbatim>\<open>os\<close> passes to the kernel for a \<^verbatim>\<open>FileMode\<close>. Only the nine
  permission bits and Go's own three flag bits survive.\<close>

definition syscallMode :: "mode \<Rightarrow> mode" where
  "syscallMode m =
     (m AND ModePerm)
     OR (if m AND ModeSetuid \<noteq> 0 then S_ISUID else 0)
     OR (if m AND ModeSetgid \<noteq> 0 then S_ISGID else 0)
     OR (if m AND ModeSticky \<noteq> 0 then S_ISVTX else 0)"

subsection \<open>Files\<close>

record meta =
  m_perm :: mode
  m_uid :: int
  m_gid :: int
  m_times :: "int \<times> int"

datatype node =
    Dir meta
  | Reg meta bytes
  | Lnk meta string
  | Chr meta int
  | Blk meta int
  | Fifo meta
  | Sock meta

fun node_meta :: "node \<Rightarrow> meta" where
  "node_meta (Dir m) = m"
| "node_meta (Reg m _) = m"
| "node_meta (Lnk m _) = m"
| "node_meta (Chr m _) = m"
| "node_meta (Blk m _) = m"
| "node_meta (Fifo m) = m"
| "node_meta (Sock m) = m"

fun map_meta :: "(meta \<Rightarrow> meta) \<Rightarrow> node \<Rightarrow> node" where
  "map_meta f (Dir m) = Dir (f m)"
| "map_meta f (Reg m s) = Reg (f m) s"
| "map_meta f (Lnk m t) = Lnk (f m) t"
| "map_meta f (Chr m d) = Chr (f m) d"
| "map_meta f (Blk m d) = Blk (f m) d"
| "map_meta f (Fifo m) = Fifo (f m)"
| "map_meta f (Sock m) = Sock (f m)"

fun is_dir :: "node \<Rightarrow> bool" where
  "is_dir (Dir _) = True"
| "is_dir _ = False"

fun is_lnk :: "node \<Rightarrow> bool" where
  "is_lnk (Lnk _ _) = True"
| "is_lnk _ = False"

fun type_bits :: "node \<Rightarrow> mode" where
  "type_bits (Dir _) = ModeDir"
| "type_bits (Reg _ _) = 0"
| "type_bits (Lnk _ _) = ModeSymlink"
| "type_bits (Chr _ _) = ModeDevice OR ModeCharDevice"
| "type_bits (Blk _ _) = ModeDevice"
| "type_bits (Fifo _) = ModeNamedPipe"
| "type_bits (Sock _) = ModeSocket"

text \<open>\<^verbatim>\<open>fillFileStatFromSys\<close>: the \<^verbatim>\<open>FileMode\<close> of a file.\<close>

definition go_mode :: "node \<Rightarrow> mode" where
  "go_mode n =
     (let p = m_perm (node_meta n)
      in (p AND ModePerm) OR type_bits n
         OR (if p AND S_ISUID \<noteq> 0 then ModeSetuid else 0)
         OR (if p AND S_ISGID \<noteq> 0 then ModeSetgid else 0)
         OR (if p AND S_ISVTX \<noteq> 0 then ModeSticky else 0))"

text \<open>\<^verbatim>\<open>os.FileInfo\<close>: the base name, the file's status at the time of the call.\<close>

record finfo =
  fi_name :: string
  fi_node :: node

definition fi_Mode :: "finfo \<Rightarrow> mode" where
  "fi_Mode i = go_mode (fi_node i)"

definition fi_IsDir :: "finfo \<Rightarrow> bool" where
  "fi_IsDir i \<longleftrightarrow> fi_Mode i AND ModeDir \<noteq> 0"

subsection \<open>The file system\<close>

type_synonym fsys = "(path \<times> node) list"

abbreviation look :: "fsys \<Rightarrow> path \<Rightarrow> node option" where
  "look fs p \<equiv> map_of fs p"

definition fs_set :: "path \<Rightarrow> node \<Rightarrow> fsys \<Rightarrow> fsys" where
  "fs_set p n fs = (p, n) # fs"

definition fs_del :: "path \<Rightarrow> fsys \<Rightarrow> fsys" where
  "fs_del p fs = filter (\<lambda>(q, _). q \<noteq> p) fs"

definition fs_move :: "path \<Rightarrow> path \<Rightarrow> fsys \<Rightarrow> fsys" where
  "fs_move old new fs =
     map (\<lambda>(q, n). (new @ drop (length old) q, n)) (filter (\<lambda>(q, _). prefix old q) fs)
     @ filter (\<lambda>(q, _). \<not> prefix old q \<and> \<not> prefix new q) fs"

text \<open>The names in a directory, sorted as \<^verbatim>\<open>ioutil.ReadDir\<close> returns them. A name is not empty, is
  neither \<^verbatim>\<open>.\<close> nor \<^verbatim>\<open>..\<close>, and holds no slash.\<close>

definition fs_names :: "fsys \<Rightarrow> path \<Rightarrow> string list" where
  "fs_names fs d =
     sort (remdups (map (\<lambda>(q, _). last q) (filter (\<lambda>(q, _). q \<noteq> [] \<and> butlast q = d \<and> plain_name (last q)) fs)))"

text \<open>Path resolution, at most \<open>n\<close> symbolic links deep (40 on Linux). The last component may be
  missing; it is not followed when \<open>follow\<close> is false.\<close>

fun namei :: "nat \<Rightarrow> bool \<Rightarrow> fsys \<Rightarrow> path \<Rightarrow> path \<Rightarrow> errno + path" where
  "namei n follow fs dir [] = Inr dir"
| "namei n follow fs dir (c # cs) =
     (case look fs dir of
        None \<Rightarrow> Inl ENOENT
      | Some (Dir _) \<Rightarrow>
          if c = ''.'' then namei n follow fs dir cs
          else if c = ''..'' then namei n follow fs (butlast dir) cs
          else (case look fs (dir @ [c]) of
                  None \<Rightarrow> if cs = [] then Inr (dir @ [c]) else Inl ENOENT
                | Some (Lnk _ t) \<Rightarrow>
                    if cs = [] \<and> \<not> follow then Inr (dir @ [c])
                    else (case n of
                            0 \<Rightarrow> Inl ELOOP
                          | Suc n' \<Rightarrow> namei n' follow fs (if is_abs t then [] else dir) (comps t @ cs))
                | Some _ \<Rightarrow> namei n follow fs (dir @ [c]) cs)
      | Some _ \<Rightarrow> Inl ENOTDIR)"

subsection \<open>The state of the world\<close>

text \<open>A program to run: its file, its arguments (\<^verbatim>\<open>argv[0]\<close> first), what is added to its environment
  and its standard input.\<close>

record command =
  c_path :: string
  c_args :: "string list"
  c_env :: "string list"
  c_stdin :: string

definition exec_Command :: "string list \<Rightarrow> command" where
  "exec_Command args = \<lparr>c_path = (case args of [] \<Rightarrow> [] | a # _ \<Rightarrow> a), c_args = args, c_env = [], c_stdin = []\<rparr>"

datatype loglevel = LDebug | LInfo | LWarn | LError | LFatal

text \<open>What an observer outside the file system can see, in order.\<close>

datatype event =
    EvExec command
  | EvMount string string string "64 word" string
  | EvSetHostname string
  | EvSync
  | EvChroot string
  | EvPivotRoot string string
  | EvReplace command
  | EvPrint string
  | EvLog loglevel
  | EvLock string
  | EvUnlock string
  | EvOther string "string list"

record world =
  files :: fsys
  cwd :: path
  umask :: mode
  environ :: "(string \<times> string) list"
  nodename :: string
  stdin :: "bytes list"
  trace :: "event list"
  clock :: nat
  fault :: "nat \<Rightarrow> (nat \<times> nat) option"
  progs :: "nat \<Rightarrow> command \<Rightarrow> fsys \<Rightarrow> goerr option \<times> string \<times> fsys"
  net :: "nat \<Rightarrow> string \<Rightarrow> goerr + (nat \<times> (goerr + bytes))"
  rnd :: "nat \<Rightarrow> 32 word"
  proc_uid :: int
  proc_pid :: int
  proc_args :: "string list"
  stdin_tty :: bool
  stdout_tty :: bool
  mounts :: "string list"
  mount_view :: "nat \<Rightarrow> event \<Rightarrow> fsys \<Rightarrow> fsys"

type_synonym 'a io = "(world, 'a) state"
type_synonym 'a result = "goerr + 'a"

definition tick :: "world \<Rightarrow> world" where
  "tick w = w\<lparr>clock := clock w + 1\<rparr>"

text \<open>No call fails for a reason outside the file system.\<close>

definition calm :: "world \<Rightarrow> bool" where
  "calm w \<longleftrightarrow> (\<forall>n. fault w n = None)"

definition resolve :: "bool \<Rightarrow> world \<Rightarrow> string \<Rightarrow> errno + path" where
  "resolve follow w s =
     (if s = [] then Inl ENOENT
      else namei 40 follow (files w) (if is_abs s then [] else cwd w) (comps s))"

text \<open>Every system call goes through \<open>sysc\<close>: the schedule may make it fail; otherwise the call
  itself may fail, and then nothing has changed.\<close>

definition sysc :: "string \<Rightarrow> string \<Rightarrow> (world \<Rightarrow> errno + ('a \<times> world)) \<Rightarrow> 'a result io" where
  "sysc op p f = State (\<lambda>w.
     case fault w (clock w) of
       Some (n, _) \<Rightarrow> (Inl (Sys op p (EFault n)), tick w)
     | None \<Rightarrow> (case f (tick w) of
                 Inl e \<Rightarrow> (Inl (Sys op p e), tick w)
               | Inr (a, w') \<Rightarrow> (Inr a, w')))"

text \<open>A call that changes the file at the path a string resolves to.\<close>

definition at_path ::
  "string \<Rightarrow> string \<Rightarrow> bool \<Rightarrow> (path \<Rightarrow> node option \<Rightarrow> world \<Rightarrow> errno + ('a \<times> world)) \<Rightarrow> 'a result io" where
  "at_path op s follow f = sysc op s (\<lambda>w.
     case resolve follow w s of Inl e \<Rightarrow> Inl e | Inr p \<Rightarrow> f p (look (files w) p) w)"

definition emit :: "event \<Rightarrow> unit io" where
  "emit ev = State (\<lambda>w. ((), w\<lparr>trace := trace w @ [ev]\<rparr>))"

definition now :: "world \<Rightarrow> int \<times> int" where
  "now w = (int (clock w), int (clock w))"

definition new_meta :: "world \<Rightarrow> mode \<Rightarrow> meta" where
  "new_meta w perm = \<lparr>m_perm = perm AND NOT (umask w), m_uid = 0, m_gid = 0, m_times = now w\<rparr>"

end
