(* ===== verification/Syscalls.thy ===== *)
theory Syscalls
  imports OS
begin

text \<open>
  The functions of Go's packages \<^verbatim>\<open>os\<close>, \<^verbatim>\<open>io/ioutil\<close> and \<^verbatim>\<open>os/exec\<close> the sources call, over the
  world of theory \<open>OS\<close>. Each system call is one step of the fault schedule.
\<close>

subsection \<open>Status, links, modes, owners\<close>

definition os_Stat :: "string \<Rightarrow> finfo result io" where
  "os_Stat s = at_path ''stat'' s True (\<lambda>p n w.
     case n of None \<Rightarrow> Inl ENOENT | Some n \<Rightarrow> Inr (\<lparr>fi_name = PathBase s, fi_node = n\<rparr>, w))"

definition os_Lstat :: "string \<Rightarrow> finfo result io" where
  "os_Lstat s = at_path ''lstat'' s False (\<lambda>p n w.
     case n of None \<Rightarrow> Inl ENOENT | Some n \<Rightarrow> Inr (\<lparr>fi_name = PathBase s, fi_node = n\<rparr>, w))"

definition os_Readlink :: "string \<Rightarrow> string result io" where
  "os_Readlink s = at_path ''readlink'' s False (\<lambda>p n w.
     case n of None \<Rightarrow> Inl ENOENT | Some (Lnk _ t) \<Rightarrow> Inr (t, w) | Some _ \<Rightarrow> Inl EINVAL)"

definition os_Symlink :: "string \<Rightarrow> string \<Rightarrow> unit result io" where
  "os_Symlink target s = at_path ''symlink'' s False (\<lambda>p n w.
     case n of
       Some _ \<Rightarrow> Inl EEXIST
     | None \<Rightarrow> Inr ((), w\<lparr>files := fs_set p (Lnk (new_meta w 0x1FF) target) (files w)\<rparr>))"

definition chmod_meta :: "mode \<Rightarrow> meta \<Rightarrow> meta" where
  "chmod_meta k m = m\<lparr>m_perm := k\<rparr>"

definition os_Chmod :: "string \<Rightarrow> mode \<Rightarrow> unit result io" where
  "os_Chmod s m = at_path ''chmod'' s True (\<lambda>p n w.
     case n of
       None \<Rightarrow> Inl ENOENT
     | Some n \<Rightarrow> Inr ((), w\<lparr>files := fs_set p (map_meta (chmod_meta (syscallMode m)) n) (files w)\<rparr>))"

definition chown_meta :: "int \<Rightarrow> int \<Rightarrow> meta \<Rightarrow> meta" where
  "chown_meta uid gid m = m\<lparr>m_uid := uid, m_gid := gid\<rparr>"

definition chown_gen :: "string \<Rightarrow> bool \<Rightarrow> string \<Rightarrow> int \<Rightarrow> int \<Rightarrow> unit result io" where
  "chown_gen op follow s uid gid = at_path op s follow (\<lambda>p n w.
     case n of
       None \<Rightarrow> Inl ENOENT
     | Some n \<Rightarrow> Inr ((), w\<lparr>files := fs_set p (map_meta (chown_meta uid gid) n) (files w)\<rparr>))"

definition os_Chown :: "string \<Rightarrow> int \<Rightarrow> int \<Rightarrow> unit result io" where
  "os_Chown s uid gid = chown_gen ''chown'' True s uid gid"

definition unix_Lchown :: "string \<Rightarrow> int \<Rightarrow> int \<Rightarrow> unit result io" where
  "unix_Lchown s uid gid = chown_gen ''lchown'' False s uid gid"

subsection \<open>Directories\<close>

definition os_Mkdir :: "string \<Rightarrow> mode \<Rightarrow> unit result io" where
  "os_Mkdir s perm = at_path ''mkdir'' s False (\<lambda>p n w.
     case n of
       Some _ \<Rightarrow> Inl EEXIST
     | None \<Rightarrow> Inr ((), w\<lparr>files := fs_set p (Dir (new_meta w (syscallMode perm AND 0x3FF))) (files w)\<rparr>))"

text \<open>The directory part of a path as \<^verbatim>\<open>MkdirAll\<close> computes it: trailing slashes and the last
  component removed.\<close>

definition mkdir_parent :: "string \<Rightarrow> string" where
  "mkdir_parent s =
     rev (dropWhile (\<lambda>c. c \<noteq> SLASH) (dropWhile (\<lambda>c. c = SLASH) (rev s)))"

lemma mkdir_parent_length: "length (mkdir_parent s) \<le> length s"
  using length_dropWhile_le [of "\<lambda>c. c = SLASH" "rev s"]
    length_dropWhile_le [of "\<lambda>c. c \<noteq> SLASH" "dropWhile (\<lambda>c. c = SLASH) (rev s)"]
  by (simp add: mkdir_parent_def)

function os_MkdirAll :: "string \<Rightarrow> mode \<Rightarrow> unit result io" where
  "os_MkdirAll s perm = do {
     r \<leftarrow> os_Stat s;
     case r of
       Inr i \<Rightarrow> if fi_IsDir i then ok () else fail (Sys ''mkdir'' s ENOTDIR)
     | Inl _ \<Rightarrow> do {
         up \<leftarrow> (if length (mkdir_parent s) > 1 then os_MkdirAll (butlast (mkdir_parent s)) perm else ok ());
         case up of
           Inl e \<Rightarrow> fail e
         | Inr _ \<Rightarrow> do {
             m \<leftarrow> os_Mkdir s perm;
             case m of
               Inr _ \<Rightarrow> ok ()
             | Inl e \<Rightarrow> do {
                 l \<leftarrow> os_Lstat s;
                 State_Monad.return (case l of Inr i \<Rightarrow> if fi_IsDir i then Inr () else Inl e | Inl _ \<Rightarrow> Inl e) } } } }"
  by pat_completeness auto
termination
proof (relation "measure (\<lambda>(s, perm). length s)")
  fix s :: string and perm :: mode
  assume "1 < length (mkdir_parent s)"
  then show "((butlast (mkdir_parent s), perm), s, perm) \<in> measure (\<lambda>(s, perm). length s)"
    using mkdir_parent_length [of s] by simp
qed simp

declare os_MkdirAll.simps [simp del]

definition ioutil_ReadDir :: "string \<Rightarrow> finfo list result io" where
  "ioutil_ReadDir s = at_path ''open'' s True (\<lambda>p n w.
     case n of
       None \<Rightarrow> Inl ENOENT
     | Some (Dir _) \<Rightarrow>
         Inr (concat (map (\<lambda>c. case look (files w) (p @ [c]) of
                                 None \<Rightarrow> [] | Some n \<Rightarrow> [\<lparr>fi_name = c, fi_node = n\<rparr>])
                          (fs_names (files w) p)), w)
     | Some _ \<Rightarrow> Inl ENOTDIR)"

subsection \<open>Removing and renaming\<close>

definition sys_unlink :: "string \<Rightarrow> unit result io" where
  "sys_unlink s = at_path ''remove'' s False (\<lambda>p n w.
     case n of
       None \<Rightarrow> Inl ENOENT
     | Some n \<Rightarrow> if is_dir n then Inl EISDIR else Inr ((), w\<lparr>files := fs_del p (files w)\<rparr>))"

definition sys_rmdir :: "string \<Rightarrow> unit result io" where
  "sys_rmdir s = at_path ''remove'' s False (\<lambda>p n w.
     case n of
       None \<Rightarrow> Inl ENOENT
     | Some n \<Rightarrow> if \<not> is_dir n then Inl ENOTDIR
                 else if fs_names (files w) p \<noteq> [] then Inl ENOTEMPTY
                 else Inr ((), w\<lparr>files := fs_del p (files w)\<rparr>))"

definition os_Remove :: "string \<Rightarrow> unit result io" where
  "os_Remove s = do {
     r \<leftarrow> sys_unlink s;
     case r of
       Inr _ \<Rightarrow> ok ()
     | Inl e \<Rightarrow> do {
         r1 \<leftarrow> sys_rmdir s;
         case r1 of
           Inr _ \<Rightarrow> ok ()
         | Inl e1 \<Rightarrow> fail (if underlying e1 \<noteq> Some ENOTDIR then e1 else e) } }"

text \<open>\<^verbatim>\<open>RemoveAll\<close> removes what it can of a tree, children before parents; a missing path is no
  error. It works relative to open directories, so it follows no link. The tree is listed once:
  nothing else runs meanwhile.\<close>

definition subtree_paths :: "fsys \<Rightarrow> path \<Rightarrow> path list" where
  "subtree_paths fs p = rev (sort (remdups (map fst (filter (\<lambda>(q, _). prefix p q) fs))))"

definition sys_unlinkat :: "path \<Rightarrow> unit result io" where
  "sys_unlinkat p = sysc ''unlinkat'' (abs_string p) (\<lambda>w.
     case look (files w) p of
       None \<Rightarrow> Inl ENOENT
     | Some n \<Rightarrow> if is_dir n \<and> fs_names (files w) p \<noteq> [] then Inl ENOTEMPTY
                 else Inr ((), w\<lparr>files := fs_del p (files w)\<rparr>))"

fun remove_each :: "path list \<Rightarrow> goerr option \<Rightarrow> unit result io" where
  "remove_each [] None = ok ()"
| "remove_each [] (Some e) = fail e"
| "remove_each (p # ps) acc = do {
     r \<leftarrow> sys_unlinkat p;
     remove_each ps (case r of
                       Inr _ \<Rightarrow> acc
                     | Inl e \<Rightarrow> if acc = None \<and> \<not> IsNotExist e then Some e else acc) }"

definition os_RemoveAll :: "string \<Rightarrow> unit result io" where
  "os_RemoveAll s = do {
     w \<leftarrow> State_Monad.get;
     case resolve False w s of
       Inl e \<Rightarrow> if e = ENOENT then ok () else fail (Sys ''unlinkat'' s e)
     | Inr p \<Rightarrow> remove_each (subtree_paths (files w) p) None }"

definition sys_rename :: "string \<Rightarrow> string \<Rightarrow> unit result io" where
  "sys_rename old new = sysc ''rename'' old (\<lambda>w.
     case resolve False w old of
       Inl e \<Rightarrow> Inl e
     | Inr p \<Rightarrow> (case resolve False w new of
         Inl e \<Rightarrow> Inl e
       | Inr q \<Rightarrow> (case look (files w) p of
           None \<Rightarrow> Inl ENOENT
         | Some n \<Rightarrow>
             if p = q then Inr ((), w)
             else if prefix p q then Inl EINVAL
             else if prefix q p then Inl ENOTEMPTY
             else (case look (files w) q of
                 None \<Rightarrow> Inr ((), w\<lparr>files := fs_move p q (files w)\<rparr>)
               | Some m \<Rightarrow>
                   if is_dir n \<and> \<not> is_dir m then Inl ENOTDIR
                   else if \<not> is_dir n \<and> is_dir m then Inl EISDIR
                   else if is_dir m \<and> fs_names (files w) q \<noteq> [] then Inl ENOTEMPTY
                   else Inr ((), w\<lparr>files := fs_move p q (files w)\<rparr>)))))"

text \<open>\<^verbatim>\<open>os.Rename\<close> refuses a new name that is an existing directory before it asks the kernel.\<close>

definition os_Rename :: "string \<Rightarrow> string \<Rightarrow> unit result io" where
  "os_Rename old new = do {
     fi \<leftarrow> os_Lstat new;
     if (case fi of Inr i \<Rightarrow> fi_IsDir i | Inl _ \<Rightarrow> False)
     then do {
       ofi \<leftarrow> os_Lstat old;
       w \<leftarrow> State_Monad.get;
       case ofi of
         Inl e \<Rightarrow> fail e
       | Inr _ \<Rightarrow> if old = new \<or> resolve False w old \<noteq> resolve False w new
                   then fail (Sys ''rename'' old EEXIST)
                   else sys_rename old new }
     else sys_rename old new }"

subsection \<open>Files\<close>

text \<open>An open file is the path it resolved to: no file the code still writes is renamed or removed.\<close>

record oflags =
  o_creat :: bool
  o_excl :: bool
  o_trunc :: bool

definition os_OpenFile :: "string \<Rightarrow> oflags \<Rightarrow> mode \<Rightarrow> path result io" where
  "os_OpenFile s fl perm =
     at_path ''open'' s (\<not> (o_creat fl \<and> o_excl fl)) (\<lambda>p n w.
       case n of
         None \<Rightarrow>
           if o_creat fl
           then Inr (p, w\<lparr>files := fs_set p (Reg (new_meta w (syscallMode perm)) []) (files w)\<rparr>)
           else Inl ENOENT
       | Some n \<Rightarrow>
           if o_creat fl \<and> o_excl fl then Inl EEXIST
           else if is_dir n then Inl EISDIR
           else (case n of
               Reg m c \<Rightarrow> Inr (p, if o_trunc fl then w\<lparr>files := fs_set p (Reg m []) (files w)\<rparr> else w)
             | _ \<Rightarrow> Inr (p, w)))"

abbreviation O_create :: oflags where
  "O_create \<equiv> \<lparr>o_creat = True, o_excl = False, o_trunc = True\<rparr>"

abbreviation O_excl :: oflags where
  "O_excl \<equiv> \<lparr>o_creat = True, o_excl = True, o_trunc = False\<rparr>"

text \<open>A write appends at the end of what this handle wrote; if it fails, a prefix has arrived.\<close>

definition append_reg :: "bytes \<Rightarrow> node \<Rightarrow> node" where
  "append_reg d n = (case n of Reg m c \<Rightarrow> Reg m (c @ d) | _ \<Rightarrow> n)"

definition fs_append :: "path \<Rightarrow> bytes \<Rightarrow> fsys \<Rightarrow> fsys" where
  "fs_append p d fs = (case look fs p of None \<Rightarrow> fs | Some n \<Rightarrow> fs_set p (append_reg d n) fs)"

definition fd_Write :: "path \<Rightarrow> bytes \<Rightarrow> unit result io" where
  "fd_Write h d = State (\<lambda>w.
     case fault w (clock w) of
       Some (n, k) \<Rightarrow> (Inl (Sys ''write'' (abs_string h) (EFault n)),
                       (tick w)\<lparr>files := fs_append h (take k d) (files w)\<rparr>)
     | None \<Rightarrow> (Inr (), (tick w)\<lparr>files := fs_append h d (files w)\<rparr>))"

definition fd_Close :: "path \<Rightarrow> unit result io" where
  "fd_Close h = sysc ''close'' (abs_string h) (\<lambda>w. Inr ((), w))"

definition ioutil_ReadFile :: "string \<Rightarrow> bytes result io" where
  "ioutil_ReadFile s = at_path ''open'' s True (\<lambda>p n w.
     case n of
       None \<Rightarrow> Inl ENOENT
     | Some (Reg _ c) \<Rightarrow> Inr (c, w)
     | Some (Dir _) \<Rightarrow> Inl EISDIR
     | Some _ \<Rightarrow> Inl EINVAL)"

text \<open>\<^verbatim>\<open>ioutil.WriteFile\<close>: open with truncation, write, close; the first error of write and close.\<close>

definition ioutil_WriteFile :: "string \<Rightarrow> bytes \<Rightarrow> mode \<Rightarrow> unit result io" where
  "ioutil_WriteFile s d perm =
     check (os_OpenFile s O_create perm) (\<lambda>h. do {
       r \<leftarrow> fd_Write h d;
       c \<leftarrow> fd_Close h;
       State_Monad.return (case r of Inl e \<Rightarrow> Inl e | Inr _ \<Rightarrow> c) })"

text \<open>\<^verbatim>\<open>ioutil.TempFile\<close> and \<^verbatim>\<open>ioutil.TempDir\<close>: up to 10000 random names. The last \<^verbatim>\<open>*\<close> of the
  pattern is where the random string goes; without one it goes at the end.\<close>

definition temp_affixes :: "string \<Rightarrow> string \<times> string" where
  "temp_affixes pat =
     (if CHR ''*'' \<in> set pat
      then let suf = rev (takeWhile (\<lambda>c. c \<noteq> CHR ''*'') (rev pat))
           in (take (length pat - length suf - 1) pat, suf)
      else (pat, []))"

definition temp_join :: "string \<Rightarrow> string \<Rightarrow> string" where
  "temp_join dir name = (if HasSuffix dir ''/'' then dir @ name else dir @ ''/'' @ name)"

definition next_random :: "world \<Rightarrow> string" where
  "next_random w = Itoa (uint (rnd w (clock w)))"

fun temp_file_try :: "nat \<Rightarrow> string \<Rightarrow> string \<Rightarrow> (string \<times> path) result io" where
  "temp_file_try 0 pre suf = fail (Sys ''createtemp'' (pre @ ''*'' @ suf) EEXIST)"
| "temp_file_try (Suc k) pre suf = do {
     w \<leftarrow> State_Monad.get;
     let name = pre @ next_random w @ suf;
     r \<leftarrow> os_OpenFile name O_excl 0x180;
     case r of
       Inr h \<Rightarrow> ok (name, h)
     | Inl e \<Rightarrow> if IsExist e then temp_file_try k pre suf else fail e }"

definition ioutil_TempFile :: "string \<Rightarrow> string \<Rightarrow> (string \<times> path) result io" where
  "ioutil_TempFile dir pat =
     (if SLASH \<in> set pat then fail (Msg ''pattern contains path separator'')
      else case temp_affixes pat of (pre, suf) \<Rightarrow>
        temp_file_try 10000 (temp_join (if dir = [] then ''/tmp'' else dir) pre) suf)"

fun temp_dir_try :: "nat \<Rightarrow> string \<Rightarrow> string \<Rightarrow> string \<Rightarrow> string result io" where
  "temp_dir_try 0 dir pre suf = fail (Sys ''mkdirtemp'' (pre @ ''*'' @ suf) EEXIST)"
| "temp_dir_try (Suc k) dir pre suf = do {
     w \<leftarrow> State_Monad.get;
     let name = pre @ next_random w @ suf;
     r \<leftarrow> os_Mkdir name 0x1C0;
     case r of
       Inr _ \<Rightarrow> ok name
     | Inl e \<Rightarrow>
         if IsExist e then temp_dir_try k dir pre suf
         else if IsNotExist e then do {
           d \<leftarrow> os_Stat dir;
           fail (case d of Inl e' \<Rightarrow> if IsNotExist e' then e' else e | Inr _ \<Rightarrow> e) }
         else fail e }"

definition ioutil_TempDir :: "string \<Rightarrow> string \<Rightarrow> string result io" where
  "ioutil_TempDir dir pat =
     (if SLASH \<in> set pat then fail (Msg ''pattern contains path separator'')
      else case temp_affixes pat of (pre, suf) \<Rightarrow>
        let d = (if dir = [] then ''/tmp'' else dir) in temp_dir_try 10000 d (temp_join d pre) suf)"

subsection \<open>Programs, environment, name of the host, network\<close>

text \<open>\<^verbatim>\<open>cmd.Run()\<close> and \<^verbatim>\<open>CombinedOutput()\<close>.\<close>

definition cmd_CombinedOutput :: "command \<Rightarrow> (string \<times> unit result) io" where
  "cmd_CombinedOutput c = State (\<lambda>w.
     case progs w (clock w) c (files w) of (e, out, fs) \<Rightarrow>
       ((out, case e of None \<Rightarrow> Inr () | Some e \<Rightarrow> Inl e),
        (tick w)\<lparr>files := fs, trace := trace w @ [EvExec c]\<rparr>))"

definition cmd_Run :: "command \<Rightarrow> unit result io" where
  "cmd_Run c = do { r \<leftarrow> cmd_CombinedOutput c; State_Monad.return (snd r) }"

definition os_Getenv :: "string \<Rightarrow> string io" where
  "os_Getenv k = State (\<lambda>w. (case map_of (environ w) k of None \<Rightarrow> [] | Some v \<Rightarrow> v, w))"

definition os_Setenv :: "string \<Rightarrow> string \<Rightarrow> unit io" where
  "os_Setenv k v = State (\<lambda>w. ((), w\<lparr>environ := (k, v) # filter (\<lambda>(k', _). k' \<noteq> k) (environ w)\<rparr>))"

definition os_Unsetenv :: "string \<Rightarrow> unit io" where
  "os_Unsetenv k = State (\<lambda>w. ((), w\<lparr>environ := filter (\<lambda>(k', _). k' \<noteq> k) (environ w)\<rparr>))"

definition os_Environ :: "string list io" where
  "os_Environ = State (\<lambda>w. (map (\<lambda>(k, v). k @ ''='' @ v) (environ w), w))"

definition sys_Sethostname :: "string \<Rightarrow> unit result io" where
  "sys_Sethostname h = sysc ''sethostname'' h (\<lambda>w.
     if length h > 64 then Inl EINVAL
     else Inr ((), w\<lparr>nodename := h, trace := trace w @ [EvSetHostname h]\<rparr>))"

definition os_Hostname :: "string result io" where
  "os_Hostname = sysc ''uname'' [] (\<lambda>w. Inr (nodename w, w))"

text \<open>\<^verbatim>\<open>http.Get\<close>: the status code, and the body as far as reading it succeeds.\<close>

definition http_Get :: "string \<Rightarrow> (nat \<times> bytes result) result io" where
  "http_Get url = State (\<lambda>w. (net w (clock w) url, tick w))"

text \<open>One \<^verbatim>\<open>read(2)\<close> of at most \<open>n\<close> bytes on standard input: the terminal's next line, or whatever
  chunk a pipe holds; the rest of a longer chunk stays. An empty chunk is the end of input a
  terminal signals once; without chunks the input has ended.\<close>

definition stdin_read :: "nat \<Rightarrow> world \<Rightarrow> bytes result \<times> world" where
  "stdin_read n w =
     (case stdin w of
        [] \<Rightarrow> (Inl IOEOF, w)
      | c # cs \<Rightarrow>
          if c = [] then (Inl IOEOF, w\<lparr>stdin := cs\<rparr>)
          else (Inr (take n c), w\<lparr>stdin := (if length c \<le> n then cs else drop n c # cs)\<rparr>))"

definition stdin_size :: "world \<Rightarrow> nat" where
  "stdin_size w = sum_list (map (\<lambda>c. Suc (length c)) (stdin w))"

lemma stdin_read_size: "stdin_read n w = (Inr c, w') \<Longrightarrow> 0 < n \<Longrightarrow> stdin_size w' < stdin_size w"
  by (auto simp: stdin_read_def stdin_size_def split: list.splits if_splits)

subsection \<open>The process\<close>

definition os_Getuid :: "int io" where
  "os_Getuid = State (\<lambda>w. (proc_uid w, w))"

definition os_Getpid :: "int io" where
  "os_Getpid = State (\<lambda>w. (proc_pid w, w))"

definition os_Args :: "string list io" where
  "os_Args = State (\<lambda>w. (proc_args w, w))"

definition os_Chdir :: "string \<Rightarrow> unit result io" where
  "os_Chdir s = at_path ''chdir'' s True (\<lambda>p n w.
     case n of
       None \<Rightarrow> Inl ENOENT
     | Some n \<Rightarrow> if is_dir n then Inr ((), w\<lparr>cwd := p\<rparr>) else Inl ENOTDIR)"

text \<open>\<^verbatim>\<open>syscall.Exec\<close> replaces the program: when it succeeds it does not return. The event is the
  last of the program; the value is the result for the code after the call, an error or
  nothing at all.\<close>

definition syscall_Exec :: "command \<Rightarrow> unit result io" where
  "syscall_Exec c = sysc ''execve'' (c_path c) (\<lambda>w.
     Inr ((), w\<lparr>trace := trace w @ [EvReplace c]\<rparr>))"

definition unix_Sync :: "unit io" where
  "unix_Sync = emit EvSync"

definition exec_LookPath :: "string \<Rightarrow> unit result io" where
  "exec_LookPath s = sysc ''lookpath'' s (\<lambda>w. Inr ((), w))"

subsection \<open>Locks\<close>

text \<open>\<^verbatim>\<open>flock\<close> without waiting: that another process holds the lock is a failure of the schedule.\<close>

definition unix_Flock_ex_nb :: "path \<Rightarrow> unit result io" where
  "unix_Flock_ex_nb h = sysc ''flock'' (abs_string h) (\<lambda>w.
     Inr ((), w\<lparr>trace := trace w @ [EvLock (abs_string h)]\<rparr>))"

definition unix_Flock_un :: "path \<Rightarrow> unit result io" where
  "unix_Flock_un h = sysc ''flock'' (abs_string h) (\<lambda>w.
     Inr ((), w\<lparr>trace := trace w @ [EvUnlock (abs_string h)]\<rparr>))"

subsection \<open>Device files\<close>

text \<open>\<^verbatim>\<open>mknod(2)\<close>: the type bits of the mode choose the kind of file; none of them means a regular
  file; any other pattern is \<^verbatim>\<open>EINVAL\<close>. The sticky bit and the set-id bits are kept.\<close>

definition mknod_node :: "mode \<Rightarrow> int \<Rightarrow> meta \<Rightarrow> node option" where
  "mknod_node mo dev m =
     (let t = mo AND S_IFMT
      in if t = S_IFREG \<or> t = 0 then Some (Reg m [])
         else if t = S_IFCHR then Some (Chr m dev)
         else if t = S_IFBLK then Some (Blk m dev)
         else if t = S_IFIFO then Some (Fifo m)
         else if t = S_IFSOCK then Some (Sock m)
         else None)"

definition unix_Mknod :: "string \<Rightarrow> mode \<Rightarrow> int \<Rightarrow> unit result io" where
  "unix_Mknod s mo dev = at_path ''mknod'' s False (\<lambda>p n w.
     case n of
       Some _ \<Rightarrow> Inl EEXIST
     | None \<Rightarrow> (case mknod_node mo dev (new_meta w (mo AND 0xFFF)) of
           None \<Rightarrow> Inl EINVAL
         | Some x \<Rightarrow> Inr ((), w\<lparr>files := fs_set p x (files w)\<rparr>)))"

definition unix_Mkfifo :: "string \<Rightarrow> mode \<Rightarrow> unit result io" where
  "unix_Mkfifo s mo = unix_Mknod s (mo OR S_IFIFO) 0"

subsection \<open>Mounts\<close>

type_synonym mflags = "64 word"

definition MS_RDONLY :: mflags where "MS_RDONLY = 0x1"
definition MS_NOSUID :: mflags where "MS_NOSUID = 0x2"
definition MS_NODEV :: mflags where "MS_NODEV = 0x4"
definition MS_NOEXEC :: mflags where "MS_NOEXEC = 0x8"
definition MS_REMOUNT :: mflags where "MS_REMOUNT = 0x20"
definition MS_BIND :: mflags where "MS_BIND = 0x1000"
definition MS_MOVE :: mflags where "MS_MOVE = 0x2000"
definition MS_REC :: mflags where "MS_REC = 0x4000"
definition MS_PRIVATE :: mflags where "MS_PRIVATE = 0x40000"
definition MS_SHARED :: mflags where "MS_SHARED = 0x100000"
definition MS_RELATIME :: mflags where "MS_RELATIME = 0x200000"

lemmas MS_defs = MS_RDONLY_def MS_NOSUID_def MS_NODEV_def MS_NOEXEC_def MS_REMOUNT_def MS_BIND_def
  MS_MOVE_def MS_REC_def MS_PRIVATE_def MS_SHARED_def MS_RELATIME_def

text \<open>\<^verbatim>\<open>mount(2)\<close>. Changing the flags or the propagation of a mount leaves the tree as it is; any
  other mount shows the tree \<open>mount_view\<close> gives. The target must exist.\<close>

definition unix_Mount :: "string \<Rightarrow> string \<Rightarrow> string \<Rightarrow> mflags \<Rightarrow> string \<Rightarrow> unit result io" where
  "unix_Mount source target fstype flags data = at_path ''mount'' target True (\<lambda>p n w.
     case n of
       None \<Rightarrow> Inl ENOENT
     | Some _ \<Rightarrow>
         (let ev = EvMount source target fstype flags data;
              w1 = w\<lparr>trace := trace w @ [ev]\<rparr>
          in if flags AND (MS_REMOUNT OR MS_PRIVATE OR MS_SHARED) \<noteq> 0 then Inr ((), w1)
             else Inr ((), w1\<lparr>mounts := mounts w @ [abs_string p], files := mount_view w (clock w) ev (files w)\<rparr>)))"

definition unix_Chroot :: "string \<Rightarrow> unit result io" where
  "unix_Chroot s = at_path ''chroot'' s True (\<lambda>p n w.
     case n of
       Some (Dir _) \<Rightarrow> Inr ((), w\<lparr>trace := trace w @ [EvChroot s],
                                files := mount_view w (clock w) (EvChroot s) (files w)\<rparr>)
     | _ \<Rightarrow> Inl ENOTDIR)"

definition syscall_PivotRoot :: "string \<Rightarrow> string \<Rightarrow> unit result io" where
  "syscall_PivotRoot new old = at_path ''pivot_root'' new True (\<lambda>p n w.
     case n of
       Some (Dir _) \<Rightarrow> Inr ((), w\<lparr>trace := trace w @ [EvPivotRoot new old],
                                files := mount_view w (clock w) (EvPivotRoot new old) (files w)\<rparr>)
     | _ \<Rightarrow> Inl ENOTDIR)"

text \<open>The table the kernel shows in \<^verbatim>\<open>/proc/self/mountinfo\<close>: absolute mount points.\<close>

definition mount_Mounted :: "string \<Rightarrow> bool result io" where
  "mount_Mounted target = sysc ''mountinfo'' target (\<lambda>w. Inr (target \<in> set (mounts w), w))"

definition mount_flag_table :: "(string \<times> bool \<times> mflags) list" where
  "mount_flag_table =
     [(''defaults'', False, 0), (''ro'', False, 1), (''rw'', True, 1), (''suid'', True, 2),
      (''nosuid'', False, 2), (''dev'', True, 4), (''nodev'', False, 4), (''exec'', True, 8),
      (''noexec'', False, 8), (''sync'', False, 16), (''async'', True, 16), (''dirsync'', False, 128),
      (''remount'', False, 32), (''mand'', False, 64), (''nomand'', True, 64), (''atime'', True, 1024),
      (''noatime'', False, 1024), (''diratime'', True, 2048), (''nodiratime'', False, 2048),
      (''bind'', False, 4096), (''rbind'', False, 0x5000), (''unbindable'', False, 0x20000),
      (''runbindable'', False, 0x24000), (''private'', False, 0x40000), (''rprivate'', False, 0x44000),
      (''shared'', False, 0x100000), (''rshared'', False, 0x104000), (''slave'', False, 0x80000),
      (''rslave'', False, 0x84000), (''relatime'', False, 0x200000), (''norelatime'', True, 0x200000),
      (''strictatime'', False, 0x1000000), (''nostrictatime'', True, 0x1000000)]"

fun parse_mount_opts :: "string list \<Rightarrow> mflags \<Rightarrow> string list \<Rightarrow> mflags \<times> string" where
  "parse_mount_opts [] flag data = (flag, Join data '','')"
| "parse_mount_opts (opt # opts) flag data =
     (case map_of mount_flag_table opt of
        Some (clear, f) \<Rightarrow>
          if f \<noteq> 0 then parse_mount_opts opts (if clear then flag AND NOT f else flag OR f) data
          else parse_mount_opts opts flag (data @ [opt])
      | None \<Rightarrow> parse_mount_opts opts flag (data @ [opt]))"

definition mount_parseOptions :: "string \<Rightarrow> mflags \<times> string" where
  "mount_parseOptions options = parse_mount_opts (Split options CHR '','') 0 []"

definition mount_ForceMount :: "string \<Rightarrow> string \<Rightarrow> string \<Rightarrow> string \<Rightarrow> unit result io" where
  "mount_ForceMount device target mType options =
     (case mount_parseOptions options of (flag, data) \<Rightarrow>
        check (unix_Mount device target mType flag data) (\<lambda>_.
          if flag AND MS_BIND = MS_BIND \<and> flag AND MS_RDONLY = MS_RDONLY
          then unix_Mount device target mType (flag OR MS_REMOUNT) data
          else ok ()))"

definition mount_Mount :: "string \<Rightarrow> string \<Rightarrow> string \<Rightarrow> string \<Rightarrow> unit result io" where
  "mount_Mount device target mType options =
     (if fst (mount_parseOptions options) AND MS_REMOUNT \<noteq> MS_REMOUNT
      then check (mount_Mounted target) (\<lambda>m.
             if m then ok () else mount_ForceMount device target mType options)
      else mount_ForceMount device target mType options)"

end
