(* ===== verification/OSLemmas.thy ===== *)
theory OSLemmas
  imports Syscalls
begin

text \<open>
  The facts about the operating-system model in which the components are verified: lookups
  after each change of the file system, path resolution below real directories, and the
  weakest preconditions of the calls under an arbitrary fault schedule (the \<open>_any\<close> rules:
  one case for a failing call, one for its effect) and under a calm one.
\<close>

subsection \<open>Lookups\<close>

lemma look_set [simp]: "look (fs_set p n fs) q = (if q = p then Some n else look fs q)"
  by (simp add: fs_set_def)

lemma look_filter: "look (filter (\<lambda>(q, _). P q) fs) p = (if P p then look fs p else None)"
  by (induction fs) auto

lemma look_del [simp]: "look (fs_del p fs) q = (if q = p then None else look fs q)"
  by (simp add: fs_del_def look_filter [of "\<lambda>q. q \<noteq> p"])

lemma look_relocate:
  assumes "\<forall>x \<in> set fs. prefix old (fst x)"
  shows "look (map (\<lambda>(q, n). (new @ drop (length old) q, n)) fs) p =
     (if prefix new p then look fs (old @ drop (length new) p) else None)"
  using assms
proof (induction fs)
  case (Cons x fs)
  obtain q n where x: "x = (q, n)" by (cases x)
  with Cons.prems obtain r where r: "q = old @ r" by (auto simp: prefix_def)
  have "new @ r = p \<longleftrightarrow> prefix new p \<and> old @ drop (length new) p = old @ r"
    by (auto simp: prefix_def)
  with Cons show ?case by (auto simp: x r)
qed simp

lemma look_move:
  "look (fs_move old new fs) p =
     (if prefix new p then look fs (old @ drop (length new) p)
      else if prefix old p then None else look fs p)"
proof -
  let ?m = "map (\<lambda>(q, n). (new @ drop (length old) q, n)) (filter (\<lambda>(q, _). prefix old q) fs)"
  have m: "look ?m p = (if prefix new p then look fs (old @ drop (length new) p) else None)"
    by (subst look_relocate) (auto simp: look_filter [of "prefix old"])
  have r: "look (filter (\<lambda>(q, _). \<not> prefix old q \<and> \<not> prefix new q) fs) p
      = (if \<not> prefix old p \<and> \<not> prefix new p then look fs p else None)"
    by (simp add: look_filter [of "\<lambda>q. \<not> prefix old q \<and> \<not> prefix new q"])
  show ?thesis by (auto simp: fs_move_def map_add_def m r split: option.split)
qed

lemma append_reg_Reg [simp]: "append_reg d (Reg m c) = Reg m (c @ d)"
  by (simp add: append_reg_def)

lemma chmod_meta_perm [simp]: "m_perm (chmod_meta k m) = k"
  by (simp add: chmod_meta_def)

lemma look_append [simp]:
  "look (fs_append p d fs) q = (if q = p then map_option (append_reg d) (look fs p) else look fs q)"
  by (simp add: fs_append_def split: option.split)

lemma look_some_name: "look fs (d @ [c]) = Some n \<Longrightarrow> plain_name c \<Longrightarrow> c \<in> set (fs_names fs d)"
  by (force simp: fs_names_def dest: map_of_SomeD)

lemma fs_names_look: "c \<in> set (fs_names fs d) \<Longrightarrow> plain_name c \<and> look fs (d @ [c]) \<noteq> None"
  by (auto simp: fs_names_def map_of_eq_None_iff image_iff) (metis append_butlast_last_id fst_conv)

lemma fs_names_iff: "c \<in> set (fs_names fs d) \<longleftrightarrow> plain_name c \<and> look fs (d @ [c]) \<noteq> None"
  using fs_names_look look_some_name by fast

lemma fs_names_sorted [simp]: "sorted (fs_names fs d)" and fs_names_distinct [simp]: "distinct (fs_names fs d)"
  by (simp_all add: fs_names_def)

lemma fs_names_cong:
  assumes "\<And>c. plain_name c \<Longrightarrow> look fs (d @ [c]) = None \<longleftrightarrow> look fs' (d' @ [c]) = None"
  shows "fs_names fs d = fs_names fs' d'"
proof (rule sorted_distinct_set_unique)
  have "c \<in> set (fs_names fs d) \<longleftrightarrow> c \<in> set (fs_names fs' d')" for c
    using assms [of c] by (auto simp: fs_names_iff)
  then show "set (fs_names fs d) = set (fs_names fs' d')" by blast
qed simp_all

subsection \<open>The clock\<close>

lemma tick_simps [simp]:
  "files (tick w) = files w" "cwd (tick w) = cwd w" "umask (tick w) = umask w"
  "environ (tick w) = environ w" "nodename (tick w) = nodename w" "stdin (tick w) = stdin w"
  "trace (tick w) = trace w" "fault (tick w) = fault w" "progs (tick w) = progs w"
  "net (tick w) = net w" "rnd (tick w) = rnd w" "clock (tick w) = Suc (clock w)"
  "proc_uid (tick w) = proc_uid w" "proc_pid (tick w) = proc_pid w" "proc_args (tick w) = proc_args w"
  "stdin_tty (tick w) = stdin_tty w" "stdout_tty (tick w) = stdout_tty w"
  "mounts (tick w) = mounts w" "mount_view (tick w) = mount_view w"
  by (simp_all add: tick_def)

lemma resolve_cong:
  "files w' = files w \<Longrightarrow> cwd w' = cwd w \<Longrightarrow> resolve f w' s = resolve f w s"
  by (simp add: resolve_def)

lemma resolve_tick [simp]: "resolve f (tick w) s = resolve f w s"
  by (rule resolve_cong) simp_all

lemma calm_cong: "fault w' = fault w \<Longrightarrow> calm w' = calm w"
  by (simp add: calm_def)

lemma calm_tick [simp]: "calm (tick w) = calm w"
  by (simp add: calm_def)

lemma calm_files [simp]: "calm (w\<lparr>files := x\<rparr>) = calm w"
  by (simp add: calm_def)

lemma calm_fault [simp]: "calm w \<Longrightarrow> fault w n = None"
  by (simp add: calm_def)

subsection \<open>Mode bits\<close>

lemma bit_flag: "bit (push_bit j 1 :: mode) k \<longleftrightarrow> k = j \<and> j < 32"
  by (auto simp: bit_exp_iff)
lemma and_flag: "j < 32 \<Longrightarrow> (m::mode) AND push_bit j 1 \<noteq> 0 \<longleftrightarrow> bit m j"
proof -
  assume "j < 32"
  have "m AND push_bit j 1 = 0 \<longleftrightarrow> (\<forall>k < 32. \<not> (bit m k \<and> k = j))"
    by (simp only: bit_eq_iff bit_and_iff bit_flag bit_0_eq) (use \<open>j < 32\<close> in auto)
  then show ?thesis using \<open>j < 32\<close> by auto
qed

lemma bit_modes:
  "bit ModeDir k = (k = 31)" "bit ModeSymlink k = (k = 27)" "bit ModeDevice k = (k = 26)"
  "bit ModeNamedPipe k = (k = 25)" "bit ModeSocket k = (k = 24)" "bit ModeSetuid k = (k = 23)"
  "bit ModeSetgid k = (k = 22)" "bit ModeCharDevice k = (k = 21)" "bit ModeSticky k = (k = 20)"
  unfolding ModeDir_def ModeSymlink_def ModeDevice_def ModeNamedPipe_def ModeSocket_def
    ModeSetuid_def ModeSetgid_def ModeCharDevice_def ModeSticky_def bit_flag by auto

lemma bit_ModePerm: "bit ModePerm k = (k < 9)"
proof -
  have e: "ModePerm = mask 9" by (simp add: ModePerm_def mask_eq_exp_minus_1)
  show ?thesis unfolding e bit_mask_iff possible_bit_word by auto
qed
lemma bit_go_mode:
  "23 < k \<Longrightarrow> bit (go_mode n) k = bit (type_bits n) k"
  by (simp add: go_mode_def Let_def bit_or_iff bit_and_iff bit_ModePerm bit_modes)

lemma and_ModeDir: "m AND ModeDir \<noteq> 0 \<longleftrightarrow> bit m 31" and and_ModeSymlink: "m AND ModeSymlink \<noteq> 0 \<longleftrightarrow> bit m 27"
  unfolding ModeDir_def ModeSymlink_def by (simp_all only: and_flag)

lemma fi_IsDir_iff: "fi_IsDir i \<longleftrightarrow> is_dir (fi_node i)"
  and fi_Mode_symlink: "fi_Mode i AND ModeSymlink \<noteq> 0 \<longleftrightarrow> is_lnk (fi_node i)"
  unfolding fi_IsDir_def fi_Mode_def and_ModeDir and_ModeSymlink
  by (cases "fi_node i"; simp add: bit_go_mode bit_or_iff bit_modes)+
lemma is_dir_iff: "is_dir n \<longleftrightarrow> (\<exists>m. n = Dir m)" by (cases n) auto

lemma S_flags: "S_ISUID = push_bit 11 1" "S_ISGID = push_bit 10 1" "S_ISVTX = push_bit 9 1"
  by (simp_all add: S_ISUID_def S_ISGID_def S_ISVTX_def push_bit_eq_mult)

lemma bit_S: "bit S_ISUID k = (k = 11)" "bit S_ISGID k = (k = 10)" "bit S_ISVTX k = (k = 9)"
  unfolding S_flags bit_flag by auto

lemma and_flags:
  "m AND ModeSetuid \<noteq> 0 \<longleftrightarrow> bit m 23" "m AND ModeSetgid \<noteq> 0 \<longleftrightarrow> bit m 22" "m AND ModeSticky \<noteq> 0 \<longleftrightarrow> bit m 20"
  "m AND S_ISUID \<noteq> 0 \<longleftrightarrow> bit m 11" "m AND S_ISGID \<noteq> 0 \<longleftrightarrow> bit m 10" "m AND S_ISVTX \<noteq> 0 \<longleftrightarrow> bit m 9"
  unfolding ModeSetuid_def ModeSetgid_def ModeSticky_def S_flags by (simp_all only: and_flag)

lemma bit_syscallMode:
  "bit (syscallMode m) k \<longleftrightarrow> k < 9 \<and> bit m k \<or> k = 9 \<and> bit m 20 \<or> k = 10 \<and> bit m 22 \<or> k = 11 \<and> bit m 23"
  unfolding syscallMode_def and_flags by (auto simp: bit_or_iff bit_and_iff bit_ModePerm bit_S)

text \<open>The twelve bits of a mode go through a \<^verbatim>\<open>FileMode\<close> and back.\<close>

lemma syscallMode_go_mode: "syscallMode (go_mode n) = m_perm (node_meta n) AND 0xFFF"
proof -
  have e: "(0xFFF :: mode) = mask 12" by (simp add: mask_eq_exp_minus_1)
  have t: "k < 24 \<Longrightarrow> bit (type_bits n) k \<Longrightarrow> k = 21" for k
    by (cases n) (auto simp: bit_or_iff bit_modes)
  have b: "bit (go_mode n) k \<longleftrightarrow> (let p = m_perm (node_meta n) in k < 9 \<and> bit p k \<or> k = 20 \<and> bit p 9 \<or> k = 22 \<and> bit p 10 \<or> k = 23 \<and> bit p 11)"
    if "k < 24" "k \<noteq> 21" for k
    using that t [of k] unfolding go_mode_def Let_def and_flags
    by (auto simp: bit_or_iff bit_and_iff bit_ModePerm bit_modes)
  have m: "bit (mask 12 :: mode) k \<longleftrightarrow> k < 9 \<or> k = 9 \<or> k = 10 \<or> k = 11" for k
    by (simp add: bit_mask_iff possible_bit_word) linarith
  have "bit (syscallMode (go_mode n)) k = bit (m_perm (node_meta n) AND mask 12) k" for k
    unfolding bit_and_iff m bit_syscallMode by (auto simp: b Let_def)
  then show ?thesis unfolding e by (intro bit_eqI)
qed

subsection \<open>Resolution below real directories\<close>

definition dir_at :: "fsys \<Rightarrow> path \<Rightarrow> bool" where
  "dir_at fs p = (case look fs p of Some (Dir _) \<Rightarrow> True | _ \<Rightarrow> False)"

text \<open>Every prefix of the path is a directory, not a link: the string names the path itself.\<close>

definition real_dirs :: "fsys \<Rightarrow> path \<Rightarrow> bool" where
  "real_dirs fs d \<longleftrightarrow> list_all (dir_at fs) (prefixes d)"

lemma dir_at_iff: "dir_at fs p \<longleftrightarrow> (\<exists>m. look fs p = Some (Dir m))"
  by (auto simp: dir_at_def split: option.split node.split)

lemma real_dirs_iff: "real_dirs fs d \<longleftrightarrow> (\<forall>q. prefix q d \<longrightarrow> dir_at fs q)"
  by (auto simp: real_dirs_def list_all_iff)

lemma real_dirs_cong:
  "(\<And>q. prefix q d \<Longrightarrow> dir_at fs q = dir_at fs' q) \<Longrightarrow> real_dirs fs d = real_dirs fs' d"
  by (simp add: real_dirs_iff)

lemma real_dirs_self: "real_dirs fs d \<Longrightarrow> dir_at fs d"
  by (simp add: real_dirs_iff)

lemma real_dirs_snoc: "real_dirs fs (d @ [c]) \<longleftrightarrow> real_dirs fs d \<and> dir_at fs (d @ [c])"
  by (auto simp: real_dirs_iff)

lemma real_dirs_prefix: "real_dirs fs d \<Longrightarrow> prefix q d \<Longrightarrow> real_dirs fs q"
  by (auto simp: real_dirs_iff)

lemma real_dirs_outside:
  "(\<And>q. prefix q d \<Longrightarrow> look fs' q = look fs q) \<Longrightarrow> real_dirs fs d \<Longrightarrow> real_dirs fs' d"
  by (simp add: real_dirs_iff dir_at_def)

lemma namei_dirs:
  "list_all plain_name cs \<Longrightarrow> \<forall>q. prefix q cs \<longrightarrow> dir_at fs (dir @ q) \<Longrightarrow>
     namei n f fs dir (cs @ ds) = namei n f fs (dir @ cs) ds"
proof (induction cs arbitrary: dir)
  case (Cons c cs)
  have "dir_at fs dir" "dir_at fs (dir @ [c])"
    using Cons.prems(2) [rule_format, of "[]"] Cons.prems(2) [rule_format, of "[c]"] by auto
  then obtain m m' where "look fs dir = Some (Dir m)" "look fs (dir @ [c]) = Some (Dir m')"
    by (auto simp: dir_at_iff)
  moreover have "\<forall>q. prefix q cs \<longrightarrow> dir_at fs ((dir @ [c]) @ q)"
    using Cons.prems(2) by (auto simp: prefix_Cons dest: spec [of _ "c # _"])
  ultimately show ?case
    using Cons.prems(1) Cons.IH [of "dir @ [c]"] by (simp add: plain_name_def)
qed simp

lemma namei_real:
  "real_dirs fs d \<Longrightarrow> list_all plain_name d \<Longrightarrow> namei n f fs [] (d @ ds) = namei n f fs d ds"
  using namei_dirs [of d fs "[]" n f ds] by (simp add: real_dirs_iff)

lemma resolve_abs_string:
  "list_all plain_name p \<Longrightarrow> resolve f w (abs_string p) = namei 40 f (files w) [] p"
  using comps_abs_string [of p] is_abs_abs_string [of p]
  by (simp add: resolve_def del: comps_abs_string is_abs_abs_string) (simp add: abs_string_def)

lemma resolve_real_dir:
  "real_dirs (files w) d \<Longrightarrow> list_all plain_name d \<Longrightarrow> resolve f w (abs_string d) = Inr d"
  using namei_real [of "files w" d 40 f "[]"] by (simp add: resolve_abs_string)

lemma resolve_below:
  assumes "real_dirs (files w) d" "list_all plain_name d" "plain_name c"
  shows "resolve f w (abs_string (d @ [c])) =
     (case look (files w) (d @ [c]) of
        Some (Lnk _ t) \<Rightarrow>
          if f then namei 39 f (files w) (if is_abs t then [] else d) (comps t) else Inr (d @ [c])
      | _ \<Rightarrow> Inr (d @ [c]))"
proof -
  have "resolve f w (abs_string (d @ [c])) = namei 40 f (files w) [] (d @ [c])"
    using assms by (simp add: resolve_abs_string)
  also have "\<dots> = namei 40 f (files w) d [c]"
    by (rule namei_real) (use assms in auto)
  finally show ?thesis
    using assms real_dirs_self [OF assms(1)]
    by (auto simp: dir_at_iff plain_name_def eval_nat_numeral split: option.split node.split)
qed

lemma resolve_nofollow:
  "real_dirs (files w) d \<Longrightarrow> list_all plain_name d \<Longrightarrow> plain_name c \<Longrightarrow>
     resolve False w (abs_string (d @ [c])) = Inr (d @ [c])"
  by (simp add: resolve_below split: option.split node.split)

lemma resolve_notlink:
  "real_dirs (files w) d \<Longrightarrow> list_all plain_name d \<Longrightarrow> plain_name c \<Longrightarrow>
     \<forall>m t. look (files w) (d @ [c]) \<noteq> Some (Lnk m t) \<Longrightarrow>
     resolve f w (abs_string (d @ [c])) = Inr (d @ [c])"
  by (simp add: resolve_below split: option.split node.split)

text \<open>A link to a name in its own directory that is not a link itself.\<close>

lemma resolve_link:
  assumes "real_dirs (files w) d" "list_all plain_name d" "plain_name c" "plain_name v"
    and "look (files w) (d @ [c]) = Some (Lnk m v)"
    and "\<forall>m t. look (files w) (d @ [v]) \<noteq> Some (Lnk m t)"
  shows "resolve True w (abs_string (d @ [c])) = Inr (d @ [v])"
proof -
  have "\<not> is_abs v" using assms(4) by (auto simp: is_abs_iff plain_name_def)
  with assms real_dirs_self [OF assms(1)] show ?thesis
    by (auto simp: resolve_below comps_plain dir_at_iff plain_name_def split: option.split node.split)
qed

subsection \<open>Weakest preconditions of the calls\<close>

lemma wp_sysc:
  "wp (sysc op s f) Q w =
     (case fault w (clock w) of
        Some (n, _) \<Rightarrow> Q (Inl (Sys op s (EFault n))) (tick w)
      | None \<Rightarrow> (case f (tick w) of
            Inl e \<Rightarrow> Q (Inl (Sys op s e)) (tick w) | Inr (a, w') \<Rightarrow> Q (Inr a) w'))"
  by (auto simp: wp_def sysc_def split: option.split sum.split)

lemma wp_sysc_any:
  assumes "\<And>n. Q (Inl (Sys op s (EFault n))) (tick w)"
    and "\<And>e. f (tick w) = Inl e \<Longrightarrow> Q (Inl (Sys op s e)) (tick w)"
    and "\<And>a w'. f (tick w) = Inr (a, w') \<Longrightarrow> Q (Inr a) w'"
  shows "wp (sysc op s f) Q w"
  using assms by (auto simp: wp_sysc split: option.split sum.split)

lemma wp_at_path_any:
  assumes "\<And>n. Q (Inl (Sys op s (EFault n))) (tick w)"
    and "\<And>e. resolve follow w s = Inl e \<Longrightarrow> Q (Inl (Sys op s e)) (tick w)"
    and "\<And>p. resolve follow w s = Inr p \<Longrightarrow>
          (case f p (look (files w) p) (tick w) of
             Inl e \<Rightarrow> Q (Inl (Sys op s e)) (tick w) | Inr (a, w') \<Rightarrow> Q (Inr a) w')"
  shows "wp (at_path op s follow f) Q w"
  using assms unfolding at_path_def
  by (intro wp_sysc_any) (auto split: sum.splits)

lemma wp_at_path_res:
  assumes "resolve follow w s = Inr p"
    and "\<And>n. Q (Inl (Sys op s (EFault n))) (tick w)"
    and "case f p (look (files w) p) (tick w) of
           Inl e \<Rightarrow> Q (Inl (Sys op s e)) (tick w) | Inr (a, w') \<Rightarrow> Q (Inr a) w'"
  shows "wp (at_path op s follow f) Q w"
  using assms by (intro wp_at_path_any) auto

lemma wp_at_path_calm:
  assumes "resolve follow w s = Inr p" and "calm w"
    and "case f p (look (files w) p) (tick w) of
           Inl e \<Rightarrow> Q (Inl (Sys op s e)) (tick w) | Inr (a, w') \<Rightarrow> Q (Inr a) w'"
  shows "wp (at_path op s follow f) Q w"
  using assms by (auto simp: at_path_def wp_sysc split: sum.splits)

lemma wp_at_path_fair:
  assumes "resolve follow w s = Inr p"
    and "\<And>n. \<not> calm w \<Longrightarrow> Q (Inl (Sys op s (EFault n))) (tick w)"
    and "case f p (look (files w) p) (tick w) of
           Inl e \<Rightarrow> Q (Inl (Sys op s e)) (tick w) | Inr (a, w') \<Rightarrow> Q (Inr a) w'"
  shows "wp (at_path op s follow f) Q w"
proof (cases "calm w")
  case True
  show ?thesis by (rule wp_at_path_calm [OF assms(1) True]) (rule assms(3))
next
  case False
  show ?thesis by (rule wp_at_path_res [OF assms(1)]) (use assms(2,3) False in auto)
qed

text \<open>A call under which the file system does not change.\<close>

definition same_files :: "world \<Rightarrow> world \<Rightarrow> bool" where
  "same_files w w' \<longleftrightarrow> files w' = files w \<and> cwd w' = cwd w"

lemma same_files_refl [simp]: "same_files w w" "same_files w (tick w)"
  by (simp_all add: same_files_def)

text \<open>Emitting an event and the environment calls.\<close>

lemma wp_emit [simp]: "wp (emit ev) Q w = Q () (w\<lparr>trace := trace w @ [ev]\<rparr>)"
  by (simp add: wp_def emit_def)

lemma wp_Write:
  "wp (fd_Write h d) Q w =
     (case fault w (clock w) of
        Some (n, k) \<Rightarrow> Q (Inl (Sys ''write'' (abs_string h) (EFault n)))
                          ((tick w)\<lparr>files := fs_append h (take k d) (files w)\<rparr>)
      | None \<Rightarrow> Q (Inr ()) ((tick w)\<lparr>files := fs_append h d (files w)\<rparr>))"
  by (auto simp: wp_def fd_Write_def split: option.split)

lemma wp_Close:
  "wp (fd_Close h) Q w =
     (case fault w (clock w) of
        Some (n, _) \<Rightarrow> Q (Inl (Sys ''close'' (abs_string h) (EFault n))) (tick w)
      | None \<Rightarrow> Q (Inr ()) (tick w))"
  by (auto simp: fd_Close_def wp_sysc split: option.split)

end
