(* ===== verification/OSFrame.thy ===== *)
theory OSFrame
  imports OSLemmas
begin

text \<open>
  Frame reasoning: what a call leaves alone under every fault schedule. \<open>same_env\<close> says that
  only the file system, the clock and the log moved; \<open>changes_below ps\<close> that the file system
  differs at most at and below the paths \<open>ps\<close>. Each rule describes a call by its possible
  results, an error that changed nothing and the effect.
\<close>

subsection \<open>The environment\<close>

text \<open>What two worlds share when only the file system, the clock and the log moved on.\<close>

definition same_env :: "world \<Rightarrow> world \<Rightarrow> bool" where
  "same_env w w' \<longleftrightarrow> cwd w' = cwd w \<and> umask w' = umask w \<and> environ w' = environ w \<and>
     nodename w' = nodename w \<and> stdin w' = stdin w \<and> fault w' = fault w \<and> progs w' = progs w \<and>
     net w' = net w \<and> rnd w' = rnd w"

lemma same_envD:
  assumes "same_env w w'"
  shows "cwd w' = cwd w" "umask w' = umask w" "environ w' = environ w" "nodename w' = nodename w"
    "stdin w' = stdin w" "fault w' = fault w" "progs w' = progs w" "net w' = net w" "rnd w' = rnd w"
  using assms by (auto simp: same_env_def)

lemma same_env_simps [simp]:
  "same_env w w" "same_env w (tick w') = same_env w w'" "same_env (tick w) w' = same_env w w'"
  "same_env w (w'\<lparr>files := x\<rparr>) = same_env w w'" "same_env (w\<lparr>files := x\<rparr>) w' = same_env w w'"
  "same_env w (w'\<lparr>trace := y\<rparr>) = same_env w w'" "same_env (w\<lparr>trace := y\<rparr>) w' = same_env w w'"
  by (auto simp: same_env_def)

lemma same_env_trans: "same_env w w' \<Longrightarrow> same_env w' w'' \<Longrightarrow> same_env w w''"
  by (simp add: same_env_def)

lemma same_env_calm: "same_env w w' \<Longrightarrow> calm w' = calm w"
  by (rule calm_cong) (rule same_envD)

subsection \<open>Changes below given paths\<close>

definition changes_below :: "path list \<Rightarrow> fsys \<Rightarrow> fsys \<Rightarrow> bool" where
  "changes_below ps fs fs' \<longleftrightarrow> (\<forall>q. (\<forall>p \<in> set ps. \<not> prefix p q) \<longrightarrow> look fs' q = look fs q)"

lemma changes_below_refl [simp]: "changes_below ps fs fs"
  by (simp add: changes_below_def)

lemma changes_below_trans:
  "changes_below ps fs fs' \<Longrightarrow> changes_below ps fs' fs'' \<Longrightarrow> changes_below ps fs fs''"
  by (simp add: changes_below_def)

lemma changes_below_mono:
  "changes_below ps fs fs' \<Longrightarrow> (\<And>p. p \<in> set ps \<Longrightarrow> \<exists>p' \<in> set ps'. prefix p' p) \<Longrightarrow> changes_below ps' fs fs'"
  by (auto simp: changes_below_def) (meson prefix_order.trans)

lemma changes_below_step:
  "changes_below ps fs fs' \<Longrightarrow> changes_below qs fs' fs'' \<Longrightarrow> set qs \<subseteq> set ps \<Longrightarrow> changes_below ps fs fs''"
  unfolding changes_below_def by (metis subsetD)

lemma changes_below_look:
  "changes_below ps fs fs' \<Longrightarrow> (\<forall>p \<in> set ps. \<not> prefix p q) \<Longrightarrow> look fs' q = look fs q"
  by (simp add: changes_below_def)

lemma changes_below_set [simp]:
  "(\<exists>p' \<in> set ps. prefix p' p) \<Longrightarrow> changes_below ps fs (fs_set p n fs') = changes_below ps fs fs'"
  by (auto simp: changes_below_def)

lemma changes_below_del [simp]:
  "(\<exists>p' \<in> set ps. prefix p' p) \<Longrightarrow> changes_below ps fs (fs_del p fs') = changes_below ps fs fs'"
  by (auto simp: changes_below_def)

lemma changes_below_append [simp]:
  "(\<exists>p' \<in> set ps. prefix p' p) \<Longrightarrow> changes_below ps fs (fs_append p d fs') = changes_below ps fs fs'"
  by (auto simp: changes_below_def)

lemma changes_below_move:
  "changes_below ps fs fs' \<Longrightarrow> \<exists>a \<in> set ps. prefix a p \<Longrightarrow> \<exists>a \<in> set ps. prefix a q \<Longrightarrow>
     changes_below ps fs (fs_move p q fs')"
  unfolding changes_below_def look_move by (metis prefix_order.trans)

lemma changes_below_real_dirs:
  "changes_below ps fs fs' \<Longrightarrow> \<forall>p \<in> set ps. \<not> prefix p d \<Longrightarrow> real_dirs fs d \<Longrightarrow> real_dirs fs' d"
  by (rule real_dirs_outside) (auto simp: changes_below_def intro: prefix_order.trans)

lemma not_prefix_snoc [simp]: "\<not> prefix (d @ [c]) d"
  using prefix_length_le [of "d @ [c]" d] by auto

lemma prefix_snoc_eq [simp]: "prefix (d @ [c]) (d @ [c']) \<longleftrightarrow> c = c'"
  by auto

text \<open>Paths of which neither lies below the other.\<close>

definition apart :: "path \<Rightarrow> path \<Rightarrow> bool" where
  "apart p q \<longleftrightarrow> \<not> prefix p q \<and> \<not> prefix q p"

lemma apart_below: "apart p q \<Longrightarrow> \<not> prefix (q @ s) (p @ r)"
  unfolding apart_def using prefix_same_cases [of q "p @ r" p] by (auto dest: append_prefixD)

lemma apart_children: "apart p q \<Longrightarrow> apart (p @ r) (q @ s)"
proof -
  assume a: "apart p q"
  then have "apart q p" by (simp add: apart_def)
  with a show ?thesis unfolding apart_def [of "p @ r"] by (simp add: apart_below)
qed

lemma apart_siblings: "c \<noteq> c' \<Longrightarrow> apart (p @ [c]) (p @ [c'])"
  by (simp add: apart_def)

subsection \<open>Temporary files\<close>

definition in_dir :: "path \<Rightarrow> string" where
  "in_dir d = (if d = [] then ''/'' else abs_string d @ ''/'')"

lemma in_dir_name: "in_dir d @ c = abs_string (d @ [c])"
  by (simp add: in_dir_def abs_string_snoc)

lemma PathSplit_in_dir: "plain_name c \<Longrightarrow> PathSplit (abs_string (d @ [c])) = (in_dir d, c)"
  by (simp add: PathSplit_abs_snoc in_dir_def)

lemma temp_join_in_dir: "temp_join (in_dir d) pre = in_dir d @ pre" and in_dir_nonempty [simp]: "in_dir d \<noteq> []"
  by (auto simp: temp_join_def in_dir_def HasSuffix_def)

lemma next_random_digits: "next_random w = digits_base 10 (nat (uint (rnd w (clock w))))"
  by (simp add: next_random_def Itoa_def)

lemma wp_temp_file_try:
  assumes "real_dirs (files w) d" "list_all plain_name d"
    and "SLASH \<notin> set pre" "SLASH \<notin> set suf"
    and "\<And>e w'. same_env w w' \<Longrightarrow> files w' = files w \<Longrightarrow> Q (Inl e) w'"
    and "\<And>n m w'. same_env w w' \<Longrightarrow> look (files w) (d @ [pre @ digits_base 10 n @ suf]) = None \<Longrightarrow>
          files w' = fs_set (d @ [pre @ digits_base 10 n @ suf]) (Reg m []) (files w) \<Longrightarrow>
          Q (Inr (abs_string (d @ [pre @ digits_base 10 n @ suf]), d @ [pre @ digits_base 10 n @ suf])) w'"
  shows "wp (temp_file_try k (in_dir d @ pre) suf) Q w"
  using assms
proof (induction k arbitrary: w)
  case 0
  then show ?case by simp
next
  case (Suc k)
  let ?n = "nat (uint (rnd w (clock w)))"
  let ?c = "pre @ digits_base 10 ?n @ suf"
  have plain: "plain_name ?c" using Suc.prems(3,4) by (intro digits_plain_name) auto
  have name: "(in_dir d @ pre) @ next_random w @ suf = abs_string (d @ [?c])"
    using in_dir_name [of d ?c] by (simp add: next_random_digits)
  have retry: "wp (temp_file_try k (in_dir d @ pre) suf) Q (tick w)"
    by (rule Suc.IH)
      (use Suc.prems in auto)
  have res: "resolve False w (abs_string (d @ [?c])) = Inr (d @ [?c])"
    by (rule resolve_nofollow) (use Suc.prems plain in auto)
  show ?case
    unfolding temp_file_try.simps wp_bind wp_get Let_def name os_OpenFile_def
    by (rule wp_at_path_res) (use res retry Suc.prems(5) Suc.prems(6) [of _ ?n] in
        \<open>auto simp: IsExist_def split: option.split\<close>)
qed

lemma temp_affixes_length:
  assumes "temp_affixes pat = (pre, suf)"
  shows "length pat \<le> length pre + length suf + 1" "set pre \<subseteq> set pat" "set suf \<subseteq> set pat"
proof -
  let ?suf = "rev (takeWhile (\<lambda>c. c \<noteq> CHR ''*'') (rev pat))"
  have "set ?suf \<subseteq> set pat" using set_takeWhileD by fastforce
  then show "set suf \<subseteq> set pat" using assms by (auto simp: temp_affixes_def Let_def split: if_splits)
  show "set pre \<subseteq> set pat"
    using assms by (auto simp: temp_affixes_def Let_def dest: in_set_takeD split: if_splits)
  have "length ?suf \<le> length pat" using length_takeWhile_le [of _ "rev pat"] by simp
  then show "length pat \<le> length pre + length suf + 1"
    using assms by (auto simp: temp_affixes_def Let_def split: if_splits)
qed

text \<open>A temporary file in a real directory: a fresh empty file, or an error and no change.\<close>

lemma wp_TempFile:
  assumes "real_dirs (files w) d" "list_all plain_name d" "SLASH \<notin> set pat"
    and "\<And>e w'. same_env w w' \<Longrightarrow> files w' = files w \<Longrightarrow> Q (Inl e) w'"
    and "\<And>t m w'. same_env w w' \<Longrightarrow> plain_name t \<Longrightarrow> length pat \<le> length t \<Longrightarrow>
          look (files w) (d @ [t]) = None \<Longrightarrow>
          files w' = fs_set (d @ [t]) (Reg m []) (files w) \<Longrightarrow> Q (Inr (abs_string (d @ [t]), d @ [t])) w'"
  shows "wp (ioutil_TempFile (in_dir d) pat) Q w"
proof -
  obtain pre suf where a: "temp_affixes pat = (pre, suf)" by fastforce
  note l = temp_affixes_length [OF a]
  then have s: "SLASH \<notin> set pre" "SLASH \<notin> set suf" using assms(3) by auto
  have "plain_name (pre @ digits_base 10 n @ suf)" for n using s by (intro digits_plain_name) auto
  moreover have "length pat \<le> length (pre @ digits_base 10 n @ suf)" for n
    using l(1) digits_base_nonempty [of 10 n] by (cases "digits_base 10 n") auto
  ultimately have "wp (temp_file_try 10000 (in_dir d @ pre) suf) Q w"
    using assms s by (intro wp_temp_file_try) auto
  then show ?thesis
    using assms(3) by (simp add: ioutil_TempFile_def a temp_join_in_dir)
qed

text \<open>A temporary directory likewise.\<close>

lemma wp_temp_dir_try:
  assumes "real_dirs (files w) d" "list_all plain_name d"
    and "SLASH \<notin> set pre" "SLASH \<notin> set suf"
    and "\<And>e w'. same_env w w' \<Longrightarrow> files w' = files w \<Longrightarrow>
          \<not> (calm w \<and> k \<noteq> 0 \<and> (\<forall>n. look (files w) (d @ [pre @ digits_base 10 n @ suf]) = None)) \<Longrightarrow> Q (Inl e) w'"
    and "\<And>n m w'. same_env w w' \<Longrightarrow> look (files w) (d @ [pre @ digits_base 10 n @ suf]) = None \<Longrightarrow>
          files w' = fs_set (d @ [pre @ digits_base 10 n @ suf]) (Dir m) (files w) \<Longrightarrow>
          Q (Inr (abs_string (d @ [pre @ digits_base 10 n @ suf]))) w'"
  shows "wp (temp_dir_try k dir (in_dir d @ pre) suf) Q w"
  using assms
proof (induction k arbitrary: w)
  case 0
  then show ?case by simp
next
  case (Suc k)
  let ?n = "nat (uint (rnd w (clock w)))"
  let ?c = "pre @ digits_base 10 ?n @ suf"
  let ?free = "calm w \<and> (\<forall>n. look (files w) (d @ [pre @ digits_base 10 n @ suf]) = None)"
  have plain: "plain_name ?c" using Suc.prems(3,4) by (intro digits_plain_name) auto
  have name: "(in_dir d @ pre) @ next_random w @ suf = abs_string (d @ [?c])"
    using in_dir_name [of d ?c] by (simp add: next_random_digits)
  have retry: "wp (temp_dir_try k dir (in_dir d @ pre) suf) Q (tick w)" if "\<not> ?free"
    by (rule Suc.IH) (use Suc.prems that in auto)
  have stat: "wp (os_Stat dir) (\<lambda>x. Q (Inl (f x))) (tick w)" if "\<not> ?free" for f
    unfolding os_Stat_def
    by (rule wp_at_path_any) (use Suc.prems(5) that in \<open>auto split: option.split\<close>)
  have res: "resolve False w (abs_string (d @ [?c])) = Inr (d @ [?c])"
    by (rule resolve_nofollow) (use Suc.prems plain in auto)
  show ?case
    unfolding temp_dir_try.simps wp_bind wp_get Let_def name os_Mkdir_def
    by (rule wp_at_path_fair [OF res]) (use retry stat Suc.prems(5) Suc.prems(6) [of _ ?n] in
        \<open>auto simp: IsExist_def split: option.split\<close>)
qed

lemma wp_TempDir:
  assumes "real_dirs (files w) d" "list_all plain_name d" "SLASH \<notin> set pat" "CHR ''*'' \<notin> set pat"
    and "\<And>e w'. same_env w w' \<Longrightarrow> files w' = files w \<Longrightarrow>
          \<not> (calm w \<and> (\<forall>n. look (files w) (d @ [pat @ digits_base 10 n]) = None)) \<Longrightarrow> Q (Inl e) w'"
    and "\<And>n m w'. same_env w w' \<Longrightarrow> look (files w) (d @ [pat @ digits_base 10 n]) = None \<Longrightarrow>
          files w' = fs_set (d @ [pat @ digits_base 10 n]) (Dir m) (files w) \<Longrightarrow>
          Q (Inr (abs_string (d @ [pat @ digits_base 10 n]))) w'"
  shows "wp (ioutil_TempDir (in_dir d) pat) Q w"
proof -
  have "temp_affixes pat = (pat, [])" using assms(4) by (simp add: temp_affixes_def)
  moreover have "wp (temp_dir_try 10000 (in_dir d) (in_dir d @ pat) []) Q w"
    using assms by (intro wp_temp_dir_try) auto
  ultimately show ?thesis
    using assms(3) by (simp add: ioutil_TempDir_def temp_join_in_dir Let_def)
qed

lemma wp_RemoveAll_frame:
  assumes "resolve False w s = Inr p"
    and Q: "\<And>r w'. same_env w w' \<Longrightarrow> changes_below [p] (files w) (files w') \<Longrightarrow> Q r w'"
  shows "wp (os_RemoveAll s) Q w"
proof -
  have step: "wp (sys_unlinkat q) (\<lambda>_ v'. same_env v v' \<and> changes_below [p] (files v) (files v')) v"
    if "prefix p q" for q v
    unfolding sys_unlinkat_def by (rule wp_sysc_any) (use that in \<open>auto split: option.splits if_splits\<close>)
  have "wp (remove_each qs acc) (\<lambda>_ v'. same_env v v' \<and> changes_below [p] (files v) (files v')) v"
    if "\<forall>q \<in> set qs. prefix p q" for qs acc v
    using that
  proof (induction qs arbitrary: acc v)
    case Nil
    show ?case by (cases acc) simp_all
  next
    case (Cons q qs)
    have "wp (remove_each qs a) (\<lambda>_ v'. same_env v v' \<and> changes_below [p] (files v) (files v')) u"
      if "same_env v u \<and> changes_below [p] (files v) (files u)" for a u
      by (rule wp_mono [OF Cons.IH])
        (use that Cons.prems in \<open>auto intro: same_env_trans changes_below_trans\<close>)
    then show ?case
      using Cons.prems unfolding remove_each.simps wp_bind
      by (intro wp_mono [OF step]) auto
  qed
  then have "wp (remove_each (subtree_paths (files w) p) None) Q w"
    by (rule wp_mono) (auto simp: subtree_paths_def intro: Q)
  then show ?thesis by (simp add: os_RemoveAll_def assms(1))
qed

subsection \<open>Removing, renaming, linking, changing the mode\<close>

lemma wp_at_path_frame:
  assumes "resolve follow w s = Inr p"
    and "\<And>n v a w'. f p n v = Inr (a, w') \<Longrightarrow> files v = files w \<Longrightarrow> same_env w v \<Longrightarrow>
           same_env w w' \<and> changes_below ps (files w) (files w')"
    and "\<And>r w'. same_env w w' \<Longrightarrow> changes_below ps (files w) (files w') \<Longrightarrow> (\<forall>e. r = Inl e \<longrightarrow> files w' = files w) \<Longrightarrow> Q r w'"
  shows "wp (at_path op s follow f) Q w"
  by (rule wp_at_path_res [OF assms(1)])
    (use assms(2) [of _ "tick w"] assms(3) in \<open>fastforce split: sum.split\<close>)+

lemma wp_Remove_frame:
  assumes r: "\<And>v. files v = files w \<Longrightarrow> cwd v = cwd w \<Longrightarrow> resolve False v s = Inr p"
    and Q: "\<And>r w'. same_env w w' \<Longrightarrow> changes_below [p] (files w) (files w') \<Longrightarrow> Q r w'"
  shows "wp (os_Remove s) Q w"
proof -
  have rm: "wp (sys_rmdir s) (\<lambda>x w'. same_env w w' \<and> changes_below [p] (files w) (files w')) v"
    if "files v = files w" "same_env w v" for v
    unfolding sys_rmdir_def
    by (rule wp_at_path_frame [where p = p and ps = "[p]"])
      (use that r [OF that(1)] same_envD(1) [OF that(2)] in
        \<open>auto split: option.splits if_splits intro: same_env_trans\<close>)
  have "wp (sys_unlink s) (\<lambda>x w'. same_env w w' \<and> changes_below [p] (files w) (files w')
      \<and> (\<forall>e. x = Inl e \<longrightarrow> files w' = files w)) w"
    unfolding sys_unlink_def
    by (rule wp_at_path_frame [where p = p and ps = "[p]"])
      (use r in \<open>auto split: option.splits if_splits\<close>)
  then show ?thesis
    unfolding os_Remove_def wp_bind
    by (rule wp_mono) (auto split: sum.split intro!: Q wp_mono [OF rm])
qed

lemma wp_Chmod:
  assumes "resolve True w s = Inr p" "look (files w) p = Some n"
    and "\<And>e. Q (Inl e) (tick w)"
    and "Q (Inr ()) ((tick w)\<lparr>files := fs_set p (map_meta (chmod_meta (syscallMode m)) n) (files w)\<rparr>)"
  shows "wp (os_Chmod s m) Q w"
  unfolding os_Chmod_def by (rule wp_at_path_res) (use assms in auto)

lemma wp_Symlink:
  assumes "resolve False w s = Inr p" and "\<And>e. Q (Inl e) (tick w)"
    and "\<And>m. look (files w) p = None \<Longrightarrow> Q (Inr ()) ((tick w)\<lparr>files := fs_set p (Lnk m t) (files w)\<rparr>)"
  shows "wp (os_Symlink t s) Q w"
  unfolding os_Symlink_def by (rule wp_at_path_res) (use assms in \<open>auto split: option.split\<close>)

text \<open>A file system is a tree: what exists is in a directory.\<close>

definition tree_fs :: "fsys \<Rightarrow> bool" where
  "tree_fs fs \<longleftrightarrow> list_all (\<lambda>(q, _). q = [] \<or> dir_at fs (butlast q)) fs"

lemma tree_fs_parent: "tree_fs fs \<Longrightarrow> look fs (p @ [c]) = Some n \<Longrightarrow> dir_at fs p"
  by (auto simp: tree_fs_def list_all_iff dest!: map_of_SomeD)

lemma tree_fs_below:
  assumes "tree_fs fs" "look fs p = None" "prefix p q"
  shows "look fs q = None"
  using assms(3)
proof (induction q rule: rev_induct)
  case (snoc c q)
  then show ?case
    using assms(2) tree_fs_parent [OF assms(1), of q c]
    by (cases "look fs (q @ [c])") (auto simp: dir_at_def)
qed (use assms(2) in simp)

subsection \<open>Functions that only read\<close>

abbreviation env_kept :: "world \<Rightarrow> world \<Rightarrow> bool" where
  "env_kept w w' \<equiv> files w' = files w \<and> same_env w w'"

definition reads_only :: "'a io \<Rightarrow> bool" where
  "reads_only = within env_kept"

interpretation ro: step_order env_kept
  by unfold_locales (auto intro: same_env_trans)

lemma reads_only_sysc:
  "(\<And>w a w'. f w = Inr (a, w') \<Longrightarrow> files w' = files w \<and> same_env w w') \<Longrightarrow> reads_only (sysc op s f)"
  unfolding reads_only_def within_def by (fastforce simp: sysc_def split: option.split sum.split)

lemma reads_only_at_path:
  "(\<And>p n w a w'. f p n w = Inr (a, w') \<Longrightarrow> w' = w) \<Longrightarrow> reads_only (at_path op s fl f)"
  unfolding at_path_def by (rule reads_only_sysc) (fastforce split: sum.splits)

lemmas reads_only_return [simp, intro] = ro.within_return [folded reads_only_def]
  and reads_only_get [simp, intro] = ro.within_get [folded reads_only_def]
  and reads_only_intros [intro] = ro.within_intros [folded reads_only_def]

lemma reads_only_Stat [simp, intro]: "reads_only (os_Stat s)"
  unfolding os_Stat_def by (rule reads_only_at_path) (auto split: option.splits)

lemma reads_only_Lstat [simp, intro]: "reads_only (os_Lstat s)"
  unfolding os_Lstat_def by (rule reads_only_at_path) (auto split: option.splits)

lemma reads_only_Readlink [simp, intro]: "reads_only (os_Readlink s)"
  unfolding os_Readlink_def by (rule reads_only_at_path) (auto split: option.splits node.splits)

lemma reads_only_ReadFile [simp, intro]: "reads_only (ioutil_ReadFile s)"
  unfolding ioutil_ReadFile_def by (rule reads_only_at_path) (auto split: option.splits node.splits)

lemma reads_only_ReadDir [simp, intro]: "reads_only (ioutil_ReadDir s)"
  unfolding ioutil_ReadDir_def by (rule reads_only_at_path) (auto split: option.splits node.splits)

lemma reads_only_Close [simp, intro]: "reads_only (fd_Close h)"
  unfolding fd_Close_def by (rule reads_only_sysc) auto

lemma reads_only_wp: "reads_only m \<Longrightarrow> wp m (\<lambda>_. env_kept w) w"
  by (simp add: reads_only_def within_wp)

lemma reads_onlyD: "reads_only m \<Longrightarrow> env_kept w (snd (run_state m w))"
  by (simp add: reads_only_def within_def)

text \<open>When a rename cannot fail by itself.\<close>

definition rename_ok :: "fsys \<Rightarrow> path \<Rightarrow> path \<Rightarrow> bool" where
  "rename_ok fs p q \<longleftrightarrow> look fs p \<noteq> None \<and> apart p q \<and> \<not> dir_at fs q \<and> (dir_at fs p \<longrightarrow> look fs q = None)"

lemma wp_sys_rename:
  assumes "resolve False w old = Inr p" "resolve False w new = Inr q" "p \<noteq> q"
    and E: "\<And>e. \<not> (calm w \<and> rename_ok (files w) p q) \<Longrightarrow> Q (Inl e) (tick w)"
    and S: "look (files w) p \<noteq> None \<Longrightarrow> apart p q \<Longrightarrow>
           dir_at (files w) q \<longrightarrow> dir_at (files w) p \<and> fs_names (files w) q = [] \<Longrightarrow>
           Q (Inr ()) ((tick w)\<lparr>files := fs_move p q (files w)\<rparr>)"
  shows "wp (sys_rename old new) Q w"
proof (cases "calm w")
  case True
  then show ?thesis
    unfolding sys_rename_def wp_sysc
    by (auto simp: assms(1-3) apart_def rename_ok_def dir_at_iff is_dir_iff
        intro!: E S split: option.splits if_splits)
next
  case False
  then show ?thesis
    unfolding sys_rename_def
    by (intro wp_sysc_any) (use assms in \<open>auto simp: apart_def dir_at_iff is_dir_iff split: option.splits if_splits\<close>)
qed

lemma wp_Rename:
  assumes r: "\<And>v. files v = files w \<Longrightarrow> cwd v = cwd w \<Longrightarrow>
        resolve False v old = Inr p \<and> resolve False v new = Inr q"
    and ne: "p \<noteq> q"
    and E: "\<And>e w'. same_env w w' \<Longrightarrow> files w' = files w \<Longrightarrow> \<not> (calm w \<and> rename_ok (files w) p q) \<Longrightarrow> Q (Inl e) w'"
    and S: "\<And>w'. same_env w w' \<Longrightarrow> look (files w) p \<noteq> None \<Longrightarrow> apart p q \<Longrightarrow>
        dir_at (files w) q \<longrightarrow> dir_at (files w) p \<and> fs_names (files w) q = [] \<Longrightarrow>
        files w' = fs_move p q (files w) \<Longrightarrow> Q (Inr ()) w'"
  shows "wp (os_Rename old new) Q w"
proof -
  have mv: "wp (sys_rename old new) Q v" if "files v = files w" "same_env w v" for v
    by (rule wp_sys_rename [where p = p and q = q])
      (use that r [OF that(1) same_envD(1) [OF that(2)]] ne same_env_calm [OF that(2)] in \<open>auto intro: E S\<close>)
  let ?R = "\<lambda>x v. env_kept w v \<and> (case x of Inr i \<Rightarrow> fi_IsDir i = dir_at (files w) q | Inl _ \<Rightarrow> True)"
  have st: "wp (os_Lstat new) ?R w"
    unfolding os_Lstat_def
    by (rule wp_at_path_res [where p = q])
      (use r in \<open>auto simp: fi_IsDir_iff is_dir_iff dir_at_iff split: option.split\<close>)
  show ?thesis
    unfolding os_Rename_def
  proof (rule wp_bindI [OF st], goal_cases)
    case (1 a v)
    show ?case
    proof (cases "case a of Inr i \<Rightarrow> fi_IsDir i | Inl _ \<Rightarrow> False")
      case True
      then have "\<not> rename_ok (files w) p q" using 1 by (cases a) (auto simp: rename_ok_def)
      then show ?thesis
        using True 1 by (auto simp del: wp_bind split: sum.split intro!: wp_bindI [OF reads_only_wp [OF reads_only_Lstat]]
          intro: E mv same_env_trans)
          (auto simp: wp_get intro: E mv same_env_trans split: sum.split)
    qed (use 1 mv in simp)
  qed
qed

text \<open>A call that reads only, at a path that resolves: outside errors come from the schedule only.\<close>

lemma wp_at_path_reads:
  assumes "\<And>v. files v = files w \<Longrightarrow> same_env w v \<Longrightarrow> resolve follow v s = Inr p"
    and "files u = files w" "same_env w u"
    and "\<And>e v. \<not> calm w \<Longrightarrow> same_env w v \<Longrightarrow> files v = files w \<Longrightarrow> Q (Inl e) v"
    and "\<And>v. same_env w v \<Longrightarrow> files v = files w \<Longrightarrow> case f p (look (files w) p) v of
           Inl e \<Rightarrow> Q (Inl (Sys op s e)) v | Inr (a, w') \<Rightarrow> Q (Inr a) w'"
  shows "wp (at_path op s follow f) Q u"
proof (rule wp_at_path_fair [OF assms(1) [OF assms(2,3)]])
  show "Q (Inl (Sys op s (EFault n))) (tick u)" if "\<not> calm u" for n
    using that same_env_calm [OF assms(3)] assms(2,3) by (intro assms(4)) auto
qed (use assms(2,3) assms(5) [of "tick u"] in simp)

lemma wp_Close_fair:
  assumes "\<And>e. \<not> calm w \<Longrightarrow> Q (Inl e) (tick w)" "Q (Inr ()) (tick w)"
  shows "wp (fd_Close h) Q w"
  using assms by (cases "calm w") (auto simp: wp_Close split: option.split)

text \<open>An entry of a directory, looked at and removed.\<close>

lemma wp_Stat_entry:
  assumes "real_dirs (files u) kd" "list_all plain_name kd" "plain_name c"
  shows "wp (os_Stat (abs_string (kd @ [c]))) (\<lambda>r y. env_kept u y \<and>
     (calm u \<longrightarrow> (\<forall>m x. look (files u) (kd @ [c]) \<noteq> Some (Lnk m x)) \<longrightarrow>
        look (files u) (kd @ [c]) = (case r of Inl _ \<Rightarrow> None | Inr i \<Rightarrow> Some (fi_node i)))) u"
proof (cases "\<forall>m x. look (files u) (kd @ [c]) \<noteq> Some (Lnk m x)")
  case True
  show ?thesis
    unfolding os_Stat_def
    by (rule wp_at_path_fair [OF resolve_notlink [OF assms True]]) (auto split: option.split)
next
  case False
  then show ?thesis by (intro wp_mono [OF reads_only_wp [OF reads_only_Stat]]) auto
qed

lemma wp_Remove_plain:
  assumes "\<And>v. files v = files w \<Longrightarrow> cwd v = cwd w \<Longrightarrow> resolve False v s = Inr p"
    and "up \<Longrightarrow> calm w \<and> look (files w) p = Some n \<and> \<not> is_dir n"
  shows "wp (os_Remove s) (\<lambda>r w'. same_env w w' \<and> changes_below [p] (files w) (files w') \<and> (up \<longrightarrow> look (files w') p = None)) w"
proof (cases up)
  case True
  then show ?thesis
    unfolding os_Remove_def wp_bind sys_unlink_def
    by (intro wp_at_path_calm [OF assms(1)]) (use assms(2) in auto)
next
  case False
  then show ?thesis by (intro wp_Remove_frame [OF assms(1)]) auto
qed

subsection \<open>Special files\<close>

lemma wp_Mknod:
  assumes "resolve False w s = Inr p" "\<And>n. \<not> calm w \<Longrightarrow> Q (Inl (Sys ''mknod'' s (EFault n))) (tick w)"
    and "\<And>n. look (files w) p = Some n \<Longrightarrow> Q (Inl (Sys ''mknod'' s EEXIST)) (tick w)"
    and "\<And>m. look (files w) p = None \<Longrightarrow> mo AND S_IFMT = 0 \<Longrightarrow> Q (Inr ()) ((tick w)\<lparr>files := fs_set p (Reg m []) (files w)\<rparr>)"
    and "mo AND S_IFMT = 0"
  shows "wp (unix_Mknod s mo dev) Q w"
  unfolding unix_Mknod_def
  by (rule wp_at_path_fair [OF assms(1)]) (use assms(2-) in \<open>auto simp: mknod_node_def split: option.split\<close>)

lemma bit_go_low:
  "9 \<le> k \<Longrightarrow> k < 20 \<Longrightarrow> \<not> bit (go_mode n) k"
  by (cases n) (simp_all add: go_mode_def Let_def bit_or_iff bit_and_iff bit_ModePerm bit_modes)

lemma type_bits_high: "go_mode n AND S_IFMT = 0"
proof (rule bit_word_eqI)
  fix k assume k: "k < LENGTH(32)"
  have e: "S_IFMT = push_bit 12 (mask 4)" by (simp add: S_IFMT_def mask_eq_exp_minus_1 push_bit_eq_mult)
  have "bit S_IFMT k \<longleftrightarrow> 12 \<le> k \<and> k < 16"
    unfolding e bit_push_bit_iff bit_mask_iff possible_bit_word using k by auto
  then show "bit (go_mode n AND S_IFMT) k = bit 0 k"
    by (auto simp: bit_and_iff bit_go_low)
qed

end
