(* ===== verification/System.thy ===== *)
theory System
  imports OSFrame
begin

text \<open>
  \<^verbatim>\<open>pkg/system/system.go\<close> and \<^verbatim>\<open>pkg/mode/mode.go\<close>: the four directories of the system, paths
  below them, and the mode the system was booted in.
\<close>

definition DefaultRootDir :: string where "DefaultRootDir = ''/edgi/system''"
definition DefaultDataDir :: string where "DefaultDataDir = ''/edgi/data''"
definition DefaultLocalDir :: string where "DefaultLocalDir = ''/var/lib/cmd/edgi''"
definition DefaultStateDir :: string where "DefaultStateDir = ''/run/edgi''"

definition RootPath :: "string list \<Rightarrow> string" where
  "RootPath elem = PathJoin [DefaultRootDir, PathJoin elem]"

definition DataPath :: "string list \<Rightarrow> string" where
  "DataPath elem = PathJoin [DefaultDataDir, PathJoin elem]"

definition LocalPath :: "string list \<Rightarrow> string" where
  "LocalPath elem = PathJoin [DefaultLocalDir, PathJoin elem]"

definition StatePath :: "string list \<Rightarrow> string" where
  "StatePath elem = PathJoin [DefaultStateDir, PathJoin elem]"

definition mode_Get :: "string list \<Rightarrow> string result io" where
  "mode_Get pre = do {
     r \<leftarrow> ioutil_ReadFile (PathJoin [PathJoin pre, StatePath [''mode'']]);
     State_Monad.return
       (case r of
          Inl e \<Rightarrow> if IsNotExist e then Inr [] else Inl e
        | Inr bytes \<Rightarrow> Inr (TrimSpace bytes)) }"

subsection \<open>Paths below a directory\<close>

lemma PathJoin_plain: "list_all plain_name es \<Longrightarrow> PathJoin es = Join es ''/''"
proof (cases es)
  case (Cons e es')
  assume p: "list_all plain_name es"
  then have "filter (\<lambda>e. e \<noteq> []) es = es" by (auto simp: list_all_iff plain_name_def intro!: filter_True)
  moreover have "Split (Join es ''/'') SLASH = es"
    using p Cons by (intro Split_Join) (auto simp: list_all_iff plain_name_def)
  moreover have "\<not> is_abs (Join es ''/'')"
    using p Cons by (cases es') (auto simp: is_abs_iff plain_name_def append_eq_Cons_conv)
  moreover have "clean_comps False [] es = es" using p by (simp add: clean_comps_plain)
  ultimately show ?thesis
    unfolding PathJoin_def Clean_def using Cons by simp
qed (simp add: PathJoin_def)

lemma Clean_abs_append:
  assumes p: "list_all plain_name p" and q: "list_all plain_name q" "q \<noteq> []"
  shows "Clean (abs_string p @ ''/'' @ Join q ''/'') = abs_string (p @ q)"
proof -
  have "Split (abs_string p @ SLASH # Join q ''/'') SLASH = Split (abs_string p) SLASH @ q"
    using q by (simp add: Split_append_gen Split_Join list_all_iff plain_name_def)
  moreover have "clean_comps True [] (([] # (if p = [] then [[]] else p)) @ q) = p @ q"
    using p q by (auto simp: clean_comps_append_plain clean_comps_plain)
  moreover have "is_abs (abs_string p @ SLASH # Join q ''/'')"
    by (simp add: abs_string_def is_abs_def HasPrefix_def)
  ultimately show ?thesis
    by (simp add: Clean_def Split_abs_string [OF p] Let_def) (simp add: abs_string_def)
qed

lemma PathJoin_below:
  assumes p: "list_all plain_name p" and es: "list_all plain_name es"
  shows "PathJoin [abs_string p, PathJoin es] = abs_string (p @ es)"
proof (cases "es = []")
  case True
  then show ?thesis
    using Clean_abs_string [OF p] by (simp add: PathJoin_def abs_string_def)
next
  case False
  then have ne: "Join es ''/'' \<noteq> []"
    using es by (cases es rule: remdups_adj.cases) (auto simp: plain_name_def)
  have "PathJoin [abs_string p, Join es ''/''] = Clean (abs_string p @ ''/'' @ Join es ''/'')"
    using ne by (simp add: PathJoin_def abs_string_def)
  then show ?thesis
    using Clean_abs_append [OF p es False] by (simp add: PathJoin_plain [OF es])
qed

lemma default_dirs:
  "DefaultRootDir = abs_string [''edgi'', ''system'']"
  "DefaultDataDir = abs_string [''edgi'', ''data'']"
  "DefaultLocalDir = abs_string [''var'', ''lib'', ''cmd'', ''edgi'']"
  "DefaultStateDir = abs_string [''run'', ''edgi'']"
  by (simp_all add: DefaultRootDir_def DefaultDataDir_def DefaultLocalDir_def DefaultStateDir_def
      abs_string_def)

lemma plain_dirs:
  "list_all plain_name [''edgi'', ''system'']" "list_all plain_name [''edgi'', ''data'']"
  "list_all plain_name [''var'', ''lib'', ''cmd'', ''edgi'']" "list_all plain_name [''run'', ''edgi'']"
  by (simp_all add: plain_name_def)

lemmas below_dir = PathJoin_below [OF plain_dirs(1)] PathJoin_below [OF plain_dirs(2)]
  PathJoin_below [OF plain_dirs(3)] PathJoin_below [OF plain_dirs(4)]

lemma system_paths:
  assumes "list_all plain_name es"
  shows "RootPath es = abs_string ([''edgi'', ''system''] @ es)"
    and "DataPath es = abs_string ([''edgi'', ''data''] @ es)"
    and "LocalPath es = abs_string ([''var'', ''lib'', ''cmd'', ''edgi''] @ es)"
    and "StatePath es = abs_string ([''run'', ''edgi''] @ es)"
  using below_dir [OF assms]
  by (simp_all add: RootPath_def DataPath_def LocalPath_def StatePath_def default_dirs)

lemma mode_path: "PathJoin [PathJoin [], StatePath [''mode'']] = ''/run/edgi/mode''"
proof -
  have m: "StatePath [''mode''] = abs_string [''run'', ''edgi'', ''mode'']"
    using system_paths(4) [of "[''mode'']"] by (simp add: plain_name_def)
  have "list_all plain_name [''run'', ''edgi'', ''mode'']" by (simp add: plain_name_def)
  from Clean_abs_string [OF this] show ?thesis
    by (simp add: m PathJoin_def abs_string_def)
qed

lemma reads_only_mode_Get [simp, intro]: "reads_only (mode_Get pre)"
  unfolding mode_Get_def by (intro reads_only_intros) auto

end
