(* ===== verification/Util.thy ===== *)
theory Util
  imports System
begin

text \<open>
  \<^verbatim>\<open>pkg/util/util.go\<close>: atomic replacement of a file, downloads, scripts and directories. The
  interface \<open>atomic_writer\<close> is what the rest of the program relies on when it replaces a file.
\<close>

definition WriteFileAtomic :: "string \<Rightarrow> bytes \<Rightarrow> mode \<Rightarrow> unit result io" where
  "WriteFileAtomic filename data perm =
     (case PathSplit filename of (dir, file) \<Rightarrow>
        check (ioutil_TempFile dir (''.'' @ file)) (\<lambda>(name, h).
          defer_after
            (check (fd_Write h data) (\<lambda>_.
             check (fd_Close h) (\<lambda>_.
             check (os_Chmod name perm) (\<lambda>_.
             os_Rename name filename))))
            (os_Remove name)))"

definition HTTPDownloadToFile :: "string \<Rightarrow> string \<Rightarrow> unit result io" where
  "HTTPDownloadToFile url dest =
     check (http_Get url) (\<lambda>(status, body).
       case body of
         Inl e \<Rightarrow> fail e
       | Inr b \<Rightarrow> WriteFileAtomic dest b 0x1A4)"

definition HTTPLoadBytes :: "string \<Rightarrow> bytes result io" where
  "HTTPLoadBytes url =
     check (http_Get url) (\<lambda>(status, body).
       if status \<noteq> 200 then fail (Msg (''non-200 http response: '' @ Itoa (int status)))
       else case body of Inl e \<Rightarrow> fail e | Inr b \<Rightarrow> ok b)"

definition ExistsAndExecutable :: "string \<Rightarrow> bool io" where
  "ExistsAndExecutable p = do {
     r \<leftarrow> os_Stat p;
     State_Monad.return
       (case r of Inl _ \<Rightarrow> False | Inr i \<Rightarrow> (fi_Mode i AND ModePerm) AND ModePerm \<noteq> 0) }"

definition os_Open :: "string \<Rightarrow> path result io" where
  "os_Open s = os_OpenFile s \<lparr>o_creat = False, o_excl = False, o_trunc = False\<rparr> 0"

text \<open>The script's first two bytes decide how it is run. Reading an empty file is \<^verbatim>\<open>io.EOF\<close>.\<close>

definition RunScript :: "string \<Rightarrow> string list \<Rightarrow> unit result io" where
  "RunScript p args = do {
     x \<leftarrow> ExistsAndExecutable p;
     if \<not> x then ok ()
     else check (ioutil_ReadFile p) (\<lambda>c.
       if c = [] then fail IOEOF
       else cmd_Run (exec_Command
              (if take 2 c = ''#!'' then p # args else [''/bin/sh'', p]))) }"

definition EnsureDirectoryExists :: "string \<Rightarrow> unit result io" where
  "EnsureDirectoryExists dir = do {
     r \<leftarrow> os_Stat dir;
     case r of
       Inr i \<Rightarrow> if \<not> fi_IsDir i then fail (Msg (dir @ '' is not a directory'')) else ok ()
     | Inl _ \<Rightarrow> os_MkdirAll dir 0x1ED }"

subsection \<open>Atomic replacement\<close>

text \<open>
  The contract of a function that replaces a file: under every fault schedule the target is
  either exactly as it was, and then the caller is told so, or holds exactly the new data with
  the permissions asked for; besides the target only a name that was free is touched.
\<close>

definition replaced :: "path \<Rightarrow> string \<Rightarrow> bytes \<Rightarrow> mode \<Rightarrow> world \<Rightarrow> unit result \<Rightarrow> world \<Rightarrow> bool" where
  "replaced d c data perm w r w' \<longleftrightarrow>
     same_env w w' \<and>
     (case r of
        Inl _ \<Rightarrow> look (files w') (d @ [c]) = look (files w) (d @ [c])
      | Inr _ \<Rightarrow> \<exists>m. look (files w') (d @ [c]) = Some (Reg m data) \<and> m_perm m = syscallMode perm) \<and>
     (files w' = files w \<or>
      (\<exists>t. t \<noteq> c \<and> look (files w) (d @ [t]) = None \<and> changes_below [d @ [t], d @ [c]] (files w) (files w')))"

locale atomic_writer =
  fixes replace :: "string \<Rightarrow> bytes \<Rightarrow> mode \<Rightarrow> unit result io"
  assumes replace_all_or_nothing:
    "real_dirs (files w) d \<Longrightarrow> list_all plain_name (d @ [c]) \<Longrightarrow>
       wp (replace (abs_string (d @ [c])) data perm) (replaced d c data perm w) w"
begin

lemma replace_error_keeps:
  assumes "real_dirs (files w) d" "list_all plain_name (d @ [c])"
    and "run_state (replace (abs_string (d @ [c])) data perm) w = (Inl e, w')"
  shows "look (files w') (d @ [c]) = look (files w) (d @ [c])"
  using wpD [OF replace_all_or_nothing [OF assms(1,2)] assms(3)] by (simp add: replaced_def)

lemma replace_success_writes:
  assumes "real_dirs (files w) d" "list_all plain_name (d @ [c])"
    and "run_state (replace (abs_string (d @ [c])) data perm) w = (Inr u, w')"
  shows "\<exists>m. look (files w') (d @ [c]) = Some (Reg m data) \<and> m_perm m = syscallMode perm"
  using wpD [OF replace_all_or_nothing [OF assms(1,2)] assms(3)] by (simp add: replaced_def)

text \<open>No torn file: whatever fails, the target holds its old content or the new one.\<close>

lemma replace_never_torn:
  assumes "real_dirs (files w) d" "list_all plain_name (d @ [c])"
    and "run_state (replace (abs_string (d @ [c])) data perm) w = (r, w')"
  shows "look (files w') (d @ [c]) = look (files w) (d @ [c]) \<or>
     (\<exists>m. look (files w') (d @ [c]) = Some (Reg m data))"
  using wpD [OF replace_all_or_nothing [OF assms(1,2)] assms(3)]
  by (auto simp: replaced_def split: sum.splits)

lemma replace_keeps_dirs:
  assumes "replaced d c data perm w r w'" "real_dirs (files w) d"
  shows "real_dirs (files w') d"
  using assms unfolding replaced_def by (auto elim!: changes_below_real_dirs)

end

text \<open>While a replacement runs, only the new file \<open>t\<close> and the target \<open>c\<close> change.\<close>

lemma resolve_beside:
  assumes "changes_below [d @ [t], d @ [c]] (files w) (files v)" "real_dirs (files w) d" "list_all plain_name d" "plain_name x"
  shows "resolve False v (abs_string (d @ [x])) = Inr (d @ [x])"
proof -
  have "real_dirs (files v) d" by (rule changes_below_real_dirs [OF assms(1) _ assms(2)]) auto
  then show ?thesis using assms(3,4) by (intro resolve_nofollow)
qed

lemma temp_removed:
  assumes d: "real_dirs (files w) d" "list_all plain_name d" and t: "plain_name t" "t \<noteq> c" "look (files w) (d @ [t]) = None"
    and v: "same_env w v" "changes_below [d @ [t], d @ [c]] (files w) (files v)"
    and r: "case r of Inl _ \<Rightarrow> look (files v) (d @ [c]) = look (files w) (d @ [c])
       | Inr _ \<Rightarrow> \<exists>m. look (files v) (d @ [c]) = Some (Reg m data) \<and> m_perm m = syscallMode perm"
  shows "wp (os_Remove (abs_string (d @ [t]))) (\<lambda>_. replaced d c data perm w r) v"
proof (rule wp_Remove_frame [where p = "d @ [t]"])
  show "resolve False v' (abs_string (d @ [t])) = Inr (d @ [t])" if "files v' = files v" for v'
    by (rule resolve_beside [OF _ d t(1)]) (use that v in simp)
  fix v' assume v': "same_env v v'" "changes_below [d @ [t]] (files v) (files v')"
  then have "look (files v') (d @ [c]) = look (files v) (d @ [c])" using t(2) by (simp add: changes_below_look)
  moreover have "changes_below [d @ [t], d @ [c]] (files w) (files v')"
    by (rule changes_below_step [OF v(2) v'(2)]) simp
  ultimately show "replaced d c data perm w r v'"
    using v(1) v' t r by (auto simp: replaced_def intro: same_env_trans split: sum.splits)
qed

lemma temp_renamed:
  assumes d: "real_dirs (files w) d" "list_all plain_name (d @ [c])" and t: "plain_name t" "t \<noteq> c" "look (files w) (d @ [t]) = None"
    and v: "same_env w v" "changes_below [d @ [t]] (files w) (files v)"
    and m: "look (files v) (d @ [t]) = Some (Reg m data)" "m_perm m = syscallMode perm"
  shows "wp (os_Rename (abs_string (d @ [t])) (abs_string (d @ [c])))
    (\<lambda>r v'. wp (os_Remove (abs_string (d @ [t]))) (\<lambda>_. replaced d c data perm w r) v') v"
proof (rule wp_Rename [where p = "d @ [t]" and q = "d @ [c]"])
  have pl: "list_all plain_name d" "plain_name c" using d(2) by auto
  have cb: "changes_below [d @ [t], d @ [c]] (files w) (files v)" by (rule changes_below_mono [OF v(2)]) auto
  have vC: "look (files v) (d @ [c]) = look (files w) (d @ [c])" using v(2) t(2) by (simp add: changes_below_look)
  note clean = temp_removed [OF d(1) pl(1) t]
  show "resolve False v' (abs_string (d @ [t])) = Inr (d @ [t]) \<and> resolve False v' (abs_string (d @ [c])) = Inr (d @ [c])"
    if "files v' = files v" for v'
    using cb that by (auto intro!: resolve_beside [where t = t and c = c] d pl t)
  show "d @ [t] \<noteq> d @ [c]" using t by simp
  show "wp (os_Remove (abs_string (d @ [t]))) (\<lambda>_. replaced d c data perm w (Inl e)) v'"
    if "same_env v v'" "files v' = files v" for e v'
    by (rule clean) (use that v cb vC in \<open>auto intro: same_env_trans\<close>)
  show "wp (os_Remove (abs_string (d @ [t]))) (\<lambda>_. replaced d c data perm w (Inr ())) v'"
    if "same_env v v'" "files v' = fs_move (d @ [t]) (d @ [c]) (files v)" for v'
    by (rule clean) (use that v cb m in \<open>auto simp: look_move intro: same_env_trans changes_below_move\<close>)
qed

lemma temp_replaced:
  assumes d: "real_dirs (files w) d" "list_all plain_name (d @ [c])" and t: "plain_name t" "t \<noteq> c" "look (files w) (d @ [t]) = None"
    and v: "same_env w v" "files v = fs_set (d @ [t]) (Reg m []) (files w)"
  shows "wp (defer_after
       (check (fd_Write (d @ [t]) data) (\<lambda>_. check (fd_Close (d @ [t])) (\<lambda>_.
        check (os_Chmod (abs_string (d @ [t])) perm) (\<lambda>_. os_Rename (abs_string (d @ [t])) (abs_string (d @ [c]))))))
       (os_Remove (abs_string (d @ [t])))) (replaced d c data perm w) v"
proof -
  have pl: "list_all plain_name d" using d(2) by simp
  show ?thesis
    unfolding wp_defer wp_check wp_Write
    using v t d by (auto simp: wp_Close split: option.split
      intro!: temp_removed [OF d(1) pl t] temp_renamed [OF d t, where m = "chmod_meta (syscallMode perm) m"]
        wp_Chmod [where p = "d @ [t]"] resolve_notlink changes_below_real_dirs [OF _ _ d(1), where ps = "[d @ [t]]"])
qed

lemma WriteFileAtomic_replaced:
  assumes d: "real_dirs (files w) d" and p: "list_all plain_name (d @ [c])"
  shows "wp (WriteFileAtomic (abs_string (d @ [c])) data perm) (replaced d c data perm w) w"
proof -
  have pl: "list_all plain_name d" "plain_name c" using p by auto
  let ?R = "\<lambda>r v. case r of
      Inl e \<Rightarrow> same_env w v \<and> files v = files w
    | Inr (name, h) \<Rightarrow> \<exists>t m. name = abs_string (d @ [t]) \<and> h = d @ [t] \<and> plain_name t \<and> t \<noteq> c \<and>
        look (files w) (d @ [t]) = None \<and> same_env w v \<and> files v = fs_set (d @ [t]) (Reg m []) (files w)"
  have "wp (ioutil_TempFile (in_dir d) (''.'' @ c)) ?R w"
    by (rule wp_TempFile [OF d pl(1)]) (use pl(2) in \<open>auto simp: plain_name_def\<close>)
  then show ?thesis
    unfolding WriteFileAtomic_def PathSplit_in_dir [OF pl(2)] prod.case
  proof (rule wp_checkI)
    show "replaced d c data perm w (Inl e) v" if "?R (Inl e) v" for e v
      using that by (simp add: replaced_def)
    show "wp (case a of (name, h) \<Rightarrow> defer_after
            (check (fd_Write h data) (\<lambda>_. check (fd_Close h) (\<lambda>_.
             check (os_Chmod name perm) (\<lambda>_. os_Rename name (abs_string (d @ [c]))))))
            (os_Remove name)) (replaced d c data perm w) v" if "?R (Inr a) v" for a v
      using that temp_replaced [OF d p] by (auto simp del: wp_defer)
  qed
qed

interpretation wfa: atomic_writer WriteFileAtomic
  by unfold_locales (rule WriteFileAtomic_replaced)

end
