(* ===== verification/Copy.thy ===== *)
theory Copy
  imports Util
begin

text \<open>
  The tree copy that \<^verbatim>\<open>pkg/system/component.go\<close> calls,
  \<^verbatim>\<open>vendor/github.com/otiai10/copy/copy.go\<close>, with its default options: links are copied as
  links, nothing is skipped, no permission is added, nothing is synced. The depth of the
  recursion is bounded by the length of a path: every level adds at least two bytes to the
  source path and the kernel refuses paths of 4096 bytes with \<^verbatim>\<open>ENAMETOOLONG\<close>, here
  \<open>EFault 36\<close>.
\<close>

text \<open>A deferred \<^verbatim>\<open>fclose(f, &err)\<close>, and a deferred \<^verbatim>\<open>chmod(dir, mode, &err)\<close>: the error counts unless
  one is already reported.\<close>

definition finally_report :: "('s, 'e + unit) state \<Rightarrow> ('s, 'e + unit) state \<Rightarrow> ('s, 'e + unit) state" where
  "finally_report m cleanup = do {
     r \<leftarrow> m;
     c \<leftarrow> cleanup;
     State_Monad.return (case r of Inl e \<Rightarrow> Inl e | Inr _ \<Rightarrow> c) }"

text \<open>\<^verbatim>\<open>io.Copy(f, s)\<close>: a failing read or write leaves the bytes that arrived.\<close>

definition io_Copy :: "path \<Rightarrow> path \<Rightarrow> unit result io" where
  "io_Copy f s = do {
     w \<leftarrow> State_Monad.get;
     case look (files w) s of
       Some (Reg _ data) \<Rightarrow> fd_Write f data
     | Some (Dir _) \<Rightarrow> fail (Sys ''read'' (abs_string s) EISDIR)
     | _ \<Rightarrow> fail (Sys ''read'' (abs_string s) EINVAL) }"

definition fcopy :: "string \<Rightarrow> string \<Rightarrow> finfo \<Rightarrow> unit result io" where
  "fcopy src dest info =
     check (os_MkdirAll (PathDir dest) 0x1FF) (\<lambda>_.
     check (os_OpenFile dest O_create 0x1B6) (\<lambda>f.
       finally_report
         (check (os_Chmod dest (fi_Mode info)) (\<lambda>_.
          check (os_Open src) (\<lambda>s.
            finally_report (io_Copy f s) (fd_Close s))))
         (fd_Close f)))"

definition lcopy :: "string \<Rightarrow> string \<Rightarrow> unit result io" where
  "lcopy src dest = check (os_Readlink src) (\<lambda>t. os_Symlink t dest)"

fun copy_switchboard :: "nat \<Rightarrow> string \<Rightarrow> string \<Rightarrow> finfo \<Rightarrow> unit result io" where
  "copy_switchboard 0 src dest info = fail (Sys ''lstat'' src (EFault 36))"
| "copy_switchboard (Suc n) src dest info =
     (if fi_Mode info AND ModeSymlink \<noteq> 0 then lcopy src dest
      else if fi_IsDir info then
        check (os_MkdirAll dest 0x1ED) (\<lambda>_.
          finally_report
            (check (ioutil_ReadDir src) (\<lambda>contents.
               for_check contents (\<lambda>c.
                 copy_switchboard n (PathJoin [src, fi_name c]) (PathJoin [dest, fi_name c]) c)))
            (os_Chmod dest (fi_Mode info)))
      else fcopy src dest info)"

definition copy_Copy :: "string \<Rightarrow> string \<Rightarrow> unit result io" where
  "copy_Copy src dest = check (os_Lstat src) (\<lambda>info. copy_switchboard 2048 src dest info)"

subsection \<open>Frame\<close>

lemma wp_finally [wp_simps, simp]:
  "wp (finally_report m c) Q w =
     wp m (\<lambda>r v. wp c (\<lambda>x. Q (case r of Inl e \<Rightarrow> Inl e | Inr _ \<Rightarrow> x)) v) w"
  by (simp add: finally_report_def)

lemma wp_finallyI:
  "wp m R s \<Longrightarrow> (\<And>a u. R a u \<Longrightarrow> wp c (\<lambda>x. Q (case a of Inl e \<Rightarrow> Inl e | Inr _ \<Rightarrow> x)) u) \<Longrightarrow> wp (finally_report m c) Q s"
  unfolding wp_finally by (rule wp_mono)

context step_order
begin

lemma within_finally: "within R m \<Longrightarrow> within R c \<Longrightarrow> within R (finally_report m c)"
  unfolding finally_report_def by (intro within_bind within_return)

end

text \<open>Nothing at a path but possibly an empty directory.\<close>

definition blank :: "fsys \<Rightarrow> path \<Rightarrow> bool" where
  "blank fs p \<longleftrightarrow> (look fs p = None \<or> dir_at fs p) \<and> (\<forall>q. strict_prefix p q \<longrightarrow> look fs q = None)"

lemma blank_child: "blank fs p \<Longrightarrow> blank fs (p @ [c])"
  by (auto simp: blank_def strict_prefix_def prefix_def)

lemma blank_outside:
  assumes "blank fs p" "changes_below ps fs fs'" "\<forall>a \<in> set ps. \<not> prefix a p \<and> \<not> prefix p a"
  shows "blank fs' p"
proof -
  have "look fs' q = look fs q" if "prefix p q" for q
    by (rule changes_below_look [OF assms(2)]) (use assms(3) that prefix_same_cases in blast)
  then show ?thesis using assms(1) by (simp add: blank_def dir_at_def strict_prefix_def)
qed

lemma wp_reads: "reads_only m \<Longrightarrow> (\<And>r w'. same_env w w' \<Longrightarrow> files w' = files w \<Longrightarrow> Q r w') \<Longrightarrow> wp m Q w"
  by (rule wp_mono [OF reads_only_wp]) auto

lemma abs_string_top: "abs_string [] = ''/''"
  by (simp add: abs_string_def)

lemma mkdir_parent_abs: "plain_name c \<Longrightarrow> mkdir_parent (abs_string (d @ [c])) = in_dir d"
  and mkdir_parent_root: "mkdir_parent (abs_string []) = []"
proof -
  show "mkdir_parent (abs_string []) = []" by (simp add: mkdir_parent_def abs_string_def)
  assume c: "plain_name c"
  then have ne: "c \<noteq> []" "SLASH \<notin> set c" by (simp_all add: plain_nameD)
  have a: "abs_string (d @ [c]) = in_dir d @ c" by (simp add: in_dir_name)
  have "dropWhile (\<lambda>x. x = SLASH) (rev c @ rev (in_dir d)) = rev c @ rev (in_dir d)"
    using ne by (cases "rev c") auto
  moreover have "dropWhile (\<lambda>x. x \<noteq> SLASH) (rev c @ rev (in_dir d)) = rev (in_dir d)"
    using ne by (subst dropWhile_append2) (auto simp: in_dir_def)
  ultimately show "mkdir_parent (abs_string (d @ [c])) = in_dir d"
    by (simp add: mkdir_parent_def a)
qed

lemma butlast_in_dir: "d \<noteq> [] \<Longrightarrow> butlast (in_dir d) = abs_string d"
  and length_in_dir: "length (in_dir d) > 1 \<longleftrightarrow> d \<noteq> []"
  by (auto simp: in_dir_def abs_string_def butlast_append)

text \<open>\<^verbatim>\<open>MkdirAll\<close> of a directory that exists changes nothing; below one it makes at most the one
  directory that is missing.\<close>

lemma reads_only_Stat_env: "wp (os_Stat s) (\<lambda>_ w'. files w' = files w \<and> same_env w w') w"
  by (rule reads_only_wp) simp

lemma wp_Mkdir:
  assumes "resolve False w s = Inr p" "\<And>e. Q (Inl e) (tick w)"
    and "\<And>m. look (files w) p = None \<Longrightarrow> Q (Inr ()) ((tick w)\<lparr>files := fs_set p (Dir m) (files w)\<rparr>)"
  shows "wp (os_Mkdir s perm) Q w"
  unfolding os_Mkdir_def by (rule wp_at_path_res [OF assms(1)]) (use assms(2,3) in \<open>auto split: option.split\<close>)

lemma resolve_root: "dir_at (files w) [] \<Longrightarrow> resolve f w (abs_string []) = Inr []"
  by (simp add: resolve_abs_string)

lemma resolve_real_dir_any:
  "real_dirs (files w) d \<Longrightarrow> list_all plain_name d \<Longrightarrow> resolve f w (abs_string d) = Inr d"
  by (rule resolve_real_dir)

abbreviation unmoved :: "world \<Rightarrow> unit result \<Rightarrow> world \<Rightarrow> bool" where
  "unmoved w r v \<equiv> files v = files w \<and> same_env w v \<and> (calm w \<longrightarrow> r = Inr ())"

lemma wp_MkdirAll_gen:
  assumes r: "\<And>v. files v = files w \<Longrightarrow> same_env w v \<Longrightarrow> resolve False v s = Inr p"
    and st: "\<And>v. files v = files w \<Longrightarrow> same_env w v \<Longrightarrow> resolve True v s = Inr p"
    and nl: "look (files w) p = None \<or> dir_at (files w) p"
    and up: "\<And>v. length (mkdir_parent s) > 1 \<Longrightarrow> files v = files w \<Longrightarrow> same_env w v \<Longrightarrow>
        wp (os_MkdirAll (butlast (mkdir_parent s)) perm)
          (\<lambda>r w'. files w' = files w \<and> same_env w w' \<and> (calm w \<longrightarrow> r = Inr ())) v"
    and E: "\<And>e w'. \<not> calm w \<Longrightarrow> same_env w w' \<Longrightarrow> files w' = files w \<Longrightarrow> Q (Inl e) w'"
    and D: "\<And>w'. same_env w w' \<Longrightarrow> files w' = files w \<Longrightarrow> dir_at (files w) p \<Longrightarrow> Q (Inr ()) w'"
    and S: "\<And>m w'. same_env w w' \<Longrightarrow> look (files w) p = None \<Longrightarrow> files w' = fs_set p (Dir m) (files w) \<Longrightarrow> Q (Inr ()) w'"
  shows "wp (os_MkdirAll s perm) Q w"
proof -
  let ?R = "\<lambda>r v. files v = files w \<and> same_env w v \<and> (calm w \<longrightarrow> r = Inr ())"
  let ?P = "\<lambda>x v. files v = files w \<and> same_env w v \<and>
      (case x of Inr i \<Rightarrow> fi_IsDir i \<and> dir_at (files w) p | Inl _ \<Rightarrow> calm w \<longrightarrow> look (files w) p = None)"
  have stat: "wp (os_Stat s) ?P w" and lstat: "files v = files w \<and> same_env w v \<Longrightarrow> wp (os_Lstat s) ?P v" for v
    unfolding os_Stat_def os_Lstat_def using nl
    by (auto intro!: wp_at_path_reads [OF st] wp_at_path_reads [OF r]
        simp: fi_IsDir_iff is_dir_iff dir_at_iff split: option.split)
  have ls: "wp (do { l \<leftarrow> os_Lstat s;
       State_Monad.return (case l of Inr i \<Rightarrow> if fi_IsDir i then Inr () else Inl e | Inl _ \<Rightarrow> Inl e) }) Q v"
    if "files v = files w" "same_env w v" "\<not> (calm w \<and> look (files w) p = None)" for v e
    by (rule wp_bindI [OF lstat]) (use that in \<open>auto split: sum.splits intro: E D\<close>)
  have mk: "wp (do { m \<leftarrow> os_Mkdir s perm;
       case m of
         Inr _ \<Rightarrow> ok ()
       | Inl e \<Rightarrow> do { l \<leftarrow> os_Lstat s;
           State_Monad.return (case l of Inr i \<Rightarrow> if fi_IsDir i then Inr () else Inl e | Inl _ \<Rightarrow> Inl e) } }) Q v"
    if v: "files v = files w" "same_env w v" for v
    unfolding wp_bind [of "os_Mkdir _ _"] unfolding os_Mkdir_def
    by (rule wp_at_path_fair [OF r [OF v]])
      (use v same_env_calm [OF v(2)] in \<open>auto simp del: wp_bind intro!: ls S split: option.split\<close>)
  have par: "wp (if length (mkdir_parent s) > 1 then os_MkdirAll (butlast (mkdir_parent s)) perm else ok ()) ?R v"
    if "files v = files w" "same_env w v" for v
    using up that by simp
  show ?thesis
    unfolding os_MkdirAll.simps [of s]
  proof (rule wp_bindI [OF stat], goal_cases)
    case (1 a v)
    then show ?case
    proof (cases a)
      case (Inl e)
      then show ?thesis
        using 1 by (simp only: sum.case) (rule wp_bindI [OF par], auto simp del: wp_bind split: sum.split intro: E mk)
    qed (auto intro: D)
  qed
qed


lemma wp_MkdirAll_exists:
  "real_dirs (files w) d \<Longrightarrow> list_all plain_name d \<Longrightarrow> files v = files w \<Longrightarrow> same_env w v \<Longrightarrow>
     wp (os_MkdirAll (abs_string d) perm) (unmoved w) v"
proof (induction d arbitrary: v rule: rev_induct)
  case Nil
  then have "dir_at (files w) []" by (simp add: real_dirs_iff)
  then show ?case
    using Nil same_env_calm [OF Nil(4)]
    by (intro wp_MkdirAll_gen [of v _ "[]"])
      (auto simp: mkdir_parent_root resolve_abs_string dir_at_iff intro: same_env_trans)
next
  case (snoc c d)
  then have d: "real_dirs (files w) d" "list_all plain_name d" "plain_name c" "dir_at (files w) (d @ [c])"
    by (auto simp: real_dirs_snoc)
  have res: "resolve f u (abs_string (d @ [c])) = Inr (d @ [c])" if "files u = files v" for f u
    by (rule resolve_real_dir) (use that snoc.prems in auto)
  show ?case
  proof (rule wp_MkdirAll_gen [OF res res])
    show "wp (os_MkdirAll (butlast (mkdir_parent (abs_string (d @ [c])))) perm) (unmoved v) u"
      if u: "length (mkdir_parent (abs_string (d @ [c]))) > 1" "files u = files v" "same_env v u" for u
      using d u snoc.prems length_in_dir [of d] same_env_calm [OF snoc.prems(4)]
      by (auto simp: mkdir_parent_abs butlast_in_dir intro!: wp_mono [OF snoc.IH] intro: same_env_trans)
        (auto simp: same_env_def)
  qed (use d(4) snoc.prems same_env_calm [OF snoc.prems(4)] in \<open>auto simp: dir_at_iff intro: same_env_trans\<close>)
qed

text \<open>One level below a directory that exists.\<close>

lemma wp_MkdirAll_below:
  assumes d: "real_dirs (files w) d" "list_all plain_name d" "plain_name c"
    and nl: "look (files w) (d @ [c]) = None \<or> dir_at (files w) (d @ [c])"
    and E: "\<And>e w'. \<not> calm w \<Longrightarrow> same_env w w' \<Longrightarrow> files w' = files w \<Longrightarrow> Q (Inl e) w'"
    and D: "\<And>w'. same_env w w' \<Longrightarrow> files w' = files w \<Longrightarrow> dir_at (files w) (d @ [c]) \<Longrightarrow> Q (Inr ()) w'"
    and S: "\<And>m w'. same_env w w' \<Longrightarrow> look (files w) (d @ [c]) = None \<Longrightarrow>
       files w' = fs_set (d @ [c]) (Dir m) (files w) \<Longrightarrow> Q (Inr ()) w'"
  shows "wp (os_MkdirAll (abs_string (d @ [c])) perm) Q w"
proof (rule wp_MkdirAll_gen [where p = "d @ [c]"])
  show "resolve False v (abs_string (d @ [c])) = Inr (d @ [c])" if "files v = files w" for v
    by (rule resolve_nofollow) (use that d in auto)
  show "resolve True v (abs_string (d @ [c])) = Inr (d @ [c])" if "files v = files w" for v
    by (rule resolve_notlink) (use that d nl in \<open>auto simp: dir_at_iff\<close>)
  show "wp (os_MkdirAll (butlast (mkdir_parent (abs_string (d @ [c])))) perm) (unmoved w) v"
    if "length (mkdir_parent (abs_string (d @ [c]))) > 1" "files v = files w" "same_env w v" for v
    using wp_MkdirAll_exists [OF d(1,2) that(2,3)] d that length_in_dir [of d]
    by (simp add: mkdir_parent_abs butlast_in_dir)
qed (fact nl E D S)+

lemma Clean_in_dir: "list_all plain_name d \<Longrightarrow> Clean (in_dir d) = abs_string d"
proof (cases "d = []")
  case False
  assume p: "list_all plain_name d"
  have "Split (abs_string d @ SLASH # []) SLASH = Split (abs_string d) SLASH @ [[]]"
    by (simp only: Split_append_gen Split.simps)
  moreover have "clean_comps True [] (([] # d) @ [[]]) = d"
    using p by (simp add: clean_comps_append_plain)
  moreover have "is_abs (abs_string d @ ''/'')" by (simp add: abs_string_def is_abs_def HasPrefix_def)
  ultimately show ?thesis
    using False by (simp add: Clean_def in_dir_def Split_abs_string [OF p] Let_def) (simp add: abs_string_def)
next
  case True
  then show ?thesis using Clean_abs_string [of "[]"] by (simp add: in_dir_def abs_string_def)
qed

lemma PathDir_abs: "list_all plain_name d \<Longrightarrow> plain_name c \<Longrightarrow> PathDir (abs_string (d @ [c])) = abs_string d"
  by (simp add: PathDir_def PathSplit_in_dir Clean_in_dir)

text \<open>What a copy may do: change its target and what is below it, but a directory stays one.\<close>

definition touched :: "path \<Rightarrow> world \<Rightarrow> world \<Rightarrow> bool" where
  "touched p w w' \<longleftrightarrow> same_env w w' \<and> changes_below [p] (files w) (files w') \<and>
     (dir_at (files w) p \<longrightarrow> dir_at (files w') p)"

lemma touched_refl [simp]: "touched p w w"
  by (simp add: touched_def)

lemma touched_trans: "touched p w v \<Longrightarrow> touched p v w' \<Longrightarrow> touched p w w'"
  unfolding touched_def by (blast intro: same_env_trans changes_below_trans)

lemma touched_files: "same_env w v \<Longrightarrow> files v = files w \<Longrightarrow> touched p w v"
  by (simp add: touched_def)

lemma touched_idle: "touched p w v \<Longrightarrow> same_env v w' \<Longrightarrow> files w' = files v \<Longrightarrow> touched p w w'"
  by (auto simp: touched_def intro: same_env_trans)

lemma touched_up: "touched (p @ [c]) w w' \<Longrightarrow> touched p w w'"
proof -
  assume t: "touched (p @ [c]) w w'"
  then have "look (files w') p = look (files w) p"
    by (intro changes_below_look) (auto simp: touched_def)
  with t show ?thesis by (auto simp: touched_def dir_at_def elim: changes_below_mono)
qed

lemma touched_dirs: "touched (d @ [c]) w v \<Longrightarrow> real_dirs (files w) d \<Longrightarrow> real_dirs (files v) d"
  unfolding touched_def by (elim conjE, rule changes_below_real_dirs) auto

lemma lcopy_frame:
  assumes "real_dirs (files w) d" "list_all plain_name (d @ [c])"
  shows "wp (lcopy src (abs_string (d @ [c]))) (\<lambda>_. touched (d @ [c]) w) w"
proof -
  have sym: "wp (os_Symlink t (abs_string (d @ [c]))) (\<lambda>_. touched (d @ [c]) w) v"
    if v: "same_env w v" "files v = files w" for t v
    unfolding os_Symlink_def
    by (rule wp_at_path_res [OF resolve_nofollow])
      (use v assms in \<open>auto simp: touched_def dir_at_def split: option.splits\<close>)
  show ?thesis
    unfolding lcopy_def wp_check
    by (rule wp_reads) (auto intro: sym touched_files split: sum.split)
qed

lemma is_dir_map_meta [simp]: "is_dir (map_meta f n) = is_dir n"
  by (cases n) auto

lemma dir_at_is_dir: "dir_at fs p \<longleftrightarrow> (\<exists>n. look fs p = Some n \<and> is_dir n)"
  by (auto simp: dir_at_iff is_dir_iff)

lemma is_dir_append_reg [simp]: "is_dir (append_reg d n) = is_dir n"
  by (cases n) (simp_all add: append_reg_def)

lemma wp_Chmod_frame:
  assumes "resolve True w s = Inr p" and "\<And>r w'. touched p w w' \<Longrightarrow> Q r w'"
  shows "wp (os_Chmod s m) Q w"
  unfolding os_Chmod_def
  by (rule wp_at_path_res [OF assms(1)])
    (auto split: option.split intro!: assms(2) simp: touched_def dir_at_is_dir)

lemma io_Copy_frame: "wp (io_Copy f s) (\<lambda>_. touched f w) w"
  unfolding io_Copy_def wp_bind wp_get
  by (auto simp: wp_Write touched_def dir_at_is_dir split: option.split node.split)

lemma close_touched: "touched p w v \<Longrightarrow> wp (fd_Close h) (\<lambda>_. touched p w) v"
  by (rule wp_reads) (auto intro: touched_idle)

lemma fcopy_data_frame:
  assumes v: "touched D w v"
  shows "wp (check (os_Open src) (\<lambda>s. finally_report (io_Copy D s) (fd_Close s))) (\<lambda>x. wp (fd_Close D) (\<lambda>_. touched D w)) v"
proof -
  have op: "reads_only (os_Open src)"
    unfolding os_Open_def os_OpenFile_def
    by (rule reads_only_at_path) (auto split: option.splits if_splits node.splits)
  have cp: "wp (io_Copy D s) (\<lambda>_ v'. wp (fd_Close s) (\<lambda>_. wp (fd_Close D) (\<lambda>_. touched D w)) v') u"
    if "touched D w u" for s u
    by (rule wp_mono [OF io_Copy_frame], rule wp_reads [OF reads_only_Close], rule close_touched)
      (use that in \<open>auto intro: touched_idle touched_trans\<close>)
  show ?thesis
    unfolding wp_check wp_finally
    by (rule wp_reads [OF op]) (auto split: sum.split intro!: close_touched cp intro: touched_idle [OF v])
qed

lemma fcopy_body_frame:
  assumes d: "real_dirs (files w) d" "list_all plain_name d" "plain_name c"
    and v: "touched (d @ [c]) w v" "look (files v) (d @ [c]) = Some (Reg me dat)"
  shows "wp (check (os_Chmod (abs_string (d @ [c])) m) (\<lambda>_. check (os_Open src) (\<lambda>s. finally_report (io_Copy (d @ [c]) s) (fd_Close s))))
      (\<lambda>x. wp (fd_Close (d @ [c])) (\<lambda>_. touched (d @ [c]) w)) v"
  unfolding wp_check [of "os_Chmod _ _"]
proof (rule wp_Chmod_frame [OF resolve_notlink])
  fix r v' assume "touched (d @ [c]) v v'"
  then have "touched (d @ [c]) w v'" by (rule touched_trans [OF v(1)])
  then show "case r of Inl e \<Rightarrow> wp (fd_Close (d @ [c])) (\<lambda>_. touched (d @ [c]) w) v'
    | Inr _ \<Rightarrow> wp (check (os_Open src) (\<lambda>s. finally_report (io_Copy (d @ [c]) s) (fd_Close s)))
        (\<lambda>x. wp (fd_Close (d @ [c])) (\<lambda>_. touched (d @ [c]) w)) v'"
    by (simp only: close_touched fcopy_data_frame split: sum.split) simp
qed (use v d in \<open>auto intro: touched_dirs\<close>)

lemma fcopy_frame:
  assumes d: "real_dirs (files w) d" and p: "list_all plain_name d" "plain_name c"
    and b: "blank (files w) (d @ [c])"
  shows "wp (fcopy src (abs_string (d @ [c])) info) (\<lambda>_. touched (d @ [c]) w) w"
proof -
  let ?D = "d @ [c]"
  have crt: "wp (check (os_OpenFile (abs_string ?D) O_create 0x1B6) (\<lambda>f.
       finally_report (check (os_Chmod (abs_string ?D) m) (\<lambda>_.
          check (os_Open src) (\<lambda>s. finally_report (io_Copy f s) (fd_Close s)))) (fd_Close f)))
       (\<lambda>_. touched ?D w) v"
    if v: "same_env w v" "files v = files w" for v m
    unfolding wp_check os_OpenFile_def
    by (rule wp_at_path_res [OF resolve_notlink])
      (use v d p b fcopy_body_frame [OF d p] in \<open>auto simp: blank_def dir_at_iff touched_files split: option.split
        simp: touched_def\<close>)
  show ?thesis
    unfolding fcopy_def PathDir_abs [OF p]
    unfolding wp_check [of "os_MkdirAll _ _"]
    by (rule wp_mono [OF wp_MkdirAll_exists [OF d p(1) HOL.refl same_env_simps(1)]])
      (simp only: touched_files crt split: sum.split, simp)
qed

text \<open>Below a directory, the directory itself unchanged.\<close>

definition touched_in :: "path \<Rightarrow> world \<Rightarrow> world \<Rightarrow> bool" where
  "touched_in p w w' \<longleftrightarrow> touched p w w' \<and> look (files w') p = look (files w) p"

lemma touched_in_child: "touched (p @ [c]) w w' \<Longrightarrow> touched_in p w w'"
  unfolding touched_in_def by (auto intro: touched_up) (auto simp: touched_def intro: changes_below_look)

lemma touched_in_trans: "touched_in p w v \<Longrightarrow> touched_in p v w' \<Longrightarrow> touched_in p w w'"
  by (auto simp: touched_in_def intro: touched_trans)

lemma touched_in_dirs:
  "touched_in (d @ [c]) w v \<Longrightarrow> real_dirs (files w) (d @ [c]) \<Longrightarrow> real_dirs (files v) (d @ [c])"
  by (auto simp: touched_in_def real_dirs_snoc dir_at_def intro: touched_dirs)

lemma copy_loop_frame:
  assumes step: "\<And>src c info v. real_dirs (files v) p \<Longrightarrow> list_all plain_name (p @ [c]) \<Longrightarrow>
       blank (files v) (p @ [c]) \<Longrightarrow>
       wp (copy_switchboard n src (abs_string (p @ [c])) info) (\<lambda>_. touched (p @ [c]) v) v"
  shows "real_dirs (files w) p \<Longrightarrow> list_all plain_name p \<Longrightarrow> distinct (map fi_name cs) \<Longrightarrow>
     \<forall>x \<in> set cs. plain_name (fi_name x) \<and> blank (files w) (p @ [fi_name x]) \<Longrightarrow>
     wp (for_check cs (\<lambda>x. copy_switchboard n (PathJoin [src, fi_name x]) (PathJoin [abs_string p, fi_name x]) x))
        (\<lambda>_. touched_in p w) w"
proof (induction cs arbitrary: w)
  case Nil
  show ?case by (simp add: touched_in_def)
next
  case (Cons x cs)
  let ?c = "p @ [fi_name x]"
  have j: "PathJoin [abs_string p, fi_name x] = abs_string ?c"
    by (rule PathJoin_abs) (use Cons.prems in auto)
  have first: "wp (copy_switchboard n (PathJoin [src, fi_name x]) (abs_string ?c) x) (\<lambda>_. touched ?c w) w"
    by (rule step) (use Cons.prems in auto)
  have rest: "wp (for_check cs (\<lambda>x. copy_switchboard n (PathJoin [src, fi_name x]) (PathJoin [abs_string p, fi_name x]) x))
        (\<lambda>_. touched_in p w) v" if v: "touched ?c w v" for v
  proof (rule wp_mono [OF Cons.IH])
    show "real_dirs (files v) p" using v Cons.prems(1) by (rule touched_dirs)
    show "\<forall>y \<in> set cs. plain_name (fi_name y) \<and> blank (files v) (p @ [fi_name y])"
    proof
      fix y assume y: "y \<in> set cs"
      then have ne: "fi_name x \<noteq> fi_name y" using Cons.prems(3) by auto
      have "blank (files v) (p @ [fi_name y])"
        by (rule blank_outside [where ps = "[?c]"])
          (use v Cons.prems(4) y ne in \<open>auto simp: touched_def\<close>)
      with y Cons.prems(4) show "plain_name (fi_name y) \<and> blank (files v) (p @ [fi_name y])" by auto
    qed
    show "touched_in p w u" if "touched_in p v u" for u
      by (rule touched_in_trans [OF touched_in_child [OF v] that])
  qed (use Cons.prems in auto)
  show ?case
    unfolding for_check.simps wp_check j
    by (rule wp_mono [OF first]) (auto split: sum.split intro: touched_in_child rest)
qed

definition dir_entries :: "fsys \<Rightarrow> path \<Rightarrow> string list \<Rightarrow> finfo list" where
  "dir_entries fs p cs = concat (map (\<lambda>c. case look fs (p @ [c]) of
       None \<Rightarrow> [] | Some n \<Rightarrow> [\<lparr>fi_name = c, fi_node = n\<rparr>]) cs)"

lemma dir_entries_names: "map fi_name (dir_entries fs p cs) = filter (\<lambda>c. look fs (p @ [c]) \<noteq> None) cs"
  by (induction cs) (auto simp: dir_entries_def split: option.split)

lemma dir_entries_set:
  "x \<in> set (dir_entries fs p cs) \<longleftrightarrow> fi_name x \<in> set cs \<and> look fs (p @ [fi_name x]) = Some (fi_node x)"
  by (induction cs) (auto simp: dir_entries_def split: option.splits)

lemma wp_ReadDir:
  assumes "\<And>e w'. same_env w w' \<Longrightarrow> files w' = files w \<Longrightarrow> Q (Inl e) w'"
    and "\<And>cs w'. same_env w w' \<Longrightarrow> files w' = files w \<Longrightarrow> distinct (map fi_name cs) \<Longrightarrow>
       (\<forall>x \<in> set cs. plain_name (fi_name x)) \<Longrightarrow> Q (Inr cs) w'"
  shows "wp (ioutil_ReadDir s) Q w"
proof -
  have "Q (Inr (dir_entries (files w) p (fs_names (files w) p))) w'" if "same_env w w'" "files w' = files w" for p w'
    by (rule assms(2) [OF that])
      (auto simp: dir_entries_names dir_entries_set dest: fs_names_look)
  then show ?thesis
    unfolding ioutil_ReadDir_def dir_entries_def [symmetric]
    by (intro wp_at_path_any) (auto split: option.split node.split intro: assms(1) simp: dir_entries_def [symmetric])
qed

text \<open>A directory, once its target is there: the entries one by one, then its permissions.\<close>

abbreviation copy_each :: "nat \<Rightarrow> string \<Rightarrow> string \<Rightarrow> finfo list \<Rightarrow> unit result io" where
  "copy_each n src dest cs \<equiv> for_check cs (\<lambda>c.
     copy_switchboard n (PathJoin [src, fi_name c]) (PathJoin [dest, fi_name c]) c)"

abbreviation copy_into :: "nat \<Rightarrow> string \<Rightarrow> string \<Rightarrow> finfo \<Rightarrow> unit result io" where
  "copy_into n src dest info \<equiv> finally_report (check (ioutil_ReadDir src) (copy_each n src dest)) (os_Chmod dest (fi_Mode info))"

lemma copy_into_frame:
  assumes IH: "\<And>w d c src info. real_dirs (files w) d \<Longrightarrow> list_all plain_name (d @ [c]) \<Longrightarrow> blank (files w) (d @ [c]) \<Longrightarrow>
      wp (copy_switchboard n src (abs_string (d @ [c])) info) (\<lambda>_. touched (d @ [c]) w) w"
    and D: "list_all plain_name (d @ [c])" and v: "touched (d @ [c]) w v" "real_dirs (files v) (d @ [c])" "blank (files v) (d @ [c])"
  shows "wp (copy_into n src (abs_string (d @ [c])) info) (\<lambda>_. touched (d @ [c]) w) v"
proof -
  let ?D = "d @ [c]"
  have chm: "wp (os_Chmod (abs_string ?D) m) (\<lambda>_. touched ?D w) u"
    if u: "touched_in ?D v u" for u m
    by (rule wp_Chmod_frame [OF resolve_real_dir [OF touched_in_dirs [OF u v(2)] D]])
      (use u v(1) in \<open>auto simp: touched_in_def intro: touched_trans\<close>)
  have child: "blank (files v) (d @ [c, x])" for x using blank_child [OF v(3), of x] by simp
  have loop: "wp (copy_each n src (abs_string ?D) cs) (\<lambda>_. wp (os_Chmod (abs_string ?D) m) (\<lambda>_. touched ?D w)) u"
    if u: "same_env v u" "files u = files v" and cs: "distinct (map fi_name cs)" "\<forall>x \<in> set cs. plain_name (fi_name x)"
    for cs u m
    by (rule wp_mono [OF copy_loop_frame [OF IH]])
      (use u cs v D in \<open>auto intro: child intro!: chm simp: touched_in_def
        intro: touched_trans [OF touched_files]\<close>)
  have idle: "touched_in ?D v u" if "same_env v u" "files u = files v" for u
    using that by (simp add: touched_in_def touched_files)
  show ?thesis
    unfolding wp_finally wp_check
    by (rule wp_ReadDir) (simp_all add: chm idle loop)
qed

lemma copy_made_frame:
  assumes d: "real_dirs (files w) d" "list_all plain_name (d @ [c])" "blank (files w) (d @ [c])"
    and body: "\<And>v. touched (d @ [c]) w v \<Longrightarrow> real_dirs (files v) (d @ [c]) \<Longrightarrow> blank (files v) (d @ [c]) \<Longrightarrow>
      wp m (\<lambda>_. touched (d @ [c]) w) v"
  shows "wp (check (os_MkdirAll (abs_string (d @ [c])) perm) (\<lambda>_. m)) (\<lambda>_. touched (d @ [c]) w) w"
  unfolding wp_check
proof (rule wp_MkdirAll_below, goal_cases)
  case 4
  then show ?case using d(3) by (simp add: blank_def)
next
  case (6 v)
  then show ?case
    unfolding sum.case by (intro body) (use d in \<open>auto simp: touched_files real_dirs_snoc\<close>)
next
  case (7 me v)
  then have t: "touched (d @ [c]) w v" by (simp add: touched_def dir_at_iff)
  show ?case
    unfolding sum.case
    by (rule body [OF t]) (use 7 d touched_dirs [OF t d(1)] in \<open>auto simp: real_dirs_snoc blank_def dir_at_iff\<close>)
qed (use d in \<open>simp_all add: touched_files\<close>)

text \<open>A copy into a blank place touches only that place.\<close>

lemma copy_frame:
  "real_dirs (files w) d \<Longrightarrow> list_all plain_name (d @ [c]) \<Longrightarrow> blank (files w) (d @ [c]) \<Longrightarrow>
     wp (copy_switchboard n src (abs_string (d @ [c])) info) (\<lambda>_. touched (d @ [c]) w) w"
proof (induction n arbitrary: w d c src info)
  case (Suc n)
  have pl: "list_all plain_name d" "plain_name c" using Suc.prems(2) by auto
  have "wp (check (os_MkdirAll (abs_string (d @ [c])) 0x1ED) (\<lambda>_. copy_into n src (abs_string (d @ [c])) info))
      (\<lambda>_. touched (d @ [c]) w) w"
    by (rule copy_made_frame [OF Suc.prems copy_into_frame [OF Suc.IH Suc.prems(2)]])
  then show ?case
    unfolding copy_switchboard.simps
    using lcopy_frame [OF Suc.prems(1,2)] fcopy_frame [OF Suc.prems(1) pl Suc.prems(3)]
    by (simp del: wp_check)
qed simp

lemma wp_Copy_frame:
  assumes "real_dirs (files w) d" "list_all plain_name (d @ [c])" "blank (files w) (d @ [c])"
  shows "wp (copy_Copy src (abs_string (d @ [c]))) (\<lambda>_. touched (d @ [c]) w) w"
proof -
  have "wp (copy_switchboard 2048 src (abs_string (d @ [c])) i) (\<lambda>_. touched (d @ [c]) w) v"
    if "same_env w v" "files v = files w" for i v
    by (rule wp_mono [OF copy_frame]) (use that assms in \<open>auto intro: touched_trans [OF touched_files]\<close>)
  then show ?thesis
    unfolding copy_Copy_def wp_check by (intro wp_reads) (auto split: sum.split intro: touched_files)
qed

end
