(* ===== verification/Faithful.thy ===== *)
theory Faithful
  imports Copy
begin

text \<open>
  The tree copy of theory \<open>Copy\<close> copies: when it reports success, under whatever schedule of
  failures, every file, directory and link of the source is at its place in the target with its
  content, target and permissions, and nothing else is there; and in a calm world it does succeed
  on a tree of files, directories and links at most 2048 levels deep.
\<close>

subsection \<open>What a faithful copy is\<close>

text \<open>A file and its copy: the same content, target and permissions.\<close>

fun same_file :: "node \<Rightarrow> node \<Rightarrow> bool" where
  "same_file (Dir m) (Dir m') \<longleftrightarrow> m_perm m' = m_perm m AND 0xFFF"
| "same_file (Reg m d) (Reg m' d') \<longleftrightarrow> d' = d \<and> m_perm m' = m_perm m AND 0xFFF"
| "same_file (Lnk _ t) (Lnk _ t') \<longleftrightarrow> t' = t"
| "same_file _ _ \<longleftrightarrow> False"

definition faithful :: "fsys \<Rightarrow> path \<Rightarrow> fsys \<Rightarrow> path \<Rightarrow> bool" where
  "faithful fs p fs' q \<longleftrightarrow>
     (\<forall>r. list_all plain_name r \<longrightarrow> rel_option same_file (look fs (p @ r)) (look fs' (q @ r)))"

fun ordinary :: "node \<Rightarrow> bool" where
  "ordinary (Dir _) = True"
| "ordinary (Reg _ _) = True"
| "ordinary (Lnk _ _) = True"
| "ordinary _ = False"

definition copyable :: "nat \<Rightarrow> fsys \<Rightarrow> path \<Rightarrow> bool" where
  "copyable n fs p \<longleftrightarrow> (\<forall>r x. look fs (p @ r) = Some x \<longrightarrow> length r < n \<and> ordinary x)"

lemma copyable_list:
  "list_all (\<lambda>(q, x). prefix p q \<longrightarrow> length q < length p + n \<and> ordinary x) fs \<Longrightarrow> copyable n fs p"
  by (fastforce simp: copyable_def list_all_iff dest: map_of_SomeD)

lemma faithful_look:
  "faithful fs p fs' q \<Longrightarrow> rel_option same_file (look fs p) (look fs' q)"
  "faithful fs p fs' q \<Longrightarrow> plain_name c \<Longrightarrow> rel_option same_file (look fs (p @ [c])) (look fs' (q @ [c]))"
  unfolding faithful_def by (force dest: spec [of _ "[]"] spec [of _ "[c]"])+

lemma same_file_dir: "same_file n n' \<Longrightarrow> is_dir n' = is_dir n"
  by (cases "(n, n')" rule: same_file.cases) auto

lemma faithful_dir_at: "faithful fs p fs' q \<Longrightarrow> dir_at fs p \<Longrightarrow> dir_at fs' q"
  using faithful_look(1) [of fs p fs' q] same_file_dir
  by (auto simp: dir_at_is_dir rel_option_iff split: option.splits)

lemma faithful_names: "faithful fs p fs' q \<Longrightarrow> fs_names fs' q = fs_names fs p"
  by (rule fs_names_cong) (auto dest!: faithful_look(2))

subsection \<open>A single file\<close>

text \<open>\<open>shows_at w p m\<close>: the file system shows \<open>w\<close>'s files, with \<open>m\<close> at \<open>p\<close>.\<close>

definition shows_at :: "world \<Rightarrow> path \<Rightarrow> node \<Rightarrow> world \<Rightarrow> bool" where
  "shows_at w p n v \<longleftrightarrow> same_env w v \<and> map_of (files v) = (map_of (files w))(p \<mapsto> n)"

lemma shows_at_calm: "shows_at w p n v \<Longrightarrow> calm v = calm w"
  by (simp add: shows_at_def same_env_calm)

lemma map_of_simps:
  "map_of (fs_set p n fs) = (map_of fs)(p \<mapsto> n)"
  "map_of (fs_append p d fs) = (map_of fs)(p := map_option (append_reg d) (look fs p))"
  by (auto simp: fun_eq_iff)

lemma wp_Chmod_shows:
  assumes "resolve True v s = Inr p" "shows_at w p n v"
    and "\<And>e u. \<not> calm w \<Longrightarrow> shows_at w p n u \<Longrightarrow> Q (Inl e) u"
    and "\<And>u. shows_at w p (map_meta (chmod_meta (syscallMode m)) n) u \<Longrightarrow> Q (Inr ()) u"
  shows "wp (os_Chmod s m) Q v"
  unfolding os_Chmod_def
  by (rule wp_at_path_fair [OF assms(1)])
    (use assms(2-) in \<open>auto simp: shows_at_def same_env_calm map_of_simps\<close>)

lemma wp_Open_fair:
  assumes "resolve True v s = Inr p" "look (files v) p = Some n" "\<not> is_dir n"
    and "\<And>e. \<not> calm v \<Longrightarrow> Q (Inl e) (tick v)" "Q (Inr p) (tick v)"
  shows "wp (os_Open s) Q v"
  unfolding os_Open_def os_OpenFile_def
  by (rule wp_at_path_fair) (use assms in \<open>auto split: node.split\<close>)

text \<open>What a finished copy of a single file leaves.\<close>

definition file_copied :: "world \<Rightarrow> path \<Rightarrow> node \<Rightarrow> unit result \<Rightarrow> world \<Rightarrow> bool" where
  "file_copied w p n r u \<longleftrightarrow> same_env w u \<and>
     (case r of Inr _ \<Rightarrow> \<exists>n'. same_file n n' \<and> shows_at w p n' u | Inl _ \<Rightarrow> \<not> (calm w \<and> ordinary n))"

lemma file_copied_failed: "\<not> calm w \<Longrightarrow> same_env w u \<Longrightarrow> file_copied w p n (Inl e) u"
  by (simp add: file_copied_def)

lemma file_copied_tick: "file_copied w p n r u \<Longrightarrow> file_copied w p n r (tick u)"
  by (auto simp: file_copied_def shows_at_def split: sum.splits)

lemma wp_Close_copied:
  "file_copied w p n r v \<Longrightarrow> wp (fd_Close h) (\<lambda>x. file_copied w p n (case r of Inl e \<Rightarrow> Inl e | Inr _ \<Rightarrow> x)) v"
proof (rule wp_Close_fair)
  assume c: "file_copied w p n r v"
  have e: "same_env w v" using c by (simp add: file_copied_def)
  show "file_copied w p n (case r of Inl e \<Rightarrow> Inl e | Inr _ \<Rightarrow> Inl z) (tick v)" if "\<not> calm v" for z
    using that same_env_calm [OF e] e by (cases r) (simp_all add: file_copied_failed)
  show "file_copied w p n (case r of Inl e \<Rightarrow> Inl e | Inr _ \<Rightarrow> Inr ()) (tick v)"
    using file_copied_tick [OF c] by (cases r) simp_all
qed

lemma io_Copy_copied:
  assumes "shows_at w p (Reg m []) v" "look (files w) s = Some n" "s \<noteq> p" "\<not> is_dir n" "\<not> is_lnk n"
    and "m_perm m = m_perm (node_meta n) AND 0xFFF"
  shows "wp (io_Copy p s) (file_copied w p n) v"
proof (cases n)
  case (Reg m' dat)
  then have "same_file n (Reg m dat)" using assms by simp
  then show ?thesis
    using assms Reg
    by (auto simp: io_Copy_def wp_Write file_copied_def shows_at_def map_of_simps split: option.split
      dest!: same_env_calm intro!: exI [of _ "Reg m dat"])
qed (use assms in \<open>auto simp: io_Copy_def file_copied_def shows_at_def\<close>)

text \<open>The names of a file to copy: \<open>P\<close> shows the file \<open>n\<close>, \<open>D\<close> is the new file beside it.\<close>

definition file_ready :: "fsys \<Rightarrow> path \<Rightarrow> string \<Rightarrow> path \<Rightarrow> string \<Rightarrow> node \<Rightarrow> bool" where
  "file_ready fs s x d c n \<longleftrightarrow>
     real_dirs fs s \<and> list_all plain_name (s @ [x]) \<and> look fs (s @ [x]) = Some n \<and>
     real_dirs fs d \<and> list_all plain_name (d @ [c]) \<and> look fs (d @ [c]) = None \<and> \<not> is_dir n \<and> \<not> is_lnk n"

lemma file_ready_shows:
  assumes "file_ready (files w) s x d c n" "shows_at w (d @ [c]) (Reg m dat) v"
  shows "real_dirs (files v) s" "real_dirs (files v) d" "same_env w v" "calm v = calm w"
    "look (files v) (d @ [c]) = Some (Reg m dat)" "look (files v) (s @ [x]) = Some n" "s @ [x] \<noteq> d @ [c]"
  using assms same_env_calm [of w v] by (auto simp: file_ready_def real_dirs_iff dir_at_def shows_at_def)

abbreviation copy_data :: "path \<Rightarrow> path \<Rightarrow> unit result io" where
  "copy_data S D \<equiv> check (os_Open (abs_string S)) (\<lambda>h. finally_report (io_Copy D h) (fd_Close h))"

lemma copy_data_copied:
  assumes f: "file_ready (files w) s x d c n" and v: "shows_at w (d @ [c]) (Reg m []) v" "m_perm m = m_perm (node_meta n) AND 0xFFF"
  shows "wp (copy_data (s @ [x]) (d @ [c])) (file_copied w (d @ [c]) n) v"
  unfolding wp_check
proof (rule wp_Open_fair)
  note s = file_ready_shows [OF f v(1)]
  have n: "\<not> is_dir n" "\<not> is_lnk n" "list_all plain_name (s @ [x])" "look (files w) (s @ [x]) = Some n"
    using f by (simp_all add: file_ready_def)
  show "resolve True v (abs_string (s @ [x])) = Inr (s @ [x])"
    by (rule resolve_notlink) (use s n in auto)
  show "look (files v) (s @ [x]) = Some n" "\<not> is_dir n" by fact+
  show "case Inl e of Inl e \<Rightarrow> file_copied w (d @ [c]) n (Inl e) (tick v)
     | Inr h \<Rightarrow> wp (finally_report (io_Copy (d @ [c]) h) (fd_Close h)) (file_copied w (d @ [c]) n) (tick v)"
    if "\<not> calm v" for e
    using that s(3,4) by (simp add: file_copied_failed)
  show "case Inr (s @ [x]) of Inl e \<Rightarrow> file_copied w (d @ [c]) n (Inl e) (tick v)
     | Inr h \<Rightarrow> wp (finally_report (io_Copy (d @ [c]) h) (fd_Close h)) (file_copied w (d @ [c]) n) (tick v)"
    unfolding sum.case
    by (rule wp_finallyI [OF io_Copy_copied wp_Close_copied]) (use v n s(7) in \<open>auto simp: shows_at_def\<close>)
qed

lemma copy_body_copied:
  assumes f: "file_ready (files w) s x d c (fi_node i)" and v: "shows_at w (d @ [c]) (Reg m []) v"
  shows "wp (finally_report (check (os_Chmod (abs_string (d @ [c])) (fi_Mode i)) (\<lambda>_. copy_data (s @ [x]) (d @ [c])))
      (fd_Close (d @ [c]))) (file_copied w (d @ [c]) (fi_node i)) v"
proof (rule wp_finallyI [OF _ wp_Close_copied])
  note s = file_ready_shows [OF f v]
  show "wp (check (os_Chmod (abs_string (d @ [c])) (fi_Mode i)) (\<lambda>_. copy_data (s @ [x]) (d @ [c])))
      (file_copied w (d @ [c]) (fi_node i)) v"
    unfolding wp_check [of "os_Chmod _ _"]
    by (rule wp_Chmod_shows [OF resolve_notlink v])
      (use f s in \<open>auto simp del: wp_check intro!: copy_data_copied [OF f] file_copied_failed
         simp: file_ready_def shows_at_def fi_Mode_def syscallMode_go_mode\<close>)
qed

lemma fcopy_copies:
  assumes f: "file_ready (files w) s x d c (fi_node i)"
  shows "wp (fcopy (abs_string (s @ [x])) (abs_string (d @ [c])) i) (file_copied w (d @ [c]) (fi_node i)) w"
proof -
  have d: "real_dirs (files w) d" "list_all plain_name d" "plain_name c" "look (files w) (d @ [c]) = None"
    using f by (simp_all add: file_ready_def)
  have "wp (check (os_OpenFile (abs_string (d @ [c])) O_create 0x1B6) (\<lambda>h.
       finally_report (check (os_Chmod (abs_string (d @ [c])) (fi_Mode i)) (\<lambda>_.
          check (os_Open (abs_string (s @ [x]))) (\<lambda>s. finally_report (io_Copy h s) (fd_Close s)))) (fd_Close h)))
      (file_copied w (d @ [c]) (fi_node i)) v" if v: "files v = files w" "same_env w v" for v
    unfolding wp_check [of "os_OpenFile _ _ _"] unfolding os_OpenFile_def
    by (rule wp_at_path_fair [OF resolve_notlink])
      (use v d same_env_calm [OF v(2)] in
        \<open>auto simp del: wp_finally intro!: copy_body_copied [OF f] file_copied_failed simp: shows_at_def map_of_simps\<close>)
  moreover have "PathDir (abs_string (d @ [c])) = abs_string d" using d by (simp add: PathDir_abs)
  ultimately show ?thesis
    unfolding fcopy_def using d
    by (auto intro!: wp_checkI [OF wp_MkdirAll_exists [OF d(1)]] file_copied_failed simp del: wp_check)
qed

subsection \<open>Trees\<close>

definition same_tree :: "path \<Rightarrow> fsys \<Rightarrow> fsys \<Rightarrow> bool" where
  "same_tree p fs fs' \<longleftrightarrow> (\<forall>r. look fs' (p @ r) = look fs (p @ r))"

lemma same_tree_refl [simp]: "same_tree p fs fs"
  by (simp add: same_tree_def)

lemma same_tree_trans: "same_tree p fs fs' \<Longrightarrow> same_tree p fs' fs'' \<Longrightarrow> same_tree p fs fs''"
  by (simp add: same_tree_def)

lemma same_tree_apart: "changes_below ps fs fs' \<Longrightarrow> \<forall>q \<in> set ps. apart p q \<Longrightarrow> same_tree p fs fs'"
  unfolding same_tree_def using apart_below [of p _ "[]", simplified] by (blast intro: changes_below_look)

lemma same_tree_child: "same_tree p fs fs' \<Longrightarrow> same_tree (p @ r) fs fs'"
  by (simp add: same_tree_def)

lemma faithful_cong:
  "same_tree p fs fs1 \<Longrightarrow> same_tree q fs' fs2 \<Longrightarrow> faithful fs1 p fs2 q \<longleftrightarrow> faithful fs p fs' q"
  by (simp add: faithful_def same_tree_def)

text \<open>What exists below \<open>p\<close> lies in directories.\<close>

definition rooted :: "fsys \<Rightarrow> path \<Rightarrow> bool" where
  "rooted fs p \<longleftrightarrow> (\<forall>r c. look fs (p @ r @ [c]) \<noteq> None \<longrightarrow> dir_at fs (p @ r))"

lemma rooted_tree: "tree_fs fs \<Longrightarrow> rooted fs p"
  unfolding rooted_def using tree_fs_parent [of fs "p @ _"] by (auto simp del: append_assoc simp: append_assoc [symmetric])

lemma rooted_child: "rooted fs p \<Longrightarrow> rooted fs (p @ [c])"
  unfolding rooted_def by (metis append.assoc)

lemma rooted_cong: "same_tree p fs fs' \<Longrightarrow> rooted fs' p = rooted fs p"
  by (simp add: rooted_def same_tree_def dir_at_def)

lemma rooted_file:
  assumes "rooted fs p" "look fs p = Some n" "\<not> is_dir n" "r \<noteq> []"
  shows "look fs (p @ r) = None"
  using assms(4)
proof (induction r rule: rev_induct)
  case (snoc c r)
  then have "\<not> dir_at fs (p @ r)" using assms(2,3) by (cases "r = []") (auto simp: dir_at_is_dir)
  then show ?case using assms(1) unfolding rooted_def by blast
qed simp

lemma faithful_leaf:
  assumes "look fs p = Some n" "\<not> is_dir n" "rooted fs p" "look fs' q = Some n'" "same_file n n'"
    and "\<forall>r. strict_prefix q r \<longrightarrow> look fs' r = None"
  shows "faithful fs p fs' q"
  unfolding faithful_def
proof (intro allI impI)
  fix r
  show "rel_option same_file (look fs (p @ r)) (look fs' (q @ r))"
    using assms rooted_file [OF assms(3,1,2), of r] by (cases "r = []") (simp_all add: strict_prefix_def)
qed

text \<open>Copying a directory is copying its entries.\<close>

lemma faithful_dir:
  assumes "look fs p = Some n" "look fs' q = Some n'" "same_file n n'" "rooted fs p"
    and c: "\<And>c. plain_name c \<Longrightarrow> look fs (p @ [c]) \<noteq> None \<Longrightarrow> faithful fs (p @ [c]) fs' (q @ [c])"
    and e: "\<And>c r. plain_name c \<Longrightarrow> look fs (p @ [c]) = None \<Longrightarrow> look fs' (q @ c # r) = None"
  shows "faithful fs p fs' q"
  unfolding faithful_def
proof (intro allI impI)
  fix r :: path assume r: "list_all plain_name r"
  show "rel_option same_file (look fs (p @ r)) (look fs' (q @ r))"
  proof (cases r)
    case Nil
    then show ?thesis using assms(1,2,3) by simp
  next
    case (Cons c r')
    show ?thesis
    proof (cases "look fs (p @ [c])")
      case None
      have "look fs (p @ c # r') = None"
      proof (induction r' rule: rev_induct)
        case (snoc x xs)
        then have "\<not> dir_at fs (p @ c # xs)" by (simp add: dir_at_def)
        then show ?case using assms(4) unfolding rooted_def by (metis append_Cons)
      qed (simp add: None)
      then show ?thesis using e [of c r'] None r Cons by simp
    next
      case (Some a)
      then show ?thesis using c [of c] r Cons by (auto simp: faithful_def dest: spec [of _ r'])
    qed
  qed
qed

text \<open>How a copy ends, under every schedule of failures.\<close>

definition tree_copied :: "nat \<Rightarrow> world \<Rightarrow> path \<Rightarrow> path \<Rightarrow> unit result \<Rightarrow> world \<Rightarrow> bool" where
  "tree_copied n w p q r u \<longleftrightarrow>
     (case r of Inr _ \<Rightarrow> faithful (files w) p (files u) q | Inl _ \<Rightarrow> \<not> (calm w \<and> copyable n (files w) p))"

lemma copyable_cong: "same_tree p fs fs' \<Longrightarrow> copyable n fs' p = copyable n fs p"
  by (simp add: copyable_def same_tree_def)

lemma copyable_child: "copyable (Suc n) fs p \<Longrightarrow> copyable n fs (p @ [c])"
  unfolding copyable_def by (metis append.assoc append_Cons append_Nil length_Cons Suc_less_eq)

lemma tree_copied_from:
  assumes "tree_copied n v p q r u" "same_tree p (files w) (files v)" "same_env w v"
  shows "tree_copied n w p q r u"
  using assms faithful_cong [OF assms(2) same_tree_refl] copyable_cong [OF assms(2)] same_env_calm [OF assms(3)]
  by (auto simp: tree_copied_def split: sum.splits)

lemma copyable_look: "copyable n fs p \<Longrightarrow> look fs (p @ r) = Some x \<Longrightarrow> length r < n \<and> ordinary x"
  by (simp add: copyable_def)

definition vacant :: "fsys \<Rightarrow> path \<Rightarrow> bool" where
  "vacant fs p \<longleftrightarrow> (\<forall>r. look fs (p @ r) = None)"

lemma vacant_here: "vacant fs p \<Longrightarrow> look fs p = None"
  unfolding vacant_def by (metis append_Nil2)

lemma vacant_blank: "vacant fs p \<Longrightarrow> blank fs p"
  by (auto simp: vacant_here blank_def strict_prefix_def prefix_def) (simp add: vacant_def)

lemma blank_below: "blank fs p \<Longrightarrow> vacant fs (p @ [c])"
  by (simp add: blank_def vacant_def strict_prefix_def)

lemma vacant_apart: "vacant fs p \<Longrightarrow> changes_below [q] fs fs' \<Longrightarrow> apart p q \<Longrightarrow> vacant fs' p"
  using same_tree_apart [of "[q]" fs fs' p] by (simp add: vacant_def same_tree_def)

text \<open>What a loop over the entries \<open>cs\<close> of a directory \<open>p\<close> leaves.\<close>

definition entries_copied :: "nat \<Rightarrow> world \<Rightarrow> path \<Rightarrow> path \<Rightarrow> finfo list \<Rightarrow> unit result \<Rightarrow> world \<Rightarrow> bool" where
  "entries_copied n w p q cs r u \<longleftrightarrow>
     same_env w u \<and> changes_below (map (\<lambda>x. q @ [fi_name x]) cs) (files w) (files u) \<and>
     (case r of Inr _ \<Rightarrow> \<forall>x \<in> set cs. faithful (files w) (p @ [fi_name x]) (files u) (q @ [fi_name x])
        | Inl _ \<Rightarrow> \<not> (calm w \<and> copyable (Suc n) (files w) p))"

lemma entries_copied_failed:
  assumes "touched (q @ [fi_name x]) w u" "tree_copied n w (p @ [fi_name x]) (q @ [fi_name x]) (Inl e) u"
  shows "entries_copied n w p q (x # cs) (Inl e) u"
  using assms copyable_child [of n "files w" p]
  by (auto simp: entries_copied_def tree_copied_def touched_def intro: changes_below_mono)

lemma entries_copied_Cons:
  assumes x: "touched (q @ [fi_name x]) w v" "tree_copied n w (p @ [fi_name x]) (q @ [fi_name x]) (Inr ()) v"
    and cs: "entries_copied n v p q cs r u" "fi_name x \<notin> fi_name ` set cs" and ap: "apart p (q @ [fi_name x])"
  shows "entries_copied n w p q (x # cs) r u"
proof -
  let ?c = "q @ [fi_name x]"
  have v: "same_env w v" "changes_below [?c] (files w) (files v)" "faithful (files w) (p @ [fi_name x]) (files v) ?c"
    using x by (simp_all add: touched_def tree_copied_def)
  have u: "same_env v u" "changes_below (map (\<lambda>x. q @ [fi_name x]) cs) (files v) (files u)"
    using cs(1) by (simp_all add: entries_copied_def)
  have t: "same_tree p (files w) (files v)" by (rule same_tree_apart [OF v(2)]) (simp add: ap)
  have k: "same_tree ?c (files v) (files u)"
    by (rule same_tree_apart [OF u(2)]) (use cs(2) in \<open>auto simp: apart_def image_iff\<close>)
  have "changes_below (map (\<lambda>x. q @ [fi_name x]) (x # cs)) (files w) (files u)"
    by (rule changes_below_trans [OF changes_below_mono [OF v(2)] changes_below_mono [OF u(2)]]) auto
  then show ?thesis
    using cs(1) v(3) same_env_trans [OF v(1) u(1)] same_env_calm [OF v(1)] copyable_cong [OF t]
      faithful_cong [OF same_tree_child [OF t] same_tree_refl] faithful_cong [OF same_tree_refl k]
    by (auto simp: entries_copied_def split: sum.splits)
qed

lemma copy_loop_copies:
  assumes step: "\<And>x v. x \<in> set cs \<Longrightarrow> real_dirs (files v) s \<Longrightarrow> real_dirs (files v) d \<Longrightarrow> same_env w v \<Longrightarrow>
       same_tree p (files w) (files v) \<Longrightarrow> vacant (files v) (d @ [fi_name x]) \<Longrightarrow>
       wp (f x) (\<lambda>r u. touched (d @ [fi_name x]) v u \<and> tree_copied n v (p @ [fi_name x]) (d @ [fi_name x]) r u) v"
    and w: "real_dirs (files w) s" "real_dirs (files w) d" "apart p d" "apart s d"
    and cs: "distinct (map fi_name cs)" "\<forall>x \<in> set cs. vacant (files w) (d @ [fi_name x])"
  shows "wp (for_check cs f) (entries_copied n w p d cs) w"
  using assms
proof (induction cs arbitrary: w)
  case (Cons x cs)
  let ?c = "d @ [fi_name x]"
  have ap: "apart p ?c" "apart s ?c" using apart_children [of _ d "[]"] Cons.prems(4,5) by simp_all
  show ?case
    unfolding for_check.simps
  proof (rule wp_checkI [OF Cons.prems(1)], goal_cases)
    case (7 e u)
    then show ?case by (intro entries_copied_failed) simp_all
  next
    case (8 a v)
    then have v: "same_env w v" "changes_below [?c] (files w) (files v)" by (simp_all add: touched_def)
    have t: "same_tree p (files w) (files v)" by (rule same_tree_apart [OF v(2)]) (simp add: ap)
    have d: "real_dirs (files v) s" "real_dirs (files v) d"
      using Cons.prems(2,3) ap by (auto simp: apart_def intro: changes_below_real_dirs [OF v(2)])
    have other: "vacant (files v) (d @ [fi_name y])" if "y \<in> set cs" for y
      using that Cons.prems(6,7) by (intro vacant_apart [OF _ v(2)]) (auto simp: apart_def image_iff)
    have "wp (for_check cs f) (entries_copied n v p d cs) v"
    proof (rule Cons.IH, goal_cases)
      case (1 y u)
      then show ?case
        by (intro Cons.prems(1)) (use v t in \<open>auto intro: same_env_trans same_tree_trans\<close>)
    qed (use Cons.prems d other in auto)
    then show ?case
      by (rule wp_mono) (use 8 ap(1) Cons.prems(6) in \<open>auto intro: entries_copied_Cons\<close>)
  qed (use Cons.prems in auto)
qed (simp add: entries_copied_def)

lemma lcopy_copies:
  assumes s: "real_dirs (files w) s" "list_all plain_name (s @ [x])" "look (files w) (s @ [x]) = Some (Lnk a t)"
    and d: "real_dirs (files w) d" "list_all plain_name (d @ [c])" "look (files w) (d @ [c]) = None"
    and b: "rooted (files w) (s @ [x])" "blank (files w) (d @ [c])"
  shows "wp (lcopy (abs_string (s @ [x])) (abs_string (d @ [c]))) (tree_copied n w (s @ [x]) (d @ [c])) w"
  unfolding lcopy_def
proof (rule wp_checkI [where R = "\<lambda>r u. files u = files w \<and> same_env w u \<and> (case r of Inr t' \<Rightarrow> t' = t | Inl _ \<Rightarrow> \<not> calm w)"])
  show "wp (os_Readlink (abs_string (s @ [x]))) (\<lambda>r u. files u = files w \<and> same_env w u \<and>
      (case r of Inr t' \<Rightarrow> t' = t | Inl _ \<Rightarrow> \<not> calm w)) w"
    unfolding os_Readlink_def
    by (rule wp_at_path_fair [OF resolve_nofollow]) (use s in auto)
  show "wp (os_Symlink t' (abs_string (d @ [c]))) (tree_copied n w (s @ [x]) (d @ [c])) u"
    if u: "files u = files w \<and> same_env w u \<and> (case Inr t' of Inr t' \<Rightarrow> t' = t | Inl (_ :: goerr) \<Rightarrow> \<not> calm w)" for t' u
    unfolding os_Symlink_def
    by (rule wp_at_path_fair [OF resolve_nofollow])
      (use u d same_env_calm [of w u] b s(3) in \<open>auto simp: tree_copied_def blank_def strict_prefix_def
        intro!: faithful_leaf [OF s(3)]\<close>)
qed (simp add: tree_copied_def)

lemma wp_ReadDir_fair:
  assumes "resolve True v s = Inr p" "dir_at (files v) p"
    and "\<And>e. \<not> calm v \<Longrightarrow> Q (Inl e) (tick v)"
    and "Q (Inr (dir_entries (files v) p (fs_names (files v) p))) (tick v)"
  shows "wp (ioutil_ReadDir s) Q v"
  unfolding ioutil_ReadDir_def dir_entries_def [symmetric]
  by (rule wp_at_path_fair) (use assms in \<open>auto simp: dir_at_iff dir_entries_def [symmetric]\<close>)

text \<open>A directory whose entries are copied is copied once it has its permissions.\<close>

lemma entries_copied_all:
  assumes c: "entries_copied n w p q (dir_entries (files w) p (fs_names (files w) p)) (Inr ()) u"
    and p: "look (files w) p = Some m" "rooted (files w) p" and q: "blank (files w) q" and m: "same_file m m'"
  shows "faithful (files w) p (fs_set q m' (files u)) q"
proof (rule faithful_dir [OF p(1) _ m p(2)])
  let ?cs = "dir_entries (files w) p (fs_names (files w) p)"
  show "faithful (files w) (p @ [y]) (fs_set q m' (files u)) (q @ [y])"
    if y: "plain_name y" "look (files w) (p @ [y]) \<noteq> None" for y
  proof -
    obtain z where "look (files w) (p @ [y]) = Some z" using y(2) by blast
    then have "\<lparr>fi_name = y, fi_node = z\<rparr> \<in> set ?cs" using y by (auto simp: dir_entries_set fs_names_iff)
    then have "faithful (files w) (p @ [y]) (files u) (q @ [y])" using c by (force simp: entries_copied_def)
    moreover have "same_tree (q @ [y]) (files u) (fs_set q m' (files u))" by (simp add: same_tree_def)
    ultimately show ?thesis using faithful_cong [OF same_tree_refl] by blast
  qed
  show "look (fs_set q m' (files u)) (q @ y # l) = None" if "look (files w) (p @ [y]) = None" for y l
  proof -
    have "look (files u) (q @ y # l) = look (files w) (q @ y # l)"
      by (rule changes_below_look [where ps = "map (\<lambda>x. q @ [fi_name x]) ?cs"])
        (use c that in \<open>auto simp: entries_copied_def dir_entries_set\<close>)
    then show ?thesis using q by (simp add: blank_def strict_prefix_def)
  qed
qed simp

lemma copy_directory:
  fixes s d x c
  defines "P \<equiv> s @ [x]" and "D \<equiv> d @ [c]"
  assumes step: "\<And>y v. y \<in> set (dir_entries (files w) P (fs_names (files w) P)) \<Longrightarrow> real_dirs (files v) P \<Longrightarrow> real_dirs (files v) D \<Longrightarrow>
       same_env w v \<Longrightarrow> same_tree P (files w) (files v) \<Longrightarrow> vacant (files v) (D @ [fi_name y]) \<Longrightarrow>
       wp (f y) (\<lambda>r u. touched (D @ [fi_name y]) v u \<and> tree_copied n v (P @ [fi_name y]) (D @ [fi_name y]) r u) v"
    and w: "real_dirs (files w) P" "list_all plain_name P" "look (files w) P = Some (fi_node i)" "rooted (files w) P"
    and d: "real_dirs (files w) D" "list_all plain_name D" "blank (files w) D" "apart P D"
  shows "wp (finally_report (check (ioutil_ReadDir (abs_string P)) (\<lambda>cs. for_check cs f))
      (os_Chmod (abs_string D) (fi_Mode i))) (tree_copied (Suc n) w P D) w"
proof -
  let ?cs = "dir_entries (files w) P (fs_names (files w) P)"
  have dirs: "dir_at (files w) P" "dir_at (files w) D" using w(1) d(1) by (auto dest: real_dirs_self)
  have read: "wp (check (ioutil_ReadDir (abs_string P)) (\<lambda>cs. for_check cs f)) (entries_copied n w P D ?cs) w"
    unfolding wp_check
  proof (rule wp_ReadDir_fair [OF resolve_real_dir [OF w(1,2)] dirs(1)], goal_cases)
    case 2
    have "wp (for_check ?cs f) (entries_copied n (tick w) P D ?cs) (tick w)"
      by (rule copy_loop_copies [of ?cs P D "tick w" P f n])
        (use step w d in \<open>auto simp: dir_entries_names intro: blank_below\<close>)
    moreover have "entries_copied n (tick w) P D ?cs = entries_copied n w P D ?cs"
      by (simp add: fun_eq_iff entries_copied_def split: sum.split)
    ultimately show ?case by simp
  qed (simp add: entries_copied_def)
  show ?thesis
  proof (rule wp_finallyI [OF read])
    fix r :: "unit result" and u assume u: "entries_copied n w P D ?cs r u"
    then have u': "same_env w u" "changes_below (map (\<lambda>x. D @ [fi_name x]) ?cs) (files w) (files u)"
      by (simp_all add: entries_copied_def)
    have D: "look (files u) D = look (files w) D" by (rule changes_below_look [OF u'(2)]) auto
    have rd: "real_dirs (files u) D" by (rule changes_below_real_dirs [OF u'(2) _ d(1)]) auto
    obtain m where m: "look (files w) D = Some (Dir m)" using dirs(2) by (auto simp: dir_at_iff)
    have same: "same_file (fi_node i) (Dir (chmod_meta (syscallMode (fi_Mode i)) m))"
      using dirs(1) w(3) by (cases "fi_node i") (auto simp: fi_Mode_def syscallMode_go_mode dir_at_iff)
    show "wp (os_Chmod (abs_string D) (fi_Mode i)) (\<lambda>z. tree_copied (Suc n) w P D (case r of Inl e \<Rightarrow> Inl e | Inr _ \<Rightarrow> z)) u"
      unfolding os_Chmod_def
      by (rule wp_at_path_fair [OF resolve_real_dir [OF rd d(2)]])
        (use u m D same same_env_calm [OF u'(1)] entries_copied_all [OF _ w(3,4) d(3) same] in
          \<open>auto simp: tree_copied_def entries_copied_def split: sum.splits\<close>)
  qed
qed


text \<open>Where the copy of an entry may start.\<close>

definition copy_ready :: "fsys \<Rightarrow> path \<Rightarrow> string \<Rightarrow> path \<Rightarrow> string \<Rightarrow> finfo \<Rightarrow> bool" where
  "copy_ready fs s x d c i \<longleftrightarrow>
     real_dirs fs s \<and> list_all plain_name (s @ [x]) \<and> look fs (s @ [x]) = Some (fi_node i) \<and> rooted fs (s @ [x]) \<and>
     real_dirs fs d \<and> list_all plain_name (d @ [c]) \<and> blank fs (d @ [c]) \<and>
     (look fs (d @ [c]) \<noteq> None \<longrightarrow> is_dir (fi_node i)) \<and> apart (s @ [x]) (d @ [c])"

text \<open>What \<open>copy_switchboard\<close> does with a directory once the target directory is there.\<close>

abbreviation copy_entries :: "nat \<Rightarrow> path \<Rightarrow> path \<Rightarrow> finfo \<Rightarrow> unit result io" where
  "copy_entries n P D i \<equiv> copy_into n (abs_string P) (abs_string D) i"

lemma copy_switchboard_cases:
  "copy_switchboard (Suc n) (abs_string P) (abs_string D) i =
     (if is_lnk (fi_node i) then lcopy (abs_string P) (abs_string D)
      else if is_dir (fi_node i) then check (os_MkdirAll (abs_string D) 0x1ED) (\<lambda>_. copy_entries n P D i)
      else fcopy (abs_string P) (abs_string D) i)"
  by (simp only: copy_switchboard.simps fi_Mode_symlink fi_IsDir_iff)

lemma copy_ready_apart:
  assumes "copy_ready fs s x d c i" "changes_below [d @ [c]] fs fs'"
  shows "same_tree (s @ [x]) fs fs'" "real_dirs fs' s" "real_dirs fs' d"
proof -
  have ap: "apart (s @ [x]) (d @ [c])" using assms(1) by (simp add: copy_ready_def)
  then have out: "\<not> prefix (d @ [c]) s"
    using prefix_order.trans [of "d @ [c]" s "s @ [x]"] by (auto simp: apart_def)
  show "same_tree (s @ [x]) fs fs'" by (rule same_tree_apart [OF assms(2)]) (simp add: ap)
  show "real_dirs fs' s" "real_dirs fs' d"
    using assms(1) by (auto simp: copy_ready_def out intro: changes_below_real_dirs [OF assms(2)])
qed

lemma copy_ready_child:
  assumes "copy_ready fs s x d c i" "real_dirs fs (s @ [x])" "real_dirs fs (d @ [c])" "same_tree (s @ [x]) fs fs'"
    and "real_dirs fs' (s @ [x])" "real_dirs fs' (d @ [c])" "vacant fs' ((d @ [c]) @ [fi_name y])"
    and "y \<in> set (dir_entries fs (s @ [x]) (fs_names fs (s @ [x])))"
  shows "copy_ready fs' (s @ [x]) (fi_name y) (d @ [c]) (fi_name y) y"
proof -
  have "look fs' ((s @ [x]) @ [fi_name y]) = Some (fi_node y)" "plain_name (fi_name y)"
    using assms(4,8) by (auto simp: dir_entries_set fs_names_iff same_tree_def [of "s @ [x]"])
  moreover have "rooted fs' ((s @ [x]) @ [fi_name y])"
    by (rule rooted_child) (use assms(1) rooted_cong [OF assms(4)] in \<open>simp add: copy_ready_def\<close>)
  ultimately show ?thesis
    using assms apart_children [of "s @ [x]" "d @ [c]"] vacant_here [OF assms(7)] vacant_blank [OF assms(7)]
    by (simp add: copy_ready_def)
qed

lemma copy_entries_copies:
  assumes IH: "\<And>w s x d c i. copy_ready (files w) s x d c i \<Longrightarrow>
      wp (copy_switchboard n (abs_string (s @ [x])) (abs_string (d @ [c])) i) (tree_copied n w (s @ [x]) (d @ [c])) w"
    and r: "copy_ready (files w) s x d c i" and d: "real_dirs (files w) (s @ [x])" "real_dirs (files w) (d @ [c])"
  shows "wp (copy_entries n (s @ [x]) (d @ [c]) i) (tree_copied (Suc n) w (s @ [x]) (d @ [c])) w"
proof (rule copy_directory, goal_cases)
  case (1 y u)
  note ready = copy_ready_child [OF r d 1(5,2,3,6,1)]
  have j: "PathJoin [abs_string (s @ [x]), fi_name y] = abs_string ((s @ [x]) @ [fi_name y])"
    "PathJoin [abs_string (d @ [c]), fi_name y] = abs_string ((d @ [c]) @ [fi_name y])"
    by (rule PathJoin_abs; use ready in \<open>simp add: copy_ready_def\<close>)+
  show ?case
    unfolding j
  proof (rule wp_conj [OF _ IH [OF ready]])
    show "wp (copy_switchboard n (abs_string ((s @ [x]) @ [fi_name y])) (abs_string ((d @ [c]) @ [fi_name y])) y)
        (\<lambda>_. touched ((d @ [c]) @ [fi_name y]) u) u"
      by (rule copy_frame) (use ready in \<open>simp_all add: copy_ready_def\<close>)
  qed
qed (use r d in \<open>auto simp: copy_ready_def\<close>)

lemma copy_directory_copies:
  assumes IH: "\<And>w s x d c i. copy_ready (files w) s x d c i \<Longrightarrow>
      wp (copy_switchboard n (abs_string (s @ [x])) (abs_string (d @ [c])) i) (tree_copied n w (s @ [x]) (d @ [c])) w"
    and r: "copy_ready (files w) s x d c i" and dir: "is_dir (fi_node i)"
  shows "wp (check (os_MkdirAll (abs_string (d @ [c])) 0x1ED) (\<lambda>_. copy_entries n (s @ [x]) (d @ [c]) i))
      (tree_copied (Suc n) w (s @ [x]) (d @ [c])) w"
proof -
  let ?P = "s @ [x]" and ?D = "d @ [c]"
  have entries: "wp (copy_entries n ?P ?D i) (tree_copied (Suc n) w ?P ?D) v"
    if v: "touched ?D w v" "dir_at (files v) ?D" "blank (files v) ?D" for v
  proof -
    have c: "changes_below [?D] (files w) (files v)" using v(1) by (simp add: touched_def)
    note t = copy_ready_apart [OF r c]
    have "dir_at (files v) ?P"
      using r dir t(1) by (simp add: copy_ready_def dir_at_is_dir same_tree_def [of ?P])
    moreover have "copy_ready (files v) s x d c i"
      using r t v(3) dir rooted_cong [OF t(1)] by (simp add: copy_ready_def same_tree_def [of ?P])
    ultimately have "wp (copy_entries n ?P ?D i) (tree_copied (Suc n) v ?P ?D) v"
      using t v(2) by (intro copy_entries_copies [OF IH]) (simp_all add: real_dirs_snoc)
    then show ?thesis
      by (rule wp_mono) (rule tree_copied_from, use v(1) t(1) in \<open>auto simp: touched_def\<close>)
  qed
  have d: "real_dirs (files w) d" "list_all plain_name ?D" "blank (files w) ?D" using r by (simp_all add: copy_ready_def)
  show ?thesis
    unfolding wp_check [of "os_MkdirAll _ _"]
  proof (rule wp_MkdirAll_below, goal_cases)
    case 4
    then show ?case using d(3) by (simp add: blank_def)
  next
    case (6 v)
    then show ?case
      unfolding sum.case by (intro entries) (use d in \<open>auto simp: touched_files\<close>)
  next
    case (7 m v)
    then show ?case
      unfolding sum.case by (intro entries) (use d in \<open>auto simp: touched_def blank_def dir_at_iff\<close>)
  qed (use d in \<open>auto simp: tree_copied_def\<close>)
qed

lemma copy_file_copies:
  assumes r: "copy_ready (files w) s x d c i" and n: "\<not> is_lnk (fi_node i)" "\<not> is_dir (fi_node i)"
  shows "wp (fcopy (abs_string (s @ [x])) (abs_string (d @ [c])) i) (tree_copied (Suc n) w (s @ [x]) (d @ [c])) w"
proof -
  have D: "look (files w) (d @ [c]) = None" and i: "look (files w) (s @ [x]) = Some (fi_node i)"
    using r n by (auto simp: copy_ready_def)
  show ?thesis
  proof (rule wp_mono [OF fcopy_copies [of w s x d c]], goal_cases)
    case (2 q u)
    then show ?case
      using r n copyable_look [of "Suc n" "files w" "s @ [x]" "[]"] D
      by (cases q) (auto simp: copy_ready_def file_copied_def tree_copied_def shows_at_def blank_def strict_prefix_def
        intro!: faithful_leaf [OF i])
  qed (use r n D i in \<open>simp add: copy_ready_def file_ready_def\<close>)
qed

text \<open>The tree copy is faithful: whatever fails on the way, success is reported only for a complete
  copy; in a calm world the copy of a tree of files, directories and links that is not too deep
  succeeds.\<close>

lemma copy_copies:
  "copy_ready (files w) s x d c i \<Longrightarrow>
     wp (copy_switchboard n (abs_string (s @ [x])) (abs_string (d @ [c])) i) (tree_copied n w (s @ [x]) (d @ [c])) w"
proof (induction n arbitrary: w s x d c i)
  case 0
  then show ?case by (auto simp: copy_ready_def tree_copied_def copyable_def dest!: spec [of _ "[]"])
next
  case (Suc n)
  consider (link) a t where "fi_node i = Lnk a t" | (dir) "is_dir (fi_node i)" "\<not> is_lnk (fi_node i)"
    | (regular) "\<not> is_lnk (fi_node i)" "\<not> is_dir (fi_node i)"
    by (cases "fi_node i") auto
  then show ?case
  proof cases
    case link
    then show ?thesis
      unfolding copy_switchboard_cases by (simp del: wp_if) (rule lcopy_copies; use Suc.prems link in \<open>simp add: copy_ready_def\<close>)
  next
    case dir
    then show ?thesis
      unfolding copy_switchboard_cases
      using copy_directory_copies [OF Suc.IH Suc.prems dir(1)] by (simp del: wp_if wp_check)
  next
    case regular
    then show ?thesis
      unfolding copy_switchboard_cases using copy_file_copies [OF Suc.prems regular] by (simp del: wp_if)
  qed
qed

lemma wp_Copy_copies:
  assumes "real_dirs (files w) s" "list_all plain_name (s @ [x])" "dir_at (files w) (s @ [x])" "rooted (files w) (s @ [x])"
    and d: "real_dirs (files w) d" "list_all plain_name (d @ [c])" "blank (files w) (d @ [c])" "apart (s @ [x]) (d @ [c])"
  shows "wp (copy_Copy (abs_string (s @ [x])) (abs_string (d @ [c])))
     (\<lambda>r u. touched (d @ [c]) w u \<and> tree_copied 2048 w (s @ [x]) (d @ [c]) r u) w"
proof (rule wp_conj [OF wp_Copy_frame [OF d(1-3)]])
  let ?T = "tree_copied 2048 w (s @ [x]) (d @ [c])"
  have "wp (copy_switchboard 2048 (abs_string (s @ [x])) (abs_string (d @ [c])) i) ?T (tick w)"
    if "look (files w) (s @ [x]) = Some (fi_node i)" for i
    by (rule wp_mono [OF copy_copies]) (use assms that in \<open>auto simp: copy_ready_def tree_copied_def dir_at_is_dir split: sum.splits\<close>)
  then show "wp (copy_Copy (abs_string (s @ [x])) (abs_string (d @ [c]))) ?T w"
    unfolding copy_Copy_def wp_check os_Lstat_def
    by (intro wp_at_path_fair [OF resolve_nofollow])
      (use assms in \<open>auto simp: tree_copied_def dir_at_is_dir\<close>)
qed

lemma faithful_chmod:
  assumes "faithful fs p fs' q" "look fs p = Some n" "look fs' q = Some n'" "is_dir n"
  shows "faithful fs p (fs_set q (map_meta (chmod_meta (syscallMode (go_mode n))) n') fs') q"
  unfolding faithful_def
proof (intro allI impI)
  fix r :: path assume "list_all plain_name r"
  then have r: "rel_option same_file (look fs (p @ r)) (look fs' (q @ r))" using assms(1) by (simp add: faithful_def)
  have "same_file n n'" using assms faithful_look(1) by fastforce
  then have "same_file n (map_meta (chmod_meta (syscallMode (go_mode n))) n')"
    using assms(4) by (cases "(n, n')" rule: same_file.cases) (simp_all add: syscallMode_go_mode)
  then show "rel_option same_file (look fs (p @ r)) (look (fs_set q (map_meta (chmod_meta (syscallMode (go_mode n))) n') fs') (q @ r))"
    using r assms(2) by simp
qed

lemma faithful_move: "faithful fs p fs' q \<Longrightarrow> faithful fs p (fs_move q q' fs') q'"
  by (simp add: faithful_def look_move)

end
