(* ===== verification/Component.thy ===== *)
theory Component
  imports Faithful
begin

text \<open>
  \<^verbatim>\<open>pkg/system/component.go\<close>: a component of the system is a directory with one directory per
  version and the links \<open>current\<close> and \<open>previous\<close>.
\<close>

definition VersionCurrent :: string where "VersionCurrent = ''current''"
definition VersionPrevious :: string where "VersionPrevious = ''previous''"

text \<open>The result is Go's pair: when the version is not a directory both are set.\<close>

definition StatComponentVersion :: "string \<Rightarrow> string \<Rightarrow> string \<Rightarrow> (finfo option \<times> unit result) io" where
  "StatComponentVersion root key alias = do {
     let aliasPath = PathJoin [root, key, alias];
     a \<leftarrow> os_Stat aliasPath;
     case a of
       Inl e \<Rightarrow> State_Monad.return (None, Inl e)
     | Inr aliasInfo \<Rightarrow>
         if \<not> fi_IsDir aliasInfo
         then State_Monad.return (None, Inl (Msg (''stat '' @ aliasPath @ '': not a directory'')))
         else do {
           l \<leftarrow> os_Readlink aliasPath;
           case l of
             Inl e \<Rightarrow> State_Monad.return (None, Inl e)
           | Inr version \<Rightarrow> do {
               let versionPath = PathJoin [root, key, version];
               v \<leftarrow> os_Stat versionPath;
               case v of
                 Inl e \<Rightarrow> State_Monad.return (None, Inl e)
               | Inr versionInfo \<Rightarrow>
                   State_Monad.return
                     (Some versionInfo,
                      if fi_IsDir versionInfo then Inr ()
                      else Inl (Msg (''stat '' @ versionPath @ '': not a directory''))) } } }"

text \<open>\<^verbatim>\<open>if err := m; err != nil { logrus.X(err) }\<close>\<close>

definition log_error :: "loglevel \<Rightarrow> unit result io \<Rightarrow> unit io" where
  "log_error l m = do { r \<leftarrow> m; case r of Inl _ \<Rightarrow> emit (EvLog l) | Inr _ \<Rightarrow> skip }"

text \<open>The end of \<^verbatim>\<open>CopyComponent\<close>: the new version is in place, the links move.\<close>

definition switch_version :: "string \<Rightarrow> mode \<Rightarrow> string \<Rightarrow> string \<Rightarrow> string \<Rightarrow> bool result io" where
  "switch_version dstPath mo dstPrevPath dstCurrPath dstCurrTemp = do {
     log_error LError (os_Chmod dstPath mo);
     log_error LWarn (os_Remove dstPrevPath);
     log_error LError (copy_Copy dstCurrPath dstPrevPath);
     check (os_Rename dstCurrTemp dstCurrPath) (\<lambda>_. ok True) }"

definition install_version :: "string \<Rightarrow> string \<Rightarrow> mode \<Rightarrow> string \<Rightarrow> string \<Rightarrow> string \<Rightarrow> bool result io" where
  "install_version dstTemp dstPath mo dstPrevPath dstCurrPath dstCurrTemp =
     (let finish = check (os_Rename dstTemp dstPath) (\<lambda>_.
            switch_version dstPath mo dstPrevPath dstCurrPath dstCurrTemp)
      in do {
        d \<leftarrow> os_Stat dstPath;
        case d of
          Inl _ \<Rightarrow> finish
        | Inr dstInfo \<Rightarrow>
            if fi_IsDir dstInfo
            then check (os_Rename dstPath (dstPath @ ''.old'')) (\<lambda>_.
                   defer_after finish (os_Rename (dstPath @ ''.old'') dstPath))
            else do { _ \<leftarrow> os_Remove dstPath; finish } })"

definition stage_version :: "string \<Rightarrow> string \<Rightarrow> mode \<Rightarrow> string \<Rightarrow> string \<Rightarrow> string \<Rightarrow> bool result io" where
  "stage_version srcPath dstPath mo dstPrevPath dstCurrPath dstCurrTemp =
     check (os_Symlink (PathBase dstPath) dstCurrTemp) (\<lambda>_.
       defer_after
         (check (case PathSplit dstPath of (dir, file) \<Rightarrow> ioutil_TempDir dir file) (\<lambda>dstTemp.
            defer_after
              (check (copy_Copy srcPath dstTemp) (\<lambda>_.
                 install_version dstTemp dstPath mo dstPrevPath dstCurrPath dstCurrTemp))
              (os_RemoveAll dstTemp)))
         (os_Remove dstCurrTemp))"

definition CopyComponent :: "string \<Rightarrow> string \<Rightarrow> bool \<Rightarrow> string \<Rightarrow> bool result io" where
  "CopyComponent src dst remount key = do {
     s \<leftarrow> StatComponentVersion src key VersionCurrent;
     case s of
       (_, Inl e) \<Rightarrow> fail e
     | (None, Inr _) \<Rightarrow> fail (Msg ''unreachable'')
     | (Some srcInfo, Inr _) \<Rightarrow> do {
         d \<leftarrow> StatComponentVersion dst key VersionCurrent;
         if (case fst d of Some dstInfo \<Rightarrow> fi_name dstInfo = fi_name srcInfo | None \<Rightarrow> False)
         then do { emit (EvLog LInfo); ok False }
         else check (if remount then mount_Mount [] dst ''none'' ''remount,rw'' else ok ()) (\<lambda>_.
           let srcPath = PathJoin [src, key, fi_name srcInfo];
               dstPath = PathJoin [dst, key, fi_name srcInfo];
               dstPrevPath = PathJoin [dst, key, VersionPrevious];
               dstCurrPath = PathJoin [dst, key, VersionCurrent];
               dstCurrTemp = dstCurrPath @ ''.tmp''
           in stage_version srcPath dstPath (fi_Mode srcInfo) dstPrevPath dstCurrPath dstCurrTemp) } }"

subsection \<open>The version in place\<close>

text \<open>The version a component's \<open>current\<close> names.\<close>

definition has_version :: "fsys \<Rightarrow> path \<Rightarrow> string \<Rightarrow> bool" where
  "has_version fs kd v \<longleftrightarrow> real_dirs fs kd \<and> list_all plain_name kd \<and> plain_name v \<and>
     (\<exists>m. look fs (kd @ [''current'']) = Some (Lnk m v)) \<and> dir_at fs (kd @ [v])"

lemma component_paths:
  assumes "list_all plain_name (r @ [key])" "plain_name c"
  shows "PathJoin [abs_string r, key, c] = abs_string ((r @ [key]) @ [c])"
  using PathJoin_abs [of r "[key, c]"] assms by simp

text \<open>Looking at a component that has the version \<open>v\<close>, in a state with the files of \<open>w\<close>.\<close>

lemma has_version_Stat:
  assumes h: "has_version (files w) kd v" and c: "c = ''current'' \<or> c = v"
    and u: "files u = files w" "same_env w u"
    and E: "\<And>e u'. \<not> calm w \<Longrightarrow> same_env w u' \<Longrightarrow> files u' = files w \<Longrightarrow> Q (Inl e) u'"
    and S: "\<And>n u'. same_env w u' \<Longrightarrow> files u' = files w \<Longrightarrow> look (files w) (kd @ [v]) = Some n \<Longrightarrow>
       is_dir n \<Longrightarrow> Q (Inr \<lparr>fi_name = c, fi_node = n\<rparr>) u'"
  shows "wp (os_Stat (abs_string (kd @ [c]))) Q u"
proof -
  obtain m m' where k: "real_dirs (files w) kd" "list_all plain_name kd" "plain_name v" "plain_name ''current''"
    "look (files w) (kd @ [''current'']) = Some (Lnk m v)" "look (files w) (kd @ [v]) = Some (Dir m')"
    using h by (auto simp: has_version_def dir_at_iff plain_name_def)
  have "resolve True u (abs_string (kd @ [c])) = Inr (kd @ [v])"
  proof (cases "c = v")
    case True
    show ?thesis unfolding True by (rule resolve_notlink) (use u(1) k in auto)
  next
    case False
    then show ?thesis using u(1) c k by (intro resolve_link) auto
  qed
  moreover have "PathBase (abs_string (kd @ [c])) = c"
    using c k by (intro PathBase_abs_snoc) auto
  ultimately show ?thesis
    unfolding os_Stat_def by (intro wp_at_path_fair) (use u k E S same_env_calm [OF u(2)] in auto)
qed

lemma has_version_Readlink:
  assumes h: "has_version (files w) kd v" and u: "files u = files w" "same_env w u"
    and E: "\<And>e u'. \<not> calm w \<Longrightarrow> same_env w u' \<Longrightarrow> files u' = files w \<Longrightarrow> Q (Inl e) u'"
    and S: "\<And>u'. same_env w u' \<Longrightarrow> files u' = files w \<Longrightarrow> Q (Inr v) u'"
  shows "wp (os_Readlink (abs_string (kd @ [''current'']))) Q u"
  unfolding os_Readlink_def
  by (rule wp_at_path_fair [OF resolve_nofollow])
    (use h u E S same_env_calm [OF u(2)] in \<open>auto simp: has_version_def plain_name_def\<close>)

lemma wp_StatComponentVersion:
  assumes h: "has_version (files w) (r @ [key]) v"
    and E: "\<And>x e w'. \<not> calm w \<Longrightarrow> same_env w w' \<Longrightarrow> files w' = files w \<Longrightarrow> Q (x, Inl e) w'"
    and S: "\<And>i w'. same_env w w' \<Longrightarrow> files w' = files w \<Longrightarrow> fi_name i = v \<Longrightarrow>
       look (files w) (r @ [key, v]) = Some (fi_node i) \<Longrightarrow> Q (Some i, Inr ()) w'"
  shows "wp (StatComponentVersion (abs_string r) key VersionCurrent) Q w"
proof -
  let ?kd = "r @ [key]"
  have k: "list_all plain_name ?kd" "plain_name v" "plain_name ''current''"
    using h by (simp_all add: has_version_def plain_name_def)
  note p = component_paths [OF k(1)]
  show ?thesis
    unfolding StatComponentVersion_def VersionCurrent_def Let_def p [OF k(3)] wp_bind [of "os_Stat (abs_string (?kd @ [''current'']))"]
  proof (rule has_version_Stat [OF h], goal_cases)
    case (5 n u)
    then have d: "fi_IsDir \<lparr>fi_name = ''current'', fi_node = n\<rparr> = True" by (simp add: fi_IsDir_iff)
    show ?case
      unfolding sum.case d simp_thms if_False wp_bind [of "os_Readlink _"]
    proof (rule has_version_Readlink [OF h 5(2,1)], goal_cases)
      case (2 u')
      show ?case
        unfolding sum.case p [OF k(2)] wp_bind
        by (rule has_version_Stat [OF h _ 2(2,1)]) (simp_all add: E S fi_IsDir_iff)
    qed (simp add: E)
  qed (simp_all add: E)
qed

lemma reads_only_emit_free [simp, intro]: "reads_only (StatComponentVersion r key c)"
  unfolding StatComponentVersion_def Let_def
  by (auto intro!: reads_only_intros)

lemma wp_log_error: "wp (log_error l m) Q w \<longleftrightarrow>
    wp m (\<lambda>r w'. case r of Inl _ \<Rightarrow> Q () (w'\<lparr>trace := trace w' @ [EvLog l]\<rparr>) | Inr _ \<Rightarrow> Q () w') w"
  unfolding log_error_def wp_bind by (intro arg_cong [where f = "\<lambda>q. wp m q w"] ext) (auto split: sum.split)

text \<open>Copying a link makes a link.\<close>

lemma copy_link_frame:
  assumes d: "real_dirs (files u) kd" and n: "list_all plain_name kd" "plain_name a" "plain_name c"
    and l: "look (files u) (kd @ [a]) = None \<or> (\<exists>m x. look (files u) (kd @ [a]) = Some (Lnk m x))"
  shows "wp (copy_Copy (abs_string (kd @ [a])) (abs_string (kd @ [c]))) (\<lambda>_. touched (kd @ [c]) u) u"
proof -
  have cp: "wp (copy_switchboard 2048 s (abs_string (kd @ [c])) i) (\<lambda>_. touched (kd @ [c]) u) u'"
    if "files u' = files u" "same_env u u'" "fi_node i = Lnk m x" for u' i m x s
  proof -
    have sw: "copy_switchboard 2048 s (abs_string (kd @ [c])) i = lcopy s (abs_string (kd @ [c]))"
      using that(3) by (simp add: numeral_eq_Suc fi_Mode_symlink)
    show ?thesis
      unfolding sw by (rule wp_mono [OF lcopy_frame])
        (use that d n in \<open>auto intro: touched_trans [OF touched_files]\<close>)
  qed
  show ?thesis
    unfolding copy_Copy_def wp_check os_Lstat_def
    by (rule wp_at_path_res [OF resolve_nofollow [OF d n(1,2)]])
      (use l in \<open>auto split: option.split intro!: cp intro: touched_files\<close>)
qed

end
