(* ===== verification/Upgrade.thy ===== *)
theory Upgrade
  imports Component
begin

text \<open>
  \<^verbatim>\<open>pkg/cli/upgrade/upgrade.go\<close>: the \<^verbatim>\<open>upgrade\<close> sub-command. \<^verbatim>\<open>logrus.Fatal\<close> and \<^verbatim>\<open>os.Exit\<close> end
  the process: the result is then \<open>Inl\<close> the exit code and deferred calls do not run.
\<close>

type_synonym 'a exits = "nat + 'a"

definition fatal_check :: "'a result io \<Rightarrow> ('a \<Rightarrow> 'b exits io) \<Rightarrow> 'b exits io" where
  "fatal_check m f = do {
     r \<leftarrow> m;
     case r of Inl _ \<Rightarrow> do { emit (EvLog LFatal); fail 1 } | Inr a \<Rightarrow> f a }"

definition defer_unless_exit :: "'a exits io \<Rightarrow> 'b io \<Rightarrow> 'a exits io" where
  "defer_unless_exit m c = do {
     r \<leftarrow> m;
     case r of Inl code \<Rightarrow> fail code | Inr a \<Rightarrow> do { _ \<leftarrow> c; ok a } }"

record upgrade_flags =
  upgradeEDGI :: bool
  upgradeK3S :: bool
  upgradeKernel :: bool
  upgradeRootFS :: bool
  doRemount :: bool
  doSync :: bool
  doReboot :: bool
  sourceDir :: string
  destinationDir :: string
  lockFile :: string

text \<open>The flags' defaults.\<close>

definition upgrade_defaults :: upgrade_flags where
  "upgrade_defaults = \<lparr>upgradeEDGI = False, upgradeK3S = False, upgradeKernel = False,
     upgradeRootFS = False, doRemount = False, doSync = False, doReboot = False,
     sourceDir = RootPath [], destinationDir = RootPath [], lockFile = StatePath [''upgrade.lock'']\<rparr>"

text \<open>\<^verbatim>\<open>Before\<close>: \<open>None\<close> for an accepted command line with its final flags, an exit otherwise.\<close>

definition upgrade_Before :: "upgrade_flags \<Rightarrow> upgrade_flags exits io" where
  "upgrade_Before f =
     (if destinationDir f = sourceDir f then do { emit (EvOther ''help'' [''upgrade'']); emit (EvLog LError); fail 1 }
      else let f' = (if upgradeRootFS f then f\<lparr>upgradeK3S := True, upgradeEDGI := True\<rparr> else f)
           in if \<not> upgradeEDGI f' \<and> \<not> upgradeK3S f' \<and> \<not> upgradeKernel f'
              then do { emit (EvOther ''help'' [''upgrade'']); emit (EvLog LError); fail 1 }
              else ok f')"

definition validateSystemRoot :: "string \<Rightarrow> unit result io" where
  "validateSystemRoot root =
     check (os_Stat root) (\<lambda>info.
       if \<not> fi_IsDir info then fail (Msg (''stat '' @ root @ '': not a directory'')) else ok ())"

text \<open>One component: the state is \<^verbatim>\<open>atLeastOneComponentCopied\<close> and the variable \<^verbatim>\<open>doRemount\<close>.\<close>

definition upgrade_component ::
  "upgrade_flags \<Rightarrow> bool \<Rightarrow> string \<Rightarrow> bool \<times> bool \<Rightarrow> (bool \<times> bool) io" where
  "upgrade_component f enabled key st =
     (if \<not> enabled then State_Monad.return st
      else do {
        r \<leftarrow> CopyComponent (sourceDir f) (destinationDir f) (snd st) key;
        case r of
          Inl _ \<Rightarrow> do { emit (EvLog LError); State_Monad.return st }
        | Inr copied \<Rightarrow> State_Monad.return (if copied then (True, False) else st) })"

definition reboot_command :: command where
  "reboot_command =
     exec_Command [''nsenter'', ''-m'', ''-u'', ''-i'', ''-n'', ''-p'', ''-t'', ''1'', ''reboot'']"

definition upgrade_reboot :: "upgrade_flags \<Rightarrow> unit exits io" where
  "upgrade_reboot f = do {
     l \<leftarrow> exec_LookPath ''nsenter'';
     let go = fatal_check (cmd_Run reboot_command) ok;
     case l of
       Inr _ \<Rightarrow> go
     | Inl _ \<Rightarrow> do {
         emit (EvLog LWarn);
         if destinationDir f \<noteq> RootPath []
         then fatal_check (unix_Chroot (Clean (PathJoin [destinationDir f, ''..'', ''..'']))) (\<lambda>_.
              fatal_check (os_Chdir ''/'') (\<lambda>_. go))
         else go } }"

definition upgrade_copies :: "upgrade_flags \<Rightarrow> bool io" where
  "upgrade_copies f = do {
     s1 \<leftarrow> upgrade_component f (upgradeEDGI f) ''edgi'' (False, doRemount f);
     s2 \<leftarrow> upgrade_component f (upgradeK3S f) ''k3s'' s1;
     s3 \<leftarrow> upgrade_component f (upgradeKernel f) ''kernel'' s2;
     State_Monad.return (fst s3) }"

definition upgrade_locked :: "upgrade_flags \<Rightarrow> unit exits io" where
  "upgrade_locked f = do {
     atLeastOneComponentCopied \<leftarrow> upgrade_copies f;
     (if atLeastOneComponentCopied \<and> doSync f then unix_Sync else skip);
     if atLeastOneComponentCopied \<and> doReboot f then upgrade_reboot f else ok () }"

definition upgrade_Run :: "upgrade_flags \<Rightarrow> unit exits io" where
  "upgrade_Run f =
     fatal_check (validateSystemRoot (sourceDir f)) (\<lambda>_.
     fatal_check (validateSystemRoot (destinationDir f)) (\<lambda>_.
     fatal_check (os_OpenFile (lockFile f) O_create 0x1A4) (\<lambda>lf.
       defer_unless_exit
         (fatal_check (unix_Flock_ex_nb lf) (\<lambda>_.
            defer_unless_exit (upgrade_locked f) (unix_Flock_un lf)))
         (fd_Close lf))))"

subsection \<open>Weakest preconditions of exits\<close>

lemma wp_fatal_check: "wp (fatal_check m f) Q w \<longleftrightarrow>
    wp m (\<lambda>r u. case r of Inl _ \<Rightarrow> Q (Inl 1) (u\<lparr>trace := trace u @ [EvLog LFatal]\<rparr>) | Inr a \<Rightarrow> wp (f a) Q u) w"
  unfolding fatal_check_def wp_bind by (intro arg_cong [where f = "\<lambda>q. wp m q w"] ext) (simp split: sum.split)

lemma wp_defer_unless_exit: "wp (defer_unless_exit m c) Q w \<longleftrightarrow>
    wp m (\<lambda>r u. case r of Inl k \<Rightarrow> Q (Inl k) u | Inr a \<Rightarrow> wp c (\<lambda>_. Q (Inr a)) u) w"
  unfolding defer_unless_exit_def wp_bind by (intro arg_cong [where f = "\<lambda>q. wp m q w"] ext) (simp split: sum.split)

end
