(* ===== verification/Invariants.thy ===== *)
theory Invariants
  imports Upgrade
begin

text \<open>
  The type invariant of the file system: what exists is named by plain components and lies in
  a directory. Every system call of the model keeps it, so every function built from them
  does.
\<close>

definition plain_fs :: "fsys \<Rightarrow> bool" where
  "plain_fs fs \<longleftrightarrow> list_all (\<lambda>(q, _). list_all plain_name q) fs"

definition fs_ok :: "world \<Rightarrow> bool" where
  "fs_ok w \<longleftrightarrow> tree_fs (files w) \<and> plain_fs (files w) \<and> list_all plain_name (cwd w)"

subsection \<open>The invariant by paths\<close>

lemma plain_fs_iff: "plain_fs fs \<longleftrightarrow> (\<forall>q n. look fs q = Some n \<longrightarrow> list_all plain_name q)"
  unfolding plain_fs_def list_all_iff
  by (auto dest: map_of_SomeD) (metis domD domIff map_of_eq_None_iff imageI fst_conv)

lemma tree_fs_iff: "tree_fs fs \<longleftrightarrow> (\<forall>q n. look fs q = Some n \<longrightarrow> q = [] \<or> dir_at fs (butlast q))"
  unfolding tree_fs_def list_all_iff
  by (auto dest: map_of_SomeD) (metis domD domIff map_of_eq_None_iff imageI fst_conv)

lemma fs_ok_tick [simp]: "fs_ok (tick w) = fs_ok w"
  by (simp add: fs_ok_def)

lemma fs_ok_trace [simp]: "fs_ok (w\<lparr>trace := x\<rparr>) = fs_ok w"
  by (simp add: fs_ok_def)

lemma fs_ok_cong: "files w' = files w \<Longrightarrow> cwd w' = cwd w \<Longrightarrow> fs_ok w' = fs_ok w"
  by (simp add: fs_ok_def)

subsection \<open>Where a path resolves to\<close>

definition placed :: "fsys \<Rightarrow> path \<Rightarrow> bool" where
  "placed fs p \<longleftrightarrow> list_all plain_name p \<and> (p = [] \<or> dir_at fs (butlast p))"

lemma comps_no_slash: "c \<in> set (comps s) \<Longrightarrow> c \<noteq> [] \<and> SLASH \<notin> set c"
  unfolding comps_def using Split_slash_free by fastforce

lemma placed_dirs:
  assumes "tree_fs fs" "list_all plain_name dir" "look fs dir = Some (Dir m)"
  shows "placed fs dir" "placed fs (butlast dir)"
    "\<lbrakk>c \<noteq> []; SLASH \<notin> set c; c \<noteq> ''.''; c \<noteq> ''..''\<rbrakk> \<Longrightarrow> placed fs (dir @ [c])"
proof -
  show d: "placed fs dir" using assms by (auto simp: placed_def tree_fs_iff)
  show "placed fs (butlast dir)"
  proof (cases "dir = []")
    case False
    then obtain m' where "look fs (butlast dir) = Some (Dir m')" using d by (auto simp: placed_def dir_at_iff)
    then show ?thesis
      using assms(1,2) by (auto simp: placed_def tree_fs_iff list_all_iff dest: in_set_butlastD)
  qed (simp add: placed_def)
  show "\<lbrakk>c \<noteq> []; SLASH \<notin> set c; c \<noteq> ''.''; c \<noteq> ''..''\<rbrakk> \<Longrightarrow> placed fs (dir @ [c])"
    using assms(2,3) by (auto simp: placed_def dir_at_iff) (simp add: plain_name_def)
qed

text \<open>A name, other than \<^verbatim>\<open>.\<close> and \<^verbatim>\<open>..\<close>, is looked up in the directory reached so far.\<close>

lemma namei_name:
  assumes "look fs dir = Some (Dir m)" "\<not> (c = ''.'' \<or> c = ''..'')"
  shows "namei n f fs dir (c # cs) =
     (case look fs (dir @ [c]) of
        None \<Rightarrow> if cs = [] then Inr (dir @ [c]) else Inl ENOENT
      | Some (Lnk _ t) \<Rightarrow>
          if cs = [] \<and> \<not> f then Inr (dir @ [c])
          else (case n of
                  0 \<Rightarrow> Inl ELOOP
                | Suc n' \<Rightarrow> namei n' f fs (if is_abs t then [] else dir) (comps t @ cs))
      | Some _ \<Rightarrow> namei n f fs (dir @ [c]) cs)"
  using assms by simp

lemma namei_placed:
  assumes t: "tree_fs fs"
  shows "namei n f fs dir cs = Inr p \<Longrightarrow> cs \<noteq> [] \<or> placed fs dir \<Longrightarrow> list_all plain_name dir \<Longrightarrow>
     \<forall>c \<in> set cs. c \<noteq> [] \<and> SLASH \<notin> set c \<Longrightarrow> placed fs p"
proof (induction n arbitrary: dir cs rule: less_induct)
  case (less n)
  show ?case using less.prems
  proof (induction cs arbitrary: dir)
    case (Cons c cs)
    obtain m where d: "look fs dir = Some (Dir m)"
      using Cons.prems(1) by (simp split: option.splits node.splits)
    note pl = placed_dirs [OF t Cons.prems(3) d]
    have plain: "list_all plain_name q" if "placed fs q" for q using that by (simp add: placed_def)
    have cs: "\<forall>c \<in> set cs. c \<noteq> [] \<and> SLASH \<notin> set c" using Cons.prems(4) by simp
    have step: "placed fs p" if "namei n f fs q cs = Inr p" "placed fs q" for q
      by (rule Cons.IH [OF that(1) _ plain [OF that(2)] cs]) (use that(2) in simp)
    show ?case
    proof (cases "c = ''.'' \<or> c = ''..''")
      case True
      then show ?thesis using Cons.prems(1) d step pl(1,2) by (auto split: if_splits)
    next
      case False
      then have here: "placed fs (dir @ [c])" using pl(3) Cons.prems(4) by auto
      note n = namei_name [OF d False]
      show ?thesis
      proof (cases "\<exists>a t. look fs (dir @ [c]) = Some (Lnk a t)")
        case True
        then obtain a t where l: "look fs (dir @ [c]) = Some (Lnk a t)" by blast
        have "placed fs p" if n': "n = Suc n'" "namei n' f fs (if is_abs t then [] else dir) (comps t @ cs) = Inr p" for n'
        proof (rule less.IH [OF _ n'(2)])
          show "comps t @ cs \<noteq> [] \<or> placed fs (if is_abs t then [] else dir)"
            using pl(1) by (simp add: placed_def)
          show "list_all plain_name (if is_abs t then [] else dir)" using Cons.prems(3) by simp
          show "\<forall>c \<in> set (comps t @ cs). c \<noteq> [] \<and> SLASH \<notin> set c" using cs comps_no_slash by auto
        qed (simp add: n'(1))
        then show ?thesis using Cons.prems(1) here unfolding n l by (auto split: if_splits nat.splits)
      next
        case False
        then show ?thesis
          using Cons.prems(1) here step [OF _ here] unfolding n
          by (auto split: option.splits node.splits if_splits)
      qed
    qed
  qed simp
qed

lemma resolve_placed: "fs_ok w \<Longrightarrow> resolve f w s = Inr p \<Longrightarrow> placed (files w) p"
proof -
  assume w: "fs_ok w" and r: "resolve f w s = Inr p"
  then have s: "s \<noteq> []" and n: "namei 40 f (files w) (if is_abs s then [] else cwd w) (comps s) = Inr p"
    by (auto simp: resolve_def split: if_splits)
  have "comps s \<noteq> []" if "\<not> is_abs s"
    using s that by (cases s) (auto simp: comps_def is_abs_iff split: list.splits)
  then show ?thesis
    using w comps_no_slash by (intro namei_placed [OF _ n]) (auto simp: fs_ok_def placed_def)
qed

subsection \<open>The changes of the file system\<close>

lemma placed_change:
  "placed fs p \<Longrightarrow> (\<And>q. dir_at fs q \<Longrightarrow> dir_at fs' q) \<Longrightarrow> placed fs' p"
  by (auto simp: placed_def)

lemma fs_okI:
  assumes "fs_ok w" "cwd w' = cwd w"
    and "\<And>q n. look (files w') q = Some n \<Longrightarrow> placed (files w') q"
  shows "fs_ok w'"
  using assms by (auto simp: fs_ok_def tree_fs_iff plain_fs_iff placed_def)

lemma fs_ok_placed: "fs_ok w \<Longrightarrow> look (files w) q = Some n \<Longrightarrow> placed (files w) q"
  by (auto simp: fs_ok_def tree_fs_iff plain_fs_iff placed_def)

text \<open>Setting a path keeps the invariant unless a directory becomes something else.\<close>

lemma fs_ok_set:
  assumes "fs_ok w" "placed (files w) p" "dir_at (files w) p \<Longrightarrow> is_dir n"
  shows "fs_ok (w\<lparr>files := fs_set p n (files w)\<rparr>)"
proof (rule fs_okI [OF assms(1)])
  have d: "dir_at (fs_set p n (files w)) q" if "dir_at (files w) q" for q
    using that assms(3) by (auto simp: dir_at_iff is_dir_iff)
  show "placed (files (w\<lparr>files := fs_set p n (files w)\<rparr>)) q"
    if "look (files (w\<lparr>files := fs_set p n (files w)\<rparr>)) q = Some m" for q m
    using that assms(2) fs_ok_placed [OF assms(1), of q] d by (auto intro: placed_change split: if_splits)
qed simp

lemma fs_ok_del:
  assumes "fs_ok w" "dir_at (files w) p \<Longrightarrow> fs_names (files w) p = []"
  shows "fs_ok (w\<lparr>files := fs_del p (files w)\<rparr>)"
proof (rule fs_okI [OF assms(1)])
  show "placed (files (w\<lparr>files := fs_del p (files w)\<rparr>)) q"
    if q: "look (files (w\<lparr>files := fs_del p (files w)\<rparr>)) q = Some m" for q m
  proof -
    have pl: "placed (files w) q" and look: "look (files w) q = Some m"
      using q fs_ok_placed [OF assms(1), of q] by (auto split: if_splits)
    have "butlast q \<noteq> p" if "q \<noteq> []" "dir_at (files w) (butlast q)"
    proof
      assume p: "butlast q = p"
      then have "q = p @ [last q]" using that(1) by auto
      then have "last q \<in> set (fs_names (files w) p)"
        using look pl that(1) by (auto simp: fs_names_iff placed_def list_all_iff)
      then show False using assms(2) that(2) p by simp
    qed
    then show ?thesis using pl by (auto simp: placed_def dir_at_def)
  qed
qed simp

lemma fs_ok_move:
  assumes "fs_ok w" "placed (files w) new" "\<not> prefix old new" "\<not> prefix new old"
  shows "fs_ok (w\<lparr>files := fs_move old new (files w)\<rparr>)"
proof (rule fs_okI [OF assms(1)])
  let ?fs = "files w" and ?fs' = "fs_move old new (files w)"
  have new: "new \<noteq> []" using assms(4) by auto
  then have short: "\<not> prefix new (butlast new)" using prefix_length_le [of new "butlast new"] by (cases new rule: rev_cases) auto
  have out: "\<not> prefix old (butlast new)"
    using assms(3) prefix_order.trans [OF _ prefixeq_butlast] by blast
  then have up: "dir_at ?fs' (butlast new)"
    using assms(2) new short out by (simp add: placed_def dir_at_def look_move)
  show "placed (files (w\<lparr>files := ?fs'\<rparr>)) q" if "look (files (w\<lparr>files := ?fs'\<rparr>)) q = Some m" for q m
  proof (cases "prefix new q")
    case True
    then obtain r where r: "q = new @ r" by (auto simp: prefix_def)
    then have l: "look ?fs (old @ r) = Some m" using that by (simp add: look_move)
    have "dir_at ?fs' (butlast q)" if "r \<noteq> []"
      using fs_ok_placed [OF assms(1) l] that by (auto simp: placed_def r butlast_append dir_at_def look_move)
    then show ?thesis
      using up fs_ok_placed [OF assms(1) l] assms(2) by (cases "r = []") (auto simp: placed_def r)
  next
    case False
    then have o: "\<not> prefix old q" "look ?fs q = Some m" using that by (auto simp: look_move split: if_splits)
    have "\<not> prefix new (butlast q)" "\<not> prefix old (butlast q)"
      using False o(1) by (metis prefix_order.trans prefixeq_butlast)+
    then show ?thesis using fs_ok_placed [OF assms(1) o(2)] by (auto simp: placed_def dir_at_def look_move)
  qed
qed simp

lemma fs_ok_append: "fs_ok w \<Longrightarrow> fs_ok (w\<lparr>files := fs_append h d (files w)\<rparr>)"
  using fs_ok_set [of w h] fs_ok_placed [of w h]
  by (auto simp: fs_append_def dir_at_def append_reg_def split: option.split node.split)

subsection \<open>Every call keeps the invariant\<close>

lemma keeps_sysc:
  assumes "\<And>w a w'. fs_ok w \<Longrightarrow> f w = Inr (a, w') \<Longrightarrow> fs_ok w'"
  shows "keeps fs_ok (sysc op s f)"
  by (rule keepsI) (auto simp: sysc_def split: option.splits sum.splits dest: assms [of "tick _", simplified])

lemma keeps_at_path:
  assumes "\<And>p w a w'. fs_ok w \<Longrightarrow> placed (files w) p \<Longrightarrow> f p (look (files w) p) w = Inr (a, w') \<Longrightarrow> fs_ok w'"
  shows "keeps fs_ok (at_path op s fl f)"
  unfolding at_path_def
  by (rule keeps_sysc) (auto split: sum.splits intro: assms resolve_placed)

lemma keeps_reads: "(\<And>w. files (snd (run_state m w)) = files w \<and> cwd (snd (run_state m w)) = cwd w) \<Longrightarrow> keeps fs_ok m"
  by (auto simp: keeps_def within_def fs_ok_def)

lemma keeps_reads_only: "reads_only m \<Longrightarrow> keeps fs_ok m"
  by (rule keeps_reads) (auto dest!: reads_onlyD dest: same_envD)

lemma keeps_emit [simp]: "keeps fs_ok (emit ev)"
  by (rule keeps_reads) (simp add: emit_def)

lemma fs_ok_set_same:
  "fs_ok w \<Longrightarrow> look (files w) p = Some n \<Longrightarrow> is_dir n' = is_dir n \<Longrightarrow> fs_ok (w\<lparr>files := fs_set p n' (files w)\<rparr>)"
  by (rule fs_ok_set) (auto simp: fs_ok_placed dir_at_iff)

lemma fs_ok_set_new:
  "fs_ok w \<Longrightarrow> look (files w) p = None \<Longrightarrow> placed (files w) p \<Longrightarrow> fs_ok (w\<lparr>files := fs_set p n (files w)\<rparr>)"
  by (rule fs_ok_set) (auto simp: dir_at_iff)

lemma fs_ok_del_look:
  "fs_ok w \<Longrightarrow> look (files w) p = Some n \<Longrightarrow> (is_dir n \<Longrightarrow> fs_names (files w) p = []) \<Longrightarrow>
     fs_ok (w\<lparr>files := fs_del p (files w)\<rparr>)"
  by (rule fs_ok_del) (auto simp: dir_at_iff)

lemma keeps_calls [simp]:
  "keeps fs_ok (os_Stat p)" "keeps fs_ok (os_Lstat p)" "keeps fs_ok (os_Readlink p)" "keeps fs_ok (ioutil_ReadFile p)"
  "keeps fs_ok (ioutil_ReadDir p)" "keeps fs_ok (fd_Close h)"
  by (rule keeps_reads_only, simp)+

lemma keeps_changes [simp]:
  "keeps fs_ok (os_Symlink t p)" "keeps fs_ok (os_Chmod p mo)" "keeps fs_ok (os_Mkdir p mo)"
  "keeps fs_ok (sys_unlink p)" "keeps fs_ok (sys_rmdir p)" "keeps fs_ok (os_OpenFile p fl mo)"
  "keeps fs_ok (unix_Lchown p u g)" "keeps fs_ok (os_Chown p u g)"
  unfolding os_Symlink_def os_Chmod_def os_Mkdir_def sys_unlink_def sys_rmdir_def os_OpenFile_def
    unix_Lchown_def os_Chown_def chown_gen_def
  by (rule keeps_at_path;
      auto split: option.splits if_splits node.splits intro: fs_ok_set_new fs_ok_set_same fs_ok_del_look)+

lemma keeps_rename [simp]: "keeps fs_ok (sys_rename a b)"
  unfolding sys_rename_def
  by (rule keeps_sysc)
    (auto split: sum.splits option.splits if_splits intro: fs_ok_move dest: resolve_placed)

lemma keeps_unlinkat [simp]: "keeps fs_ok (sys_unlinkat p)"
  unfolding sys_unlinkat_def
  by (rule keeps_sysc) (auto split: option.splits if_splits intro: fs_ok_del_look)

lemma keeps_Write [simp]: "keeps fs_ok (fd_Write h d)"
  by (rule keepsI) (auto simp: fd_Write_def split: option.splits intro: fs_ok_append [of "tick _", simplified])

lemmas keeps_finally [intro] = keep.within_finally [folded keeps_def]

lemma keeps_Remove [simp]: "keeps fs_ok (os_Remove p)"
  unfolding os_Remove_def by (intro keeps_intros keeps_return keeps_changes)

lemma keeps_remove_each: "keeps fs_ok (remove_each ps acc)"
  by (induction ps acc rule: remove_each.induct) (auto intro!: keeps_intros)

lemma keeps_RemoveAll [simp]: "keeps fs_ok (os_RemoveAll p)"
  unfolding os_RemoveAll_def by (intro keeps_intros keeps_return keeps_get keeps_remove_each)

lemma keeps_Rename [simp]: "keeps fs_ok (os_Rename a b)"
  unfolding os_Rename_def by (intro keeps_intros keeps_return keeps_get keeps_rename keeps_calls)

lemma keeps_MkdirAll [simp]: "keeps fs_ok (os_MkdirAll p mo)"
proof (induction p mo rule: os_MkdirAll.induct)
  case (1 p mo)
  show ?case
    by (subst os_MkdirAll.simps) (auto intro!: keeps_intros keeps_return 1)
qed

lemma keeps_temp [simp]:
  "keeps fs_ok (temp_file_try k pre suf)" "keeps fs_ok (temp_dir_try k dir pre suf)"
  by (induction k) (auto intro!: keeps_intros simp: Let_def)

lemma keeps_Temp [simp]: "keeps fs_ok (ioutil_TempFile dir pat)" "keeps fs_ok (ioutil_TempDir dir pat)"
  by (auto simp: ioutil_TempFile_def ioutil_TempDir_def Let_def intro!: keeps_intros)

lemma keeps_io_Copy [simp]: "keeps fs_ok (io_Copy f s)"
  unfolding io_Copy_def by (auto intro!: keeps_intros split: node.split option.split)

lemma keeps_copy_switchboard: "keeps fs_ok (copy_switchboard n src dest info)"
  by (induction n src dest info rule: copy_switchboard.induct)
    (auto simp: lcopy_def fcopy_def os_Open_def intro!: keeps_intros keeps_finally)

lemma keeps_Copy [simp]: "keeps fs_ok (copy_Copy a b)"
  unfolding copy_Copy_def by (intro keeps_intros keeps_copy_switchboard keeps_calls)

lemma keeps_Stat_version [simp]: "keeps fs_ok (StatComponentVersion r key c)"
  by (rule keeps_reads_only) simp

end
