(* ===== verification/Switch.thy ===== *)
theory Switch
  imports Component
begin

text \<open>
  \<^verbatim>\<open>CopyComponent\<close> is atomic and complete: under every schedule of failures it reports \<^verbatim>\<open>true\<close> exactly
  when the link \<open>current\<close> has moved, and then the version it names is a faithful copy of the source; and in a
  calm world nothing but a leftover of an earlier run keeps it from succeeding. The proof follows the code
  from the last step to the first: switching the links, installing the copied directory, copying it, making the
  temporary names, looking at source and destination.
\<close>

subsection \<open>The names of a copy\<close>

text \<open>A name a version may have: not one of the component's own names.\<close>

definition version_name :: "string \<Rightarrow> bool" where
  "version_name v \<longleftrightarrow> plain_name v \<and> CHR ''*'' \<notin> set v \<and>
     v \<notin> {''current'', ''previous'', ''current.tmp''}"

text \<open>The names the copy uses besides \<open>current\<close>: all of them differ from it.\<close>

definition side_names :: "string \<Rightarrow> string \<Rightarrow> string list" where
  "side_names v t = [''current.tmp'', t, v, v @ ''.old'', ''previous'']"

definition component_ok :: "path \<Rightarrow> string \<Rightarrow> string \<Rightarrow> bool" where
  "component_ok kd v t \<longleftrightarrow> list_all plain_name kd \<and> version_name v \<and> plain_name t \<and>
     t \<notin> {''current'', ''previous'', ''current.tmp'', v, v @ ''.old''}"

lemma component_ok_names:
  assumes "component_ok kd v t"
  shows "list_all plain_name kd" "plain_name v" "plain_name t" "plain_name (v @ ''.old'')"
    "plain_name ''current''" "plain_name ''previous''" "plain_name ''current.tmp''"
    "t \<noteq> ''current''" "t \<noteq> ''previous''" "t \<noteq> ''current.tmp''" "t \<noteq> v" "t \<noteq> v @ ''.old''"
    "v \<noteq> ''current''" "v \<noteq> ''previous''" "v \<noteq> ''current.tmp''" "v @ ''.old'' \<noteq> v"
    "v @ ''.old'' \<noteq> ''current''" "v @ ''.old'' \<noteq> ''previous''" "v @ ''.old'' \<noteq> ''current.tmp''"
proof -
  have l: "v @ ''.old'' \<noteq> s" if "last s \<noteq> CHR ''d''" for s
    using that by (auto dest: arg_cong [where f = last])
  show "v @ ''.old'' \<noteq> ''current''" "v @ ''.old'' \<noteq> ''previous''" "v @ ''.old'' \<noteq> ''current.tmp''"
    by (rule l, simp)+
  have "v @ ''.old'' \<noteq> ''.''" "v @ ''.old'' \<noteq> ''..''" by (rule l, simp)+
  then show "plain_name (v @ ''.old'')"
    using assms by (simp add: component_ok_def version_name_def plain_name_def)
qed (use assms in \<open>simp_all add: component_ok_def version_name_def plain_name_def\<close>)

lemma component_ok_temp:
  assumes "list_all plain_name kd" "version_name v"
  shows "component_ok kd v (v @ digits_base 10 n)"
proof -
  have "plain_name (v @ digits_base 10 n @ [])"
    using assms(2) by (intro digits_plain_name) (auto simp: version_name_def plain_name_def)
  then show ?thesis
    using assms digits_no_letter [of "''current''" v n] digits_no_letter [of "''previous''" v n]
      digits_no_letter [of "''current.tmp''" v n] digits_no_letter [of "v @ ''.old''" v n]
    by (auto simp: component_ok_def)
qed

subsection \<open>Where a run may be\<close>

text \<open>The source of the new version: a directory with something in it, apart from the component.\<close>

definition source_ok :: "fsys \<Rightarrow> path \<Rightarrow> path \<Rightarrow> bool" where
  "source_ok fs p kd \<longleftrightarrow> dir_at fs p \<and> fs_names fs p \<noteq> [] \<and> apart p kd"

text \<open>Where a run started in \<open>w\<close> may be: before the switch (\<open>b\<close> false) \<open>current\<close> is as it was; after it
  \<open>current\<close> names the new version, which is a faithful copy of the source \<open>p\<close>; nothing else in the system
  moved.\<close>

definition complete :: "path \<Rightarrow> string \<Rightarrow> path \<Rightarrow> world \<Rightarrow> world \<Rightarrow> bool" where
  "complete kd v p w u \<longleftrightarrow> faithful (files w) p (files u) (kd @ [v])"

definition mid :: "path \<Rightarrow> string \<Rightarrow> string \<Rightarrow> path \<Rightarrow> world \<Rightarrow> bool \<Rightarrow> world \<Rightarrow> bool" where
  "mid kd v t p w b u \<longleftrightarrow>
     same_env w u \<and>
     changes_below (map (\<lambda>c. kd @ [c]) (''current'' # side_names v t)) (files w) (files u) \<and>
     (if b then (\<exists>m. look (files u) (kd @ [''current'']) = Some (Lnk m v)) \<and> complete kd v p w u
      else look (files u) (kd @ [''current'']) = look (files w) (kd @ [''current'']))"

lemma complete_dir: "complete kd v p w u \<Longrightarrow> source_ok (files w) p kd \<Longrightarrow> dir_at (files u) (kd @ [v]) \<and> fs_names (files u) (kd @ [v]) \<noteq> []"
  unfolding complete_def source_ok_def by (auto intro: faithful_dir_at simp: faithful_names)

lemma mid_start: "same_env w u \<Longrightarrow> files u = files w \<Longrightarrow> mid kd v t p w False u"
  by (simp add: mid_def)

lemma mid_dirs: "mid kd v t p w b u \<Longrightarrow> real_dirs (files w) kd \<Longrightarrow> real_dirs (files u) kd"
  unfolding mid_def by (elim conjE, rule changes_below_real_dirs) auto

lemma mid_idle: "mid kd v t p w b u \<Longrightarrow> same_env u u' \<Longrightarrow> files u' = files u \<Longrightarrow> mid kd v t p w b u'"
  by (auto simp: mid_def complete_def intro: same_env_trans)

lemma mid_calm: "mid kd v t p w b u \<Longrightarrow> calm u = calm w"
  by (simp add: mid_def same_env_calm)

lemma changes_snoc_look:
  "changes_below (map (\<lambda>c. kd @ [c]) cs) fs fs' \<Longrightarrow> x \<notin> set cs \<Longrightarrow> look fs' (kd @ [x]) = look fs (kd @ [x])"
  by (rule changes_below_look) auto

lemma complete_apart:
  "complete kd v p w u \<Longrightarrow> changes_below (map (\<lambda>c. kd @ [c]) cs) (files u) (files u') \<Longrightarrow> v \<notin> set cs \<Longrightarrow> complete kd v p w u'"
  unfolding complete_def
  by (subst faithful_cong [OF same_tree_refl]) (auto intro!: same_tree_apart simp: apart_def)

text \<open>A step that touches only side names keeps \<open>mid\<close>, provided the new version stays complete.\<close>

lemma mid_step:
  assumes ok: "component_ok kd v t" and m: "mid kd v t p w b u" and e: "same_env u u'"
    and c: "changes_below (map (\<lambda>c. kd @ [c]) cs) (files u) (files u')" "set cs \<subseteq> set (side_names v t)"
    and d: "b \<Longrightarrow> v \<in> set cs \<Longrightarrow> complete kd v p w u \<Longrightarrow> complete kd v p w u'"
  shows "mid kd v t p w b u'"
proof -
  have "''current'' \<notin> set (side_names v t)"
    using component_ok_names [OF ok] by (auto simp: side_names_def)
  then have cur: "look (files u') (kd @ [''current'']) = look (files u) (kd @ [''current''])"
    using c(2) by (intro changes_snoc_look [OF c(1)]) auto
  have all: "changes_below (map (\<lambda>c. kd @ [c]) (''current'' # side_names v t)) (files w) (files u')"
    by (rule changes_below_step [OF _ c(1)]) (use m c(2) in \<open>auto simp: mid_def\<close>)
  have "complete kd v p w u'" if "b" "complete kd v p w u"
    using complete_apart [OF that(2) c(1)] d that by blast
  then show ?thesis
    using m cur all e by (auto simp: mid_def intro: same_env_trans)
qed

lemma mid_touched:
  assumes "component_ok kd v t" "mid kd v t p w b u" "touched (kd @ [c]) u u'" "c \<in> set (side_names v t)" "c \<noteq> v"
  shows "mid kd v t p w b u'"
  by (rule mid_step [OF assms(1,2), where cs = "[c]"]) (use assms(3-) in \<open>auto simp: touched_def\<close>)

lemma mid_resolve:
  "mid kd v t p w b u \<Longrightarrow> real_dirs (files w) kd \<Longrightarrow> list_all plain_name kd \<Longrightarrow> plain_name c \<Longrightarrow>
     files u' = files u \<Longrightarrow> resolve False u' (abs_string (kd @ [c])) = Inr (kd @ [c])"
  by (rule resolve_nofollow) (auto dest: mid_dirs)

lemma mid_Remove:
  assumes "component_ok kd v t" "mid kd v t p w b u" "real_dirs (files w) kd"
    and "c \<in> set (side_names v t)" "c \<noteq> v" "plain_name c"
  shows "wp (os_Remove (abs_string (kd @ [c]))) (\<lambda>_. mid kd v t p w b) u"
  using component_ok_names [OF assms(1)]
  by (intro wp_Remove_frame [where p = "kd @ [c]"] mid_resolve [OF assms(2,3)] mid_step [OF assms(1,2), where cs = "[c]"])
    (use assms(4-) in auto)

lemma mid_RemoveAll:
  assumes "component_ok kd v t" "mid kd v t p w b u" "real_dirs (files w) kd"
  shows "wp (os_RemoveAll (abs_string (kd @ [t]))) (\<lambda>_. mid kd v t p w b) u"
  using component_ok_names [OF assms(1)]
  by (intro wp_RemoveAll_frame [where p = "kd @ [t]"] mid_resolve [OF assms(2,3)] mid_step [OF assms(1,2), where cs = "[t]"])
    (auto simp: side_names_def)

text \<open>Renaming between side names: a complete version is not replaced, as it is no empty directory.\<close>

lemma mid_Rename:
  assumes "component_ok kd v t" "mid kd v t p w b u" "real_dirs (files w) kd" "source_ok (files w) p kd"
    and c: "a \<in> set (side_names v t)" "c \<in> set (side_names v t)" "a \<noteq> c" "plain_name a" "plain_name c"
    and b: "b \<Longrightarrow> a \<noteq> v"
    and E: "\<And>e u'. mid kd v t p w b u' \<Longrightarrow> files u' = files u \<Longrightarrow>
        \<not> (calm w \<and> rename_ok (files u) (kd @ [a]) (kd @ [c])) \<Longrightarrow> Q (Inl e) u'"
    and S: "\<And>u'. mid kd v t p w b u' \<Longrightarrow> files u' = fs_move (kd @ [a]) (kd @ [c]) (files u) \<Longrightarrow> Q (Inr ()) u'"
  shows "wp (os_Rename (abs_string (kd @ [a])) (abs_string (kd @ [c]))) Q u"
proof (rule wp_Rename [where p = "kd @ [a]" and q = "kd @ [c]"])
  show "resolve False u' (abs_string (kd @ [a])) = Inr (kd @ [a]) \<and> resolve False u' (abs_string (kd @ [c])) = Inr (kd @ [c])"
    if "files u' = files u" for u'
    using mid_resolve [OF assms(2,3)] component_ok_names(1) [OF assms(1)] c that by auto
  show "kd @ [a] \<noteq> kd @ [c]" using c by simp
  show "Q (Inl e) u'" if "same_env u u'" "files u' = files u" "\<not> (calm u \<and> rename_ok (files u) (kd @ [a]) (kd @ [c]))" for e u'
    by (rule E) (use that assms(2) mid_calm [OF assms(2)] in \<open>auto intro: mid_idle\<close>)
  fix u'
  assume u': "same_env u u'" "files u' = fs_move (kd @ [a]) (kd @ [c]) (files u)"
    "dir_at (files u) (kd @ [c]) \<longrightarrow> dir_at (files u) (kd @ [a]) \<and> fs_names (files u) (kd @ [c]) = []"
  have "mid kd v t p w b u'"
  proof (rule mid_step [OF assms(1,2) u'(1), where cs = "[a, c]"])
    show "complete kd v p w u'" if "b" "v \<in> set [a, c]" "complete kd v p w u"
      using complete_dir [OF that(3) assms(4)] that(1,2) b u'(3) by auto
  qed (use u' c in \<open>auto intro: changes_below_move\<close>)
  then show "Q (Inr ()) u'" using u' S by blast
qed

subsection \<open>The switch\<close>

text \<open>When a copy cannot fail but for an outside reason: the source is a tree of files, directories and
  links that is not too deep, no leftover of an earlier run is in the way, and \<open>current\<close>, when there is
  one, names another version.\<close>

definition upgradable :: "fsys \<Rightarrow> path \<Rightarrow> path \<Rightarrow> string \<Rightarrow> bool" where
  "upgradable fs p kd v \<longleftrightarrow> copyable 2048 fs p \<and> look fs (kd @ [''current.tmp'']) = None \<and>
     look fs (kd @ [v @ ''.old'']) = None \<and> (\<forall>m x. look fs (kd @ [v]) \<noteq> Some (Lnk m x)) \<and>
     (\<forall>n. look fs (kd @ [v @ digits_base 10 n]) = None) \<and>
     (look fs (kd @ [''current'']) = None \<or> (\<exists>v'. v' \<noteq> v \<and> has_version fs kd v'))"

text \<open>How the copy ends: \<open>True\<close> exactly when the switch happened, and in a calm world it does.\<close>

definition switched :: "path \<Rightarrow> string \<Rightarrow> string \<Rightarrow> path \<Rightarrow> world \<Rightarrow> bool result \<Rightarrow> world \<Rightarrow> bool" where
  "switched kd v t p w r u \<longleftrightarrow> mid kd v t p w (r = Inr True) u \<and>
     (r = Inr True \<or> \<not> (calm w \<and> upgradable (files w) p kd v))"

lemma switchedI: "mid kd v t p w False u \<Longrightarrow> \<not> (calm w \<and> upgradable (files w) p kd v) \<Longrightarrow> r \<noteq> Inr True \<Longrightarrow> switched kd v t p w r u"
  by (simp add: switched_def)

lemma mid_logs:
  assumes "wp m (\<lambda>_. K) u" "\<And>u x. K u \<Longrightarrow> K (u\<lparr>trace := x\<rparr>)" "\<And>u'. K u' \<Longrightarrow> Q () u'"
  shows "wp (log_error l m) Q u"
  unfolding wp_log_error by (rule wp_mono [OF assms(1)]) (auto split: sum.split intro: assms(2,3))

text \<open>A run of the copy: the component's directory, its source, and a \<open>current\<close> that is missing or a link.\<close>

definition run_ok :: "path \<Rightarrow> string \<Rightarrow> string \<Rightarrow> path \<Rightarrow> finfo \<Rightarrow> world \<Rightarrow> bool" where
  "run_ok kd v t p i w \<longleftrightarrow> component_ok kd v t \<and> real_dirs (files w) kd \<and>
     source_ok (files w) p kd \<and> look (files w) p = Some (fi_node i) \<and>
     (look (files w) (kd @ [''current'']) = None \<or> (\<exists>m x. look (files w) (kd @ [''current'']) = Some (Lnk m x)))"

lemma run_okD:
  assumes "run_ok kd v t p i w"
  shows "component_ok kd v t" "real_dirs (files w) kd" "source_ok (files w) p kd" "look (files w) p = Some (fi_node i)"
    "look (files w) (kd @ [''current'']) = None \<or> (\<exists>m x. look (files w) (kd @ [''current'']) = Some (Lnk m x))"
  using assms by (simp_all add: run_ok_def)

text \<open>Before the switch: the new version is complete, the new link is beside \<open>current\<close>.\<close>

definition ready_to_switch :: "path \<Rightarrow> string \<Rightarrow> string \<Rightarrow> path \<Rightarrow> world \<Rightarrow> world \<Rightarrow> bool" where
  "ready_to_switch kd v t p w u \<longleftrightarrow> mid kd v t p w False u \<and>
     (\<exists>m. look (files u) (kd @ [''current.tmp'']) = Some (Lnk m v)) \<and> complete kd v p w u"

lemma ready_mid: "ready_to_switch kd v t p w u \<Longrightarrow> mid kd v t p w False u"
  by (simp add: ready_to_switch_def)

lemma ready_logged: "ready_to_switch kd v t p w u \<Longrightarrow> ready_to_switch kd v t p w (u\<lparr>trace := x\<rparr>)"
  by (auto simp: ready_to_switch_def complete_def intro: mid_idle)

lemma ready_keep:
  assumes "component_ok kd v t" "ready_to_switch kd v t p w x" "same_env x x'"
    and c: "changes_below [kd @ [c]] (files x) (files x')" "c = ''previous'' \<or> c = v \<and> complete kd v p w x'"
  shows "ready_to_switch kd v t p w x'"
proof -
  note n = component_ok_names [OF assms(1)]
  have "mid kd v t p w False x'"
    by (rule mid_step [OF assms(1) ready_mid [OF assms(2)] assms(3), where cs = "[c]"])
      (use c in \<open>auto simp: side_names_def\<close>)
  moreover have "look (files x') (kd @ [''current.tmp'']) = look (files x) (kd @ [''current.tmp''])"
    by (rule changes_below_look [OF c(1)]) (use c(2) n in auto)
  moreover have "complete kd v p w x'"
    using c n assms(2) complete_apart [of kd v p w x "[c]" x'] by (auto simp: ready_to_switch_def)
  ultimately show ?thesis using assms(2) by (simp add: ready_to_switch_def)
qed

lemma ready_Chmod:
  assumes r: "run_ok kd v t p i w" and x: "ready_to_switch kd v t p w x"
  shows "wp (os_Chmod (abs_string (kd @ [v])) (fi_Mode i)) (\<lambda>_. ready_to_switch kd v t p w) x"
proof -
  note ok = run_okD [OF r] and n = component_ok_names [OF run_okD(1) [OF r]]
  have xc: "complete kd v p w x" using x by (simp add: ready_to_switch_def)
  obtain z where z: "look (files x) (kd @ [v]) = Some (Dir z)"
    using complete_dir [OF xc ok(3)] by (auto simp: dir_at_iff)
  let ?m = "map_meta (chmod_meta (syscallMode (fi_Mode i))) (Dir z)"
  have "is_dir (fi_node i)" using ok(3,4) by (auto simp: source_ok_def dir_at_iff)
  then have c: "complete kd v p w (x'\<lparr>files := fs_set (kd @ [v]) ?m (files x)\<rparr>)" for x'
    using faithful_chmod [OF _ ok(4) z] xc by (simp add: complete_def fi_Mode_def del: map_meta.simps)
  have rd: "real_dirs (files x) kd" using mid_dirs [OF ready_mid [OF x] ok(2)] .
  have t: "ready_to_switch kd v t p w (tick x)" by (rule ready_keep [OF ok(1) x, of _ "''previous''"]) simp_all
  have e: "ready_to_switch kd v t p w ((tick x)\<lparr>files := fs_set (kd @ [v]) ?m (files x)\<rparr>)"
    by (rule ready_keep [OF ok(1) x, of _ v]) (use c [of "tick x"] in \<open>simp_all del: map_meta.simps\<close>)
  show ?thesis
    by (rule wp_Chmod [OF resolve_notlink z]) (use rd n z t e in \<open>simp_all del: map_meta.simps\<close>)
qed

lemma ready_Remove:
  assumes r: "run_ok kd v t p i w" and x: "ready_to_switch kd v t p w x"
  shows "wp (os_Remove (abs_string (kd @ [''previous'']))) (\<lambda>_. ready_to_switch kd v t p w) x"
proof (rule wp_Remove_frame [where p = "kd @ [''previous'']"])
  note ok = run_okD [OF r] and n = component_ok_names [OF run_okD(1) [OF r]]
  show "ready_to_switch kd v t p w x'"
    if "same_env x x'" "changes_below [kd @ [''previous'']] (files x) (files x')" for x'
    by (rule ready_keep [OF ok(1) x that]) simp
  show "resolve False y (abs_string (kd @ [''previous''])) = Inr (kd @ [''previous''])" if "files y = files x" for y
    by (rule mid_resolve [OF ready_mid [OF x] ok(2) n(1,6) that])
qed

lemma ready_Copy:
  assumes r: "run_ok kd v t p i w" and x: "ready_to_switch kd v t p w x"
  shows "wp (copy_Copy (abs_string (kd @ [''current''])) (abs_string (kd @ [''previous'']))) (\<lambda>_. ready_to_switch kd v t p w) x"
proof (rule wp_mono [OF copy_link_frame])
  note ok = run_okD [OF r] and n = component_ok_names [OF run_okD(1) [OF r]]
  show "look (files x) (kd @ [''current'']) = None \<or> (\<exists>m y. look (files x) (kd @ [''current'']) = Some (Lnk m y))"
    using ok(5) x by (simp add: ready_to_switch_def mid_def)
  show "ready_to_switch kd v t p w x'" if "touched (kd @ [''previous'']) x x'" for x'
    by (rule ready_keep [OF ok(1) x, where c = "''previous''"]) (use that in \<open>auto simp: touched_def\<close>)
qed (use component_ok_names [OF run_okD(1) [OF r]] mid_dirs [OF ready_mid [OF x] run_okD(2) [OF r]] in auto)

text \<open>The rename onto \<open>current\<close> is the switch.\<close>

lemma ready_Rename:
  assumes r: "run_ok kd v t p i w" and x: "ready_to_switch kd v t p w x"
  shows "wp (check (os_Rename (abs_string (kd @ [''current.tmp''])) (abs_string (kd @ [''current'']))) (\<lambda>_. ok True))
      (switched kd v t p w) x"
  unfolding wp_check
proof (rule wp_Rename [where p = "kd @ [''current.tmp'']" and q = "kd @ [''current'']"], goal_cases)
  case (1 y)
  then show ?case
    using mid_resolve [OF ready_mid [OF x] run_okD(2) [OF r]] component_ok_names [OF run_okD(1) [OF r]] by auto
next
  case (3 e y)
  have "rename_ok (files x) (kd @ [''current.tmp'']) (kd @ [''current''])"
    using x run_okD(5) [OF r] by (auto simp: rename_ok_def apart_def dir_at_iff ready_to_switch_def mid_def)
  then show ?case
    using 3 ready_mid [OF x] mid_calm [OF ready_mid [OF x]] by (auto intro!: switchedI intro: mid_idle)
next
  case (4 y)
  note n = component_ok_names [OF run_okD(1) [OF r]]
  have "\<exists>m. look (files y) (kd @ [''current'']) = Some (Lnk m v)"
    using x 4 by (auto simp: look_move ready_to_switch_def)
  moreover have "changes_below (map (\<lambda>c. kd @ [c]) (''current'' # side_names v t)) (files w) (files y)"
    using ready_mid [OF x] 4 by (auto simp: mid_def side_names_def intro!: changes_below_move)
  moreover have "complete kd v p w y"
    by (rule complete_apart [where u = x and cs = "[''current.tmp'', ''current'']"])
      (use x 4 n in \<open>auto simp: ready_to_switch_def intro!: changes_below_move\<close>)
  ultimately show ?case
    using ready_mid [OF x] 4 by (auto simp: switched_def mid_def intro: same_env_trans)
qed simp

abbreviation switch_at :: "path \<Rightarrow> string \<Rightarrow> finfo \<Rightarrow> bool result io" where
  "switch_at kd v i \<equiv> switch_version (abs_string (kd @ [v])) (fi_Mode i) (abs_string (kd @ [''previous'']))
     (abs_string (kd @ [''current''])) (abs_string (kd @ [''current.tmp'']))"

lemma mid_switch_version:
  assumes r: "run_ok kd v t p i w" and x: "ready_to_switch kd v t p w u"
  shows "wp (switch_at kd v i) (switched kd v t p w) u"
proof -
  note logs = mid_logs [of _ "ready_to_switch kd v t p w", OF _ ready_logged]
  show ?thesis
    unfolding switch_version_def wp_bind
    by (intro logs [OF ready_Chmod [OF r]] logs [OF ready_Remove [OF r]] logs [OF ready_Copy [OF r]] ready_Rename [OF r] x)
qed

subsection \<open>Installing, copying, staging\<close>

abbreviation install_at :: "path \<Rightarrow> string \<Rightarrow> string \<Rightarrow> finfo \<Rightarrow> bool result io" where
  "install_at kd v t i \<equiv> install_version (abs_string (kd @ [t])) (abs_string (kd @ [v])) (fi_Mode i)
     (abs_string (kd @ [''previous''])) (abs_string (kd @ [''current''])) (abs_string (kd @ [''current.tmp'']))"

abbreviation finish_at :: "path \<Rightarrow> string \<Rightarrow> string \<Rightarrow> finfo \<Rightarrow> bool result io" where
  "finish_at kd v t i \<equiv> check (os_Rename (abs_string (kd @ [t])) (abs_string (kd @ [v]))) (\<lambda>_. switch_at kd v i)"

text \<open>Before the installation: the copy is complete under its temporary name; later, unless something fails,
  the name of the version is free.\<close>

definition ready_to_install :: "path \<Rightarrow> string \<Rightarrow> string \<Rightarrow> path \<Rightarrow> world \<Rightarrow> world \<Rightarrow> bool" where
  "ready_to_install kd v t p w u \<longleftrightarrow> mid kd v t p w False u \<and>
     (\<exists>m. look (files u) (kd @ [''current.tmp'']) = Some (Lnk m v)) \<and> faithful (files w) p (files u) (kd @ [t])"

definition name_free :: "path \<Rightarrow> string \<Rightarrow> path \<Rightarrow> world \<Rightarrow> world \<Rightarrow> bool" where
  "name_free kd v p w u \<longleftrightarrow> (calm w \<and> upgradable (files w) p kd v \<longrightarrow> look (files u) (kd @ [v]) = None)"

lemma install_finish:
  assumes r: "run_ok kd v t p i w" and x: "ready_to_install kd v t p w x" "name_free kd v p w x"
  shows "wp (finish_at kd v t i) (switched kd v t p w) x"
proof -
  note ok = run_okD [OF r] and n = component_ok_names [OF run_okD(1) [OF r]]
  have m: "mid kd v t p w False x" and f: "faithful (files w) p (files x) (kd @ [t])"
    using x(1) by (simp_all add: ready_to_install_def)
  show ?thesis
    unfolding wp_check
  proof (rule mid_Rename [OF ok(1) m ok(2,3)], goal_cases)
    case (7 e y)
    have "look (files x) (kd @ [t]) \<noteq> None"
      using f faithful_look(1) ok(4) by (metis option.rel_distinct(2))
    then have "rename_ok (files x) (kd @ [t]) (kd @ [v])" if "calm w \<and> upgradable (files w) p kd v"
      using that x(2) n by (simp add: name_free_def rename_ok_def apart_def dir_at_def)
    then show ?case using 7 by (auto intro!: switchedI)
  next
    case (8 y)
    then have "ready_to_switch kd v t p w y"
      using x n by (auto simp: ready_to_switch_def ready_to_install_def look_move complete_def intro: faithful_move)
    then show ?case using mid_switch_version [OF r] by simp
  qed (use n in \<open>auto simp: side_names_def\<close>)
qed

lemma install_keep:
  assumes ok: "component_ok kd v t" and u: "ready_to_install kd v t p w u" and m: "mid kd v t p w False y"
    and c: "changes_below (map (\<lambda>c. kd @ [c]) [v, v @ ''.old'']) (files u) (files y)"
  shows "ready_to_install kd v t p w y"
proof -
  note n = component_ok_names [OF ok]
  have "look (files y) (kd @ [''current.tmp'']) = look (files u) (kd @ [''current.tmp''])"
    by (rule changes_snoc_look [OF c]) (use n in auto)
  moreover have "same_tree (kd @ [t]) (files u) (files y)"
    by (rule same_tree_apart [OF c]) (use n in \<open>auto simp: apart_def\<close>)
  ultimately show ?thesis using u m faithful_cong [OF same_tree_refl] by (simp add: ready_to_install_def)
qed

lemma install_restore:
  assumes r: "run_ok kd v t p i w" and s: "switched kd v t p w r' x"
  shows "wp (os_Rename (abs_string (kd @ [v @ ''.old''])) (abs_string (kd @ [v]))) (\<lambda>_. switched kd v t p w r') x"
  using s unfolding switched_def
  by (intro mid_Rename [OF run_okD(1) [OF r] _ run_okD(2,3) [OF r]])
    (use component_ok_names [OF run_okD(1) [OF r]] in \<open>auto simp: side_names_def\<close>)

text \<open>An older directory of the same name is moved aside, anything else removed.\<close>

lemma install_aside:
  assumes r: "run_ok kd v t p i w" and y: "ready_to_install kd v t p w y"
    and o: "calm w \<and> upgradable (files w) p kd v \<Longrightarrow> dir_at (files y) (kd @ [v]) \<and> look (files y) (kd @ [v @ ''.old'']) = None"
  shows "wp (check (os_Rename (abs_string (kd @ [v])) (abs_string (kd @ [v @ ''.old'']))) (\<lambda>_.
          defer_after (finish_at kd v t i) (os_Rename (abs_string (kd @ [v @ ''.old''])) (abs_string (kd @ [v])))))
      (switched kd v t p w) y"
proof -
  note ok = run_okD [OF r] and n = component_ok_names [OF run_okD(1) [OF r]]
  have m: "mid kd v t p w False y" using y by (simp add: ready_to_install_def)
  have ren: "rename_ok (files y) (kd @ [v]) (kd @ [v @ ''.old''])" if "calm w \<and> upgradable (files w) p kd v"
    using o [OF that] by (auto simp: rename_ok_def apart_def dir_at_iff)
  show ?thesis
    unfolding wp_check [of "os_Rename (abs_string (kd @ [v])) _"]
  proof (intro mid_Rename [OF ok(1) m ok(2,3)], goal_cases)
    case (8 z)
    have "ready_to_install kd v t p w z"
      by (rule install_keep [OF ok(1) y 8(1)]) (use 8(2) in \<open>auto intro!: changes_below_move\<close>)
    moreover have "name_free kd v p w z" using 8(2) n by (simp add: name_free_def look_move)
    ultimately show ?case
      unfolding sum.case by (intro wp_deferI [OF install_finish [OF r]] install_restore [OF r])
  qed (use n ren in \<open>auto simp: side_names_def intro: switchedI\<close>)
qed

lemma install_over:
  assumes r: "run_ok kd v t p i w" and y: "ready_to_install kd v t p w y"
    and o: "calm w \<and> upgradable (files w) p kd v \<Longrightarrow> look (files y) (kd @ [v]) = Some m \<and> \<not> is_dir m"
  shows "wp (os_Remove (abs_string (kd @ [v]))) (\<lambda>_. wp (finish_at kd v t i) (switched kd v t p w)) y"
proof (rule wp_mono [OF wp_Remove_plain [where p = "kd @ [v]" and up = "calm w \<and> upgradable (files w) p kd v" and n = m]], goal_cases)
  note ok = run_okD [OF r] and n = component_ok_names [OF run_okD(1) [OF r]]
  have mid: "mid kd v t p w False y" using y by (simp add: ready_to_install_def)
  case (1 z)
  then show ?case using mid_resolve [OF mid ok(2) n(1,2)] by simp
next
  case 2
  then show ?case using o mid_calm [of kd v t p w False y] y by (simp add: ready_to_install_def)
next
  case (3 a z)
  note ok = run_okD [OF r] and n = component_ok_names [OF run_okD(1) [OF r]]
  have mid: "mid kd v t p w False y" using y by (simp add: ready_to_install_def)
  have "mid kd v t p w False z"
    by (rule mid_step [OF ok(1) mid, where cs = "[v]"]) (use 3 in \<open>auto simp: side_names_def\<close>)
  moreover have "changes_below (map (\<lambda>c. kd @ [c]) [v, v @ ''.old'']) (files y) (files z)"
    by (rule changes_below_mono [where ps = "[kd @ [v]]"]) (use 3 in auto)
  ultimately show ?case by (intro install_finish [OF r] install_keep [OF ok(1) y]) (use 3 in \<open>auto simp: name_free_def\<close>)
qed

lemma mid_install_version:
  assumes r: "run_ok kd v t p i w" and u: "ready_to_install kd v t p w u"
    and c: "changes_below (map (\<lambda>c. kd @ [c]) [''current.tmp'', t]) (files w) (files u)"
  shows "wp (install_at kd v t i) (switched kd v t p w) u"
proof -
  note ok = run_okD [OF r] and n = component_ok_names [OF run_okD(1) [OF r]]
  have m: "mid kd v t p w False u" using u by (simp add: ready_to_install_def)
  have old: "abs_string (kd @ [v]) @ ''.old'' = abs_string (kd @ [v @ ''.old''])"
    by (simp add: abs_string_snoc)
  have here: "look (files u) (kd @ [z]) = look (files w) (kd @ [z])" if "z \<in> {v, v @ ''.old''}" for z
    by (rule changes_snoc_look [OF c]) (use that n in auto)
  show ?thesis
    unfolding install_version_def Let_def old
  proof (rule wp_bindI [OF wp_Stat_entry [OF mid_dirs [OF m ok(2)] n(1,2)]], goal_cases)
    case (1 r' y)
    then have y: "same_env u y" "files y = files u" "calm y = calm w" using mid_calm [OF m] same_env_calm by blast+
    have i: "ready_to_install kd v t p w y"
      using u mid_idle [OF m y(1,2)] y(2) by (simp add: ready_to_install_def)
    have st: "look (files y) (kd @ [v]) = (case r' of Inl _ \<Rightarrow> None | Inr i \<Rightarrow> Some (fi_node i)) \<and>
        look (files y) (kd @ [v @ ''.old'']) = None" if "calm w \<and> upgradable (files w) p kd v"
      using 1 that mid_calm [OF m] here y(2) by (simp add: upgradable_def)
    consider (missing) e where "r' = Inl e" | (dir) j where "r' = Inr j" "fi_IsDir j" | (other) j where "r' = Inr j" "\<not> fi_IsDir j"
      by (cases r') auto
    then show ?case
    proof cases
      case missing
      then show ?thesis using install_finish [OF r i] st by (simp add: name_free_def)
    next
      case dir
      then have "\<exists>m. fi_node j = Dir m" by (cases "fi_node j") (auto simp: fi_IsDir_iff)
      then show ?thesis
        using dir install_aside [OF r i] st by (auto simp: dir_at_iff fi_IsDir_iff dir_at_is_dir simp del: wp_check)
    next
      case other
      then show ?thesis
        using install_over [OF r i, of "fi_node j"] st by (auto simp: fi_IsDir_iff simp del: wp_check)
    qed
  qed
qed

lemma switched_cleanup:
  assumes "component_ok kd v t" "switched kd v t p w r u" "real_dirs (files w) kd"
  shows "wp (os_RemoveAll (abs_string (kd @ [t]))) (\<lambda>_. switched kd v t p w r) u"
    and "wp (os_Remove (abs_string (kd @ [''current.tmp'']))) (\<lambda>_. switched kd v t p w r) u"
proof -
  have m: "mid kd v t p w (r = Inr True) u" using assms(2) by (simp add: switched_def)
  show "wp (os_RemoveAll (abs_string (kd @ [t]))) (\<lambda>_. switched kd v t p w r) u"
    by (rule wp_mono [OF mid_RemoveAll [OF assms(1) m assms(3)]]) (use assms(2) in \<open>simp add: switched_def\<close>)
  show "wp (os_Remove (abs_string (kd @ [''current.tmp'']))) (\<lambda>_. switched kd v t p w r) u"
    by (rule wp_mono [OF mid_Remove [OF assms(1) m assms(3)]])
      (use assms(2) component_ok_names [OF assms(1)] in \<open>auto simp: switched_def side_names_def\<close>)
qed

text \<open>The new version is copied beside the old one and installed, under a temporary name that is free.\<close>

lemma run_source:
  assumes r: "run_ok kd v t (sd @ [x]) i w" and s: "real_dirs (files w) sd" "tree_fs (files w)"
    and c: "changes_below (map (\<lambda>c. kd @ [c]) cs) (files w) (files u)"
  shows "same_tree (sd @ [x]) (files w) (files u)" "real_dirs (files u) sd" "dir_at (files u) (sd @ [x])"
    "rooted (files u) (sd @ [x])" "apart (sd @ [x]) (kd @ [z])"
proof -
  let ?p = "sd @ [x]"
  have src: "source_ok (files w) ?p kd" by (rule run_okD(3) [OF r])
  have ap: "apart ?p (kd @ [z])" for z
    using apart_children [of ?p kd "[]" "[z]"] src by (simp add: source_ok_def)
  then show "apart ?p (kd @ [z])" .
  have out: "\<not> prefix (kd @ [z]) sd" for z
    using ap [of z] prefix_order.trans [of "kd @ [z]" sd ?p] by (auto simp: apart_def)
  show st: "same_tree ?p (files w) (files u)" by (rule same_tree_apart [OF c]) (use ap in auto)
  show "real_dirs (files u) sd" by (rule changes_below_real_dirs [OF c _ s(1)]) (use out in auto)
  show "dir_at (files u) ?p"
    using src st by (simp add: source_ok_def dir_at_def same_tree_def [of ?p] spec [of _ "[]"])
  show "rooted (files u) ?p" using rooted_tree [OF s(2)] rooted_cong [OF st] by simp
qed

abbreviation copy_at :: "path \<Rightarrow> path \<Rightarrow> string \<Rightarrow> string \<Rightarrow> finfo \<Rightarrow> bool result io" where
  "copy_at p kd v t i \<equiv> defer_after
     (check (copy_Copy (abs_string p) (abs_string (kd @ [t]))) (\<lambda>_. install_at kd v t i))
     (os_RemoveAll (abs_string (kd @ [t])))"

lemma mid_copy_version:
  assumes r: "run_ok kd v t (sd @ [v]) i w" and m: "mid kd v t (sd @ [v]) w False x"
    and s: "real_dirs (files w) sd" "list_all plain_name (sd @ [v])" "tree_fs (files w)"
    and tmp: "look (files x) (kd @ [''current.tmp'']) = Some (Lnk m' v)"
    and t: "dir_at (files x) (kd @ [t])" "blank (files x) (kd @ [t])"
    and c: "changes_below (map (\<lambda>c. kd @ [c]) [''current.tmp'', t]) (files w) (files x)"
  shows "wp (copy_at (sd @ [v]) kd v t i) (switched kd v t (sd @ [v]) w) x"
proof (rule wp_deferI [OF _ switched_cleanup(1) [OF run_okD(1) [OF r] _ run_okD(2) [OF r]]])
  let ?p = "sd @ [v]"
  note n = component_ok_names [OF run_okD(1) [OF r]] and src = run_source [OF r s(1,3) c]
  have e: "same_env w x" using m by (simp add: mid_def)
  have mid: "mid kd v t ?p w False y" if "touched (kd @ [t]) x y" for y
    using mid_touched [OF run_okD(1) [OF r] m that] n by (simp add: side_names_def)
  show "wp (check (copy_Copy (abs_string ?p) (abs_string (kd @ [t]))) (\<lambda>_. install_at kd v t i)) (switched kd v t ?p w) x"
  proof (rule wp_checkI [OF wp_Copy_copies [OF src(2) s(2) src(3,4) mid_dirs [OF m run_okD(2) [OF r]] _ t(2) src(5)]], goal_cases)
    case (2 er y)
    then show ?case
      using mid copyable_cong [OF src(1)] same_env_calm [OF e]
      by (auto simp: tree_copied_def upgradable_def intro!: switchedI)
  next
    case (3 a y)
    have "look (files y) (kd @ [''current.tmp'']) = Some (Lnk m' v)"
      using 3 tmp n changes_below_look [of "[kd @ [t]]" "files x" "files y" "kd @ [''current.tmp'']"]
      by (simp add: touched_def)
    moreover have "faithful (files w) ?p (files y) (kd @ [t])"
      using 3 faithful_cong [OF src(1) same_tree_refl] by (simp add: tree_copied_def)
    moreover have "changes_below (map (\<lambda>c. kd @ [c]) [''current.tmp'', t]) (files w) (files y)"
      by (rule changes_below_trans [OF c], rule changes_below_mono [where ps = "[kd @ [t]]"])
        (use 3 in \<open>auto simp: touched_def\<close>)
    ultimately show ?case
      using 3 mid by (intro mid_install_version [OF r]) (auto simp: ready_to_install_def)
  qed (use n in simp)
qed

text \<open>A temporary name is always found; what it is does not matter.\<close>

definition switched_any :: "path \<Rightarrow> string \<Rightarrow> path \<Rightarrow> world \<Rightarrow> bool result \<Rightarrow> world \<Rightarrow> bool" where
  "switched_any kd v p w r u \<longleftrightarrow> (\<exists>n. switched kd v (v @ digits_base 10 n) p w r u)"

lemma switched_any_failed:
  assumes "same_env w y" "\<not> (calm w \<and> upgradable (files w) p kd v)"
    and "files y = files w \<or> (\<exists>m. files y = fs_set (kd @ [''current.tmp'']) (Lnk m v) (files w))"
  shows "switched_any kd v p w (Inl e) y"
  unfolding switched_any_def
  by (rule exI [of _ 0], rule switchedI) (use assms in \<open>auto simp: mid_def side_names_def\<close>)

lemma switched_any_cleanup:
  assumes "list_all plain_name kd" "version_name v" "switched_any kd v p w r y" "real_dirs (files w) kd"
  shows "wp (os_Remove (abs_string (kd @ [''current.tmp'']))) (\<lambda>_. switched_any kd v p w r) y"
proof -
  obtain k where k: "switched kd v (v @ digits_base 10 k) p w r y" using assms(3) by (auto simp: switched_any_def)
  show ?thesis
    by (rule wp_mono [OF switched_cleanup(2) [OF component_ok_temp [OF assms(1,2)] k assms(4)]]) (auto simp: switched_any_def)
qed

lemma mid_made_version:
  assumes v: "version_name v" and r: "\<And>k. run_ok kd v (v @ digits_base 10 k) (sd @ [v]) i w"
    and s: "real_dirs (files w) sd" "list_all plain_name (sd @ [v])" "tree_fs (files w)"
    and x: "same_env w x" "files x = fs_set (kd @ [''current.tmp'']) (Lnk m v) (files w)"
  shows "wp (check (case PathSplit (abs_string (kd @ [v])) of (dir, base) \<Rightarrow> ioutil_TempDir dir base) (\<lambda>t.
      defer_after (check (copy_Copy (abs_string (sd @ [v])) t) (\<lambda>_.
         install_version t (abs_string (kd @ [v])) (fi_Mode i) (abs_string (kd @ [''previous'']))
           (abs_string (kd @ [''current''])) (abs_string (kd @ [''current.tmp'']))))
        (os_RemoveAll t))) (switched_any kd v (sd @ [v]) w) x"
proof -
  note ok = run_okD(1) [OF r] and n = component_ok_names [OF run_okD(1) [OF r]]
  have nv: "SLASH \<notin> set v" "CHR ''*'' \<notin> set v" using v by (auto simp: version_name_def plain_name_def)
  have mid: "mid kd v (v @ digits_base 10 k) (sd @ [v]) w False x" for k
    using x by (auto simp: mid_def side_names_def)
  show ?thesis
    unfolding PathSplit_in_dir [OF n(2)] prod.case wp_check [of "ioutil_TempDir _ _"]
  proof (rule wp_TempDir [OF mid_dirs [OF mid run_okD(2) [OF r]] n(1) nv], goal_cases)
    case (1 e y)
    have "look (files x) (kd @ [v @ digits_base 10 k]) = None" if "upgradable (files w) (sd @ [v]) kd v" for k
      using that x(2) component_ok_names(10) [OF ok [of k]] by (simp add: upgradable_def)
    then show ?case
      using 1 x same_env_calm [OF x(1)] same_env_trans [OF x(1)] by (auto intro!: switched_any_failed)
  next
    case (2 k m'' y)
    let ?t = "v @ digits_base 10 k"
    have ne: "?t \<noteq> ''current.tmp''" using component_ok_names(10) [OF ok] .
    then have "look (files w) (kd @ [?t]) = None" using 2(2) x(2) by (auto split: if_splits)
    then have b: "look (files y) q = None" if "strict_prefix (kd @ [?t]) q" for q
      using tree_fs_below [OF s(3), of "kd @ [?t]" q] that ne 2(3) x(2) by (auto simp: strict_prefix_def)
    have m: "mid kd v ?t (sd @ [v]) w False y"
      by (rule mid_step [OF ok mid 2(1), where cs = "[?t]"]) (use 2(3) in \<open>auto simp: side_names_def\<close>)
    have "wp (copy_at (sd @ [v]) kd v ?t i) (switched kd v ?t (sd @ [v]) w) y"
    proof (rule mid_copy_version [OF r m s])
      show "look (files y) (kd @ [''current.tmp'']) = Some (Lnk m v)" using 2(3) x(2) ne by auto
      show "blank (files y) (kd @ [?t])" using 2(3) b by (simp add: blank_def dir_at_iff)
    qed (use 2(3) x(2) in \<open>simp_all add: dir_at_iff\<close>)
    then show ?case unfolding sum.case by (rule wp_mono) (auto simp: switched_any_def)
  qed
qed

lemma mid_stage_version:
  assumes v: "version_name v" and r: "\<And>k. run_ok kd v (v @ digits_base 10 k) (sd @ [v]) i w"
    and s: "real_dirs (files w) sd" "list_all plain_name (sd @ [v])" "tree_fs (files w)"
    and u: "same_env w u" "files u = files w"
  shows "wp (stage_version (abs_string (sd @ [v])) (abs_string (kd @ [v])) (fi_Mode i) (abs_string (kd @ [''previous'']))
      (abs_string (kd @ [''current''])) (abs_string (kd @ [''current.tmp'']))) (switched_any kd v (sd @ [v]) w) u"
proof -
  note ok = run_okD [OF r] and n = component_ok_names [OF run_okD(1) [OF r]]
  note made = wp_deferI [OF mid_made_version [OF v r s] switched_any_cleanup [OF n(1) v _ ok(2)]]
  show ?thesis
    unfolding stage_version_def PathBase_abs_snoc [OF n(2)] wp_check [of "os_Symlink _ _"]
    unfolding os_Symlink_def
  proof (rule wp_at_path_fair [OF resolve_nofollow], goal_cases)
    case (5)
    then show ?case
      using u made by (auto simp del: wp_defer split: option.split simp: upgradable_def intro!: switched_any_failed)
  qed (use u ok n same_env_calm [OF u(1)] in \<open>auto intro!: switched_any_failed\<close>)
qed


subsection \<open>The whole copy\<close>

text \<open>In a calm world an older \<open>current\<close> is recognised as such.\<close>

lemma wp_Stat_destination:
  assumes d: "real_dirs (files u) (D @ [key])" "list_all plain_name (D @ [key])"
  shows "wp (StatComponentVersion (abs_string D) key VersionCurrent) (\<lambda>r y. env_kept u y \<and>
     (calm u \<longrightarrow> look (files u) ((D @ [key]) @ [''current'']) = None \<or> (\<exists>v'. v' \<noteq> v \<and> has_version (files u) (D @ [key]) v') \<longrightarrow>
        (case fst r of Some i \<Rightarrow> fi_name i \<noteq> v | None \<Rightarrow> True))) u"
proof -
  have ro: "wp (StatComponentVersion (abs_string D) key VersionCurrent) (\<lambda>_. env_kept u) u"
    by (rule reads_only_wp) simp
  consider (old) v' where "v' \<noteq> v" "has_version (files u) (D @ [key]) v'"
    | (missing) "look (files u) ((D @ [key]) @ [''current'']) = None"
    | (other) "\<not> (look (files u) ((D @ [key]) @ [''current'']) = None \<or> (\<exists>v'. v' \<noteq> v \<and> has_version (files u) (D @ [key]) v'))"
    by metis
  then show ?thesis
  proof cases
    case old
    have "wp (StatComponentVersion (abs_string D) key VersionCurrent)
        (\<lambda>r _. calm u \<longrightarrow> (case fst r of Some i \<Rightarrow> fi_name i \<noteq> v | None \<Rightarrow> True)) u"
      by (rule wp_StatComponentVersion [OF old(2)]) (use old(1) in simp_all)
    then show ?thesis by (rule wp_mono [OF wp_conj [OF ro]]) blast
  next
    case missing
    have p: "PathJoin [abs_string D, key, ''current''] = abs_string ((D @ [key]) @ [''current''])"
      by (rule component_paths [OF d(2)]) (simp add: plain_name_def)
    have "wp (StatComponentVersion (abs_string D) key VersionCurrent) (\<lambda>r _. fst r = None) u"
      unfolding StatComponentVersion_def Let_def VersionCurrent_def p wp_bind [of "os_Stat _"]
      unfolding os_Stat_def [of "abs_string _"]
      by (rule wp_at_path_res [OF resolve_notlink]) (use d missing in \<open>auto simp: plain_name_def\<close>)
    then show ?thesis by (rule wp_mono [OF wp_conj [OF ro]]) auto
  next
    case other
    show ?thesis by (rule wp_mono [OF ro]) (use other in auto)
  qed
qed

text \<open>The remount of the destination touches no file and works in a calm world.\<close>

lemma remount_flags:
  "mount_parseOptions ''remount,rw'' = (32, [])" "(32 :: mflags) AND (MS_REMOUNT OR MS_PRIVATE OR MS_SHARED) \<noteq> 0"
  "(32 :: mflags) AND MS_REMOUNT = MS_REMOUNT" "(32 :: mflags) AND MS_BIND \<noteq> MS_BIND"
  by (simp_all add: mount_parseOptions_def mount_flag_table_def MS_defs)

lemma wp_remount:
  assumes "\<And>r w'. env_kept w w' \<Longrightarrow> calm w \<and> real_dirs (files w) D \<and> list_all plain_name D \<and> dst = abs_string D \<longrightarrow> r = Inr () \<Longrightarrow> Q r w'"
  shows "wp (mount_Mount [] dst ''none'' ''remount,rw'') Q w"
proof (cases "real_dirs (files w) D \<and> list_all plain_name D \<and> dst = abs_string D")
  case True
  then have "dir_at (files w) D" by (auto dest: real_dirs_self)
  then show ?thesis
    unfolding mount_Mount_def mount_ForceMount_def remount_flags fst_conv prod.case unix_Mount_def
    using True remount_flags(2,3,4)
    by (auto simp: dir_at_iff intro!: wp_at_path_fair [OF resolve_real_dir] assms)
next
  case False
  then show ?thesis
    unfolding mount_Mount_def mount_ForceMount_def remount_flags fst_conv prod.case unix_Mount_def
    using remount_flags(2,3,4) by (auto intro!: wp_at_path_any assms split: option.split)
qed

lemma wp_remount_if:
  assumes "env_kept w u" "real_dirs (files w) (D @ [key])" "list_all plain_name (D @ [key])"
  shows "wp (if remount then mount_Mount [] (abs_string D) ''none'' ''remount,rw'' else ok ())
      (\<lambda>r y. env_kept w y \<and> (calm w \<longrightarrow> r = Inr ())) u"
  using assms same_env_calm [of w u]
  by (auto simp: real_dirs_snoc intro!: wp_remount [where D = D] intro: same_env_trans)

lemma switched_any_idle:
  assumes "env_kept w u" "r \<noteq> Inr True" "\<not> (calm w \<and> upgradable (files w) p kd v)"
  shows "switched_any kd v p w r u"
  using assms by (auto simp: switched_any_def intro!: exI [of _ 0] switchedI mid_start)

lemma stage_remounted:
  assumes v: "version_name v" and r: "\<And>k. run_ok (D @ [key]) v (v @ digits_base 10 k) (sd @ [v]) i w"
    and s: "real_dirs (files w) sd" "list_all plain_name (sd @ [v])" "tree_fs (files w)"
    and d: "real_dirs (files w) (D @ [key])" "list_all plain_name (D @ [key])" and u: "env_kept w u"
  shows "wp (check (if remount then mount_Mount [] (abs_string D) ''none'' ''remount,rw'' else ok ()) (\<lambda>_.
      stage_version (abs_string (sd @ [v])) (abs_string ((D @ [key]) @ [v])) (fi_Mode i) (abs_string ((D @ [key]) @ [''previous'']))
      (abs_string ((D @ [key]) @ [''current''])) (abs_string ((D @ [key]) @ [''current.tmp'']))))
      (switched_any (D @ [key]) v (sd @ [v]) w) u"
proof (rule wp_checkI [OF wp_remount_if [OF u d]], goal_cases)
  case (1 e y)
  then show ?case by (intro switched_any_idle) auto
next
  case (2 a y)
  then show ?case by (intro mid_stage_version [OF v r s]) auto
qed

lemma CopyComponent_switched:
  assumes src: "has_version (files w) (S @ [key]) v" "fs_names (files w) (S @ [key, v]) \<noteq> []" "apart S D"
    and v: "version_name v" and tree: "tree_fs (files w)"
    and d: "real_dirs (files w) (D @ [key])" "list_all plain_name (D @ [key])"
    and cur: "look (files w) ((D @ [key]) @ [''current'']) = None \<or> (\<exists>m x. look (files w) ((D @ [key]) @ [''current'']) = Some (Lnk m x))"
  shows "wp (CopyComponent (abs_string S) (abs_string D) remount key)
     (\<lambda>r u. \<exists>n. switched (D @ [key]) v (v @ digits_base 10 n) (S @ [key, v]) w r u) w"
proof -
  let ?kd = "D @ [key]" and ?sd = "S @ [key]"
  let ?P = "switched_any ?kd v (?sd @ [v]) w"
  have n: "plain_name v" "plain_name ''current''" "plain_name ''previous''" using v by (auto simp: version_name_def plain_name_def)
  have k: "real_dirs (files w) ?sd" "list_all plain_name (?sd @ [v])" "dir_at (files w) (?sd @ [v])"
    using src(1) by (auto simp: has_version_def)
  have so: "source_ok (files w) (?sd @ [v]) ?kd"
    using k src apart_children [of S D "[key, v]" "[key]"] by (simp add: source_ok_def)
  note p = component_paths [OF d(2) n(1)] component_paths [OF d(2) n(2)] component_paths [OF d(2) n(3)]
  have tmp: "abs_string (?kd @ [''current'']) @ ''.tmp'' = abs_string (?kd @ [''current.tmp''])"
    unfolding abs_string_snoc [of ?kd] by simp
  have run: "run_ok ?kd v (v @ digits_base 10 j) (?sd @ [v]) i w" if "look (files w) (?sd @ [v]) = Some (fi_node i)" for i j
    using that so d(1) cur component_ok_temp [OF d(2) v] by (simp add: run_ok_def)
  note stage = stage_remounted [OF v run k(1,2) tree d]
  have "wp (CopyComponent (abs_string S) (abs_string D) remount key) ?P w"
    unfolding CopyComponent_def wp_bind [of "StatComponentVersion (abs_string S) _ _"]
  proof (rule wp_StatComponentVersion [OF src(1)], goal_cases)
    case (1 x e u)
    then show ?case using switched_any_idle [where w = w and u = u and r = "Inl e"] by (cases x) (simp_all del: wp_if)
  next
    case (2 i u)
    have pv: "PathJoin [abs_string S, key, fi_name i] = abs_string (?sd @ [v])" "PathJoin [abs_string D, key, fi_name i] = abs_string (?kd @ [v])"
      using component_paths [of S key v] p(1) k(2) n(1) 2(3) by simp_all
    show ?case
      unfolding prod.case sum.case option.case Let_def VersionPrevious_def VersionCurrent_def pv p(2,3) tmp
      unfolding VersionCurrent_def [symmetric]
    proof (rule wp_bindI [OF wp_Stat_destination [of u D key v]], goal_cases)
      case (3 r y)
      then have y: "env_kept w y" using 2 by (auto intro: same_env_trans)
      show ?case
      proof (cases "case fst r of Some j \<Rightarrow> fi_name j = fi_name i | None \<Rightarrow> False")
        case True
        then obtain j where j: "fst r = Some j" "fi_name j = v" using 2(3) by (auto split: option.splits)
        then have "\<not> (calm w \<and> upgradable (files w) (?sd @ [v]) ?kd v)"
          using 3 2(1,2) same_env_calm [OF 2(1)] unfolding upgradable_def j option.case by metis
        then show ?thesis
          unfolding if_P [OF True] wp_bind wp_emit wp_return
          using switched_any_idle [where w = w and u = "y\<lparr>trace := trace y @ [EvLog LInfo]\<rparr>" and r = "Inr False"] y by simp
      next
        case False
        show ?thesis
          unfolding if_not_P [OF False] VersionCurrent_def using stage [OF _ y, of i] 2(4) by (simp del: wp_check wp_if)
      qed
    qed (use 2 d in auto)
  qed
  then show ?thesis by (simp add: switched_any_def [abs_def])
qed

end
