(* ===== verification/UpgradeSafe.thy ===== *)
theory UpgradeSafe
  imports Invariants Switch
begin

text \<open>
  What an upgrade does to the system as a whole: the three components move independently, each
  atomically, and the run's summary \<open>atLeastOneComponentCopied\<close> is exactly that one of them moved; in a
  calm world all that are enabled move.
\<close>

subsection \<open>One component\<close>

lemma keeps_remount: "keeps fs_ok (mount_Mount [] dst ''none'' ''remount,rw'')"
proof (rule keepsI)
  fix w a w' assume w: "fs_ok w" "run_state (mount_Mount [] dst ''none'' ''remount,rw'') w = (a, w')"
  have "wp (mount_Mount [] dst ''none'' ''remount,rw'') (\<lambda>_. fs_ok) w"
    by (rule wp_remount) (use w(1) in \<open>auto simp: fs_ok_def same_env_def\<close>)
  then show "fs_ok w'" using w(2) by (auto dest: wpD)
qed

lemma keeps_log_error [intro]: "keeps fs_ok m \<Longrightarrow> keeps fs_ok (log_error l m)"
  unfolding log_error_def by (intro keeps_intros keeps_emit)

lemma keeps_CopyComponent: "keeps fs_ok (CopyComponent src dst remount key)"
proof -
  have s: "keeps fs_ok (switch_version a mo b c d)" for a mo b c d
    unfolding switch_version_def
    by (intro keeps_intros keeps_log_error keeps_return keeps_changes keeps_Remove keeps_Copy keeps_Rename)
  have i: "keeps fs_ok (install_version t a mo b c d)" for t a mo b c d
    unfolding install_version_def Let_def
    by (intro keeps_intros s keeps_return keeps_calls keeps_Remove keeps_Rename)
  have "keeps fs_ok (stage_version x a mo b c d)" for x a mo b c d
    unfolding stage_version_def
    by (intro keeps_intros i keeps_changes keeps_Temp keeps_Copy keeps_Remove keeps_RemoveAll)
  then show ?thesis
    unfolding CopyComponent_def Let_def
    by (intro keeps_intros keeps_Stat_version keeps_emit keeps_return keeps_remount)
qed

text \<open>Component \<open>key\<close> is at version \<open>v\<close>, a faithful copy of the one \<open>S\<close> had in \<open>fs\<close>.\<close>

definition installed :: "path \<Rightarrow> path \<Rightarrow> string \<Rightarrow> string \<Rightarrow> fsys \<Rightarrow> fsys \<Rightarrow> bool" where
  "installed S D key v fs fs' \<longleftrightarrow>
     (\<exists>m. look fs' (D @ [key, ''current'']) = Some (Lnk m v)) \<and> faithful fs (S @ [key, v]) fs' (D @ [key, v])"

text \<open>Component \<open>key\<close> can be copied: the source \<open>S\<close> has version \<open>v key\<close>, with something in it, and the
  destination \<open>D\<close>, which is another tree, has a directory for it in which \<open>current\<close>, if there is one, is a link.\<close>

definition ready :: "path \<Rightarrow> path \<Rightarrow> (string \<Rightarrow> string) \<Rightarrow> string \<Rightarrow> fsys \<Rightarrow> bool" where
  "ready S D v key fs \<longleftrightarrow>
     has_version fs (S @ [key]) (v key) \<and> fs_names fs (S @ [key, v key]) \<noteq> [] \<and> version_name (v key) \<and> apart S D \<and>
     real_dirs fs (D @ [key]) \<and> list_all plain_name (D @ [key]) \<and>
     (case look fs (D @ [key, ''current'']) of None \<Rightarrow> True | Some n \<Rightarrow> is_lnk n)"

text \<open>Nothing but a failing call can keep the copy from succeeding.\<close>

definition fresh :: "path \<Rightarrow> path \<Rightarrow> (string \<Rightarrow> string) \<Rightarrow> string \<Rightarrow> fsys \<Rightarrow> bool" where
  "fresh S D v key fs \<longleftrightarrow> upgradable fs (S @ [key, v key]) (D @ [key]) (v key)"

text \<open>A run on one component: \<open>b\<close> tells whether it moved.\<close>

definition advance :: "path \<Rightarrow> path \<Rightarrow> string \<Rightarrow> string \<Rightarrow> bool \<Rightarrow> world \<Rightarrow> world \<Rightarrow> bool" where
  "advance S D key v b w u \<longleftrightarrow>
     same_env w u \<and> fs_ok u \<and> changes_below [D @ [key]] (files w) (files u) \<and>
     (if b then installed S D key v (files w) (files u)
      else look (files u) (D @ [key, ''current'']) = look (files w) (D @ [key, ''current'']))"

lemma is_lnk_iff: "is_lnk n \<longleftrightarrow> (\<exists>m t. n = Lnk m t)"
  by (cases n) auto

lemma switched_advance:
  assumes "switched (D @ [key]) v t (S @ [key, v]) w r u" "fs_ok u"
  shows "advance S D key v (r = Inr True) w u"
proof -
  have "changes_below (map (\<lambda>c. (D @ [key]) @ [c]) (''current'' # side_names v t)) (files w) (files u)"
    using assms(1) by (simp add: switched_def mid_def)
  then have "changes_below [D @ [key]] (files w) (files u)"
    by (rule changes_below_mono) auto
  then show ?thesis
    using assms by (auto simp: advance_def switched_def mid_def installed_def complete_def)
qed

lemma CopyComponent_advance:
  assumes "fs_ok w" "ready S D v key (files w)"
  shows "wp (CopyComponent (abs_string S) (abs_string D) remount key)
    (\<lambda>r u. advance S D key (v key) (r = Inr True) w u \<and> (calm w \<and> fresh S D v key (files w) \<longrightarrow> r = Inr True)) w"
proof -
  have "wp (CopyComponent (abs_string S) (abs_string D) remount key)
      (\<lambda>r u. \<exists>n. switched (D @ [key]) (v key) (v key @ digits_base 10 n) (S @ [key, v key]) w r u) w"
    using assms by (intro CopyComponent_switched)
      (auto simp: ready_def fs_ok_def is_lnk_iff split: option.splits)
  moreover have "wp (CopyComponent (abs_string S) (abs_string D) remount key) (\<lambda>_. fs_ok) w"
    by (rule keeps_wp [OF keeps_CopyComponent assms(1)])
  ultimately show ?thesis
    by (rule wp_mono [OF wp_conj]) (auto intro: switched_advance simp: switched_def fresh_def)
qed

lemma component_step:
  assumes "fs_ok w" "en \<Longrightarrow> ready S D v key (files w)"
    and "sourceDir f = abs_string S" "destinationDir f = abs_string D"
  shows "wp (upgrade_component f en key st)
     (\<lambda>st' u. \<exists>b. advance S D key (v key) b w u \<and> fst st' = (fst st \<or> b) \<and> (b \<longrightarrow> en) \<and>
        (calm w \<and> fresh S D v key (files w) \<and> en \<longrightarrow> b)) w"
proof (cases en)
  case False
  then show ?thesis using assms(1) by (auto simp: upgrade_component_def advance_def)
next
  case True
  have l: "advance S D key (v key) b w (u\<lparr>trace := x\<rparr>) = advance S D key (v key) b w u" for b u x
    by (simp add: advance_def)
  show ?thesis
    unfolding upgrade_component_def assms(3,4) wp_if using True
    by (simp only: not_True_eq_False if_False)
      (rule wp_bindI [OF CopyComponent_advance [OF assms(1) assms(2) [OF True]]], auto simp: l split: sum.split)
qed

subsection \<open>All components\<close>

text \<open>What a component knows of the file system: the way to its directory and what is below it.\<close>

definition same_along :: "path \<Rightarrow> fsys \<Rightarrow> fsys \<Rightarrow> bool" where
  "same_along p fs fs' \<longleftrightarrow> (\<forall>q. prefix q p \<or> prefix p q \<longrightarrow> look fs' q = look fs q)"

lemma same_along_apart: "changes_below [p'] fs fs' \<Longrightarrow> apart p p' \<Longrightarrow> same_along p fs fs'"
  unfolding same_along_def apart_def
  by (intro allI impI changes_below_look) (auto dest: prefix_order.trans prefix_same_cases)

lemma same_along_tree: "same_along p fs fs' \<Longrightarrow> same_tree (p @ r) fs fs'"
  by (simp add: same_along_def same_tree_def)

lemma same_along_dirs: "same_along p fs fs' \<Longrightarrow> real_dirs fs' p = real_dirs fs p"
  by (rule real_dirs_cong) (simp add: same_along_def dir_at_def)

lemma has_version_cong: "same_along p fs fs' \<Longrightarrow> has_version fs' p v = has_version fs p v"
  using same_along_dirs [of p fs fs'] by (simp add: has_version_def same_along_def dir_at_def)

lemma ready_cong:
  assumes "same_along (S @ [key]) fs fs'" "same_along (D @ [key]) fs fs'"
  shows "ready S D v key fs' = ready S D v key fs" "fresh S D v key fs' = fresh S D v key fs"
proof -
  have "fs_names fs' (S @ [key, v key]) = fs_names fs (S @ [key, v key])"
    by (rule fs_names_cong) (use assms(1) in \<open>simp add: same_along_def\<close>)
  moreover have c: "look fs' (D @ [key, z]) = look fs (D @ [key, z])" for z
    using assms(2) by (simp add: same_along_def)
  ultimately show "ready S D v key fs' = ready S D v key fs"
    using has_version_cong [OF assms(1)] same_along_dirs [OF assms(2)] by (simp add: ready_def)
  show "fresh S D v key fs' = fresh S D v key fs"
    using copyable_cong [OF same_along_tree [OF assms(1), of "[v key]"]] has_version_cong [OF assms(2)] c
    by (simp add: fresh_def upgradable_def)
qed

lemma advance_other:
  assumes "advance S D key x b w u" "key' \<noteq> key" "apart S D"
  shows "same_along (S @ [key']) (files w) (files u)" "same_along (D @ [key']) (files w) (files u)"
  using assms same_along_apart [of "D @ [key]" "files w" "files u"] apart_siblings [of key' key D]
    apart_children [of S D "[key']" "[key]"] by (auto simp: advance_def)

text \<open>The whole run, abstractly: of the components \<open>ks\<close> exactly those in \<open>K\<close> have moved, each to its new
  version; the others have their old links, and nothing else changed.\<close>

definition moved :: "path \<Rightarrow> path \<Rightarrow> (string \<Rightarrow> string) \<Rightarrow> string list \<Rightarrow> string set \<Rightarrow> world \<Rightarrow> world \<Rightarrow> bool" where
  "moved S D v ks K w u \<longleftrightarrow> same_env w u \<and> fs_ok u \<and> changes_below (map (\<lambda>k. D @ [k]) ks) (files w) (files u) \<and>
     (\<forall>k \<in> K. installed S D k (v k) (files w) (files u)) \<and>
     (\<forall>k \<in> set ks - K. look (files u) (D @ [k, ''current'']) = look (files w) (D @ [k, ''current'']))"

lemma moved_nothing: "fs_ok w \<Longrightarrow> moved S D v [] {} w w"
  by (simp add: moved_def)

lemma moved_Cons:
  assumes a: "advance S D k (v k) b w w'" and m: "moved S D v ks K w' u" and k: "k \<notin> set ks" "K \<subseteq> set ks" "apart S D"
  shows "moved S D v (k # ks) (if b then insert k K else K) w u"
proof -
  have own: "same_tree (D @ [k]) (files w') (files u)"
    by (rule same_tree_apart [where ps = "map (\<lambda>k. D @ [k]) ks"])
      (use m k(1) in \<open>auto simp: moved_def intro!: apart_siblings\<close>)
  have inst: "installed S D k' (v k') (files w) (files u)" if k': "k' \<in> K" for k'
  proof -
    have "same_along (S @ [k']) (files w) (files w')" using advance_other(1) [OF a, of k'] k k' by auto
    then have "same_tree (S @ [k', v k']) (files w) (files w')" using same_along_tree [of "S @ [k']" _ _ "[v k']"] by simp
    then show ?thesis using m k' faithful_cong [OF _ same_tree_refl] by (auto simp: moved_def installed_def)
  qed
  have other: "look (files w') (D @ [k', ''current'']) = look (files w) (D @ [k', ''current''])" if "k' \<in> set ks" for k'
  proof -
    have "same_along (D @ [k']) (files w) (files w')" using advance_other(2) [OF a, of k'] that k by auto
    then have "same_tree (D @ [k', ''current'']) (files w) (files w')" using same_along_tree [of _ _ _ "[''current'']"] by fastforce
    then show ?thesis unfolding same_tree_def by (metis append_Nil2)
  qed
  have here: "if b then installed S D k (v k) (files w) (files u)
      else look (files u) (D @ [k, ''current'']) = look (files w) (D @ [k, ''current''])"
    using a own faithful_cong [OF same_tree_refl same_tree_child [OF own, of "[v k]"]]
    by (auto simp: advance_def installed_def same_tree_def dest: spec [of _ "[''current'']"])
  have "changes_below (map (\<lambda>k. D @ [k]) (k # ks)) (files w) (files u)"
    by (rule changes_below_trans [where fs' = "files w'"]; rule changes_below_mono)
      (use a m in \<open>auto simp: advance_def moved_def\<close>)
  moreover have "same_env w u" using a m by (auto simp: advance_def moved_def intro: same_env_trans)
  moreover have "fs_ok u" using m by (simp add: moved_def)
  moreover have "look (files u) (D @ [k', ''current'']) = look (files w) (D @ [k', ''current''])" if "k' \<in> set ks - K" for k'
    using m that other by (auto simp: moved_def)
  ultimately show ?thesis
    using inst here k(1,2) by (auto simp: moved_def split: if_splits)
qed

text \<open>The three steps of \<^verbatim>\<open>Run\<close> as a loop over the components.\<close>

definition parts :: "upgrade_flags \<Rightarrow> (bool \<times> string) list" where
  "parts f = [(upgradeEDGI f, ''edgi''), (upgradeK3S f, ''k3s''), (upgradeKernel f, ''kernel'')]"

fun upgrade_parts :: "upgrade_flags \<Rightarrow> (bool \<times> string) list \<Rightarrow> bool \<times> bool \<Rightarrow> (bool \<times> bool) io" where
  "upgrade_parts f [] st = State_Monad.return st"
| "upgrade_parts f ((en, key) # ps) st = do { st' \<leftarrow> upgrade_component f en key st; upgrade_parts f ps st' }"

lemma upgrade_copies_parts:
  "upgrade_copies f = do { st \<leftarrow> upgrade_parts f (parts f) (False, doRemount f); State_Monad.return (fst st) }"
  by (simp add: upgrade_copies_def parts_def)

abbreviation enabled :: "(bool \<times> string) list \<Rightarrow> string set" where
  "enabled ps \<equiv> {k. (True, k) \<in> set ps}"

lemma upgrade_parts_moved:
  assumes "sourceDir f = abs_string S" "destinationDir f = abs_string D" "apart S D"
  shows "fs_ok w \<Longrightarrow> distinct (map snd ps) \<Longrightarrow> \<forall>k \<in> enabled ps. ready S D v k (files w) \<Longrightarrow>
     wp (upgrade_parts f ps st) (\<lambda>st' u. \<exists>K \<subseteq> enabled ps. moved S D v (map snd ps) K w u \<and> fst st' = (fst st \<or> K \<noteq> {}) \<and>
        (calm w \<and> (\<forall>k \<in> enabled ps. fresh S D v k (files w)) \<longrightarrow> K = enabled ps)) w"
proof (induction ps arbitrary: st w)
  case Nil
  then show ?case by (auto intro: moved_nothing)
next
  case (Cons p ps)
  obtain en key where p: "p = (en, key)" by fastforce
  show ?case
    unfolding p upgrade_parts.simps
  proof (rule wp_bindI [OF component_step [OF Cons.prems(1) _ assms(1,2), where key = key and v = v]], goal_cases)
    case 1
    then show ?case using Cons.prems(3) p by auto
  next
    case (2 st' w')
    then obtain b where b: "advance S D key (v key) b w w'" "fst st' = (fst st \<or> b)" "b \<longrightarrow> en"
      "calm w \<and> fresh S D v key (files w) \<and> en \<longrightarrow> b" by blast
    have ne: "key \<notin> enabled ps" "key \<notin> set (map snd ps)" using Cons.prems(2) p by (auto simp: image_iff)
    then have cong: "ready S D v k (files w') = ready S D v k (files w)" "fresh S D v k (files w') = fresh S D v k (files w)"
      if "k \<in> enabled ps" for k
      using advance_other [OF b(1) _ assms(3), of k] that by (auto intro!: ready_cong)
    have c: "calm w' = calm w" using b(1) by (simp add: advance_def same_env_calm)
    show ?case
    proof (rule wp_mono [OF Cons.IH], goal_cases)
      case (4 st'' u)
      then obtain K where K: "K \<subseteq> enabled ps" "moved S D v (map snd ps) K w' u" "fst st'' = (fst st' \<or> K \<noteq> {})"
        "calm w \<and> (\<forall>k \<in> enabled ps. fresh S D v k (files w)) \<longrightarrow> K = enabled ps"
        using c cong by auto
      have "K \<subseteq> set (map snd ps)" using K(1) by force
      then have "moved S D v (map snd (p # ps)) (if b then insert key K else K) w u"
        using moved_Cons [OF b(1) K(2) ne(2) _ assms(3)] p by simp
      moreover have en: "enabled (p # ps) = (if en then insert key (enabled ps) else enabled ps)" by (auto simp: p)
      moreover have "(if b then insert key K else K) \<subseteq> enabled (p # ps)" using K(1) b(3) en by auto
      moreover have "fst st'' = (fst st \<or> (if b then insert key K else K) \<noteq> {})" using K(3) b(2) by auto
      moreover have "(if b then insert key K else K) = enabled (p # ps)"
        if "calm w" "\<forall>k \<in> enabled (p # ps). fresh S D v k (files w)"
        using K(4) b(3,4) that en by (cases en) auto
      ultimately show ?case unfolding p [symmetric] by blast
    qed (use Cons.prems b cong in \<open>auto simp: advance_def\<close>)
  qed
qed

lemma upgrade_copies_moved:
  assumes "fs_ok w" "sourceDir f = abs_string S" "destinationDir f = abs_string D" "apart S D"
    and "\<forall>k \<in> enabled (parts f). ready S D v k (files w)"
  shows "wp (upgrade_copies f) (\<lambda>copied u. \<exists>K \<subseteq> enabled (parts f).
       moved S D v [''edgi'', ''k3s'', ''kernel''] K w u \<and> copied = (K \<noteq> {}) \<and>
       (calm w \<and> (\<forall>k \<in> enabled (parts f). fresh S D v k (files w)) \<longrightarrow> K = enabled (parts f))) w"
  unfolding upgrade_copies_parts
  by (rule wp_bindI [OF upgrade_parts_moved [OF assms(2-4,1) _ assms(5)]]) (simp_all add: parts_def)

subsection \<open>A run that cannot start, and one that need not\<close>

lemma wp_Symlink_taken:
  assumes "resolve False w s = Inr p" "look (files w) p \<noteq> None" "\<And>e. Q (Inl e) (tick w)"
  shows "wp (os_Symlink t s) Q w"
  unfolding os_Symlink_def by (rule wp_at_path_res [OF assms(1)]) (use assms(2,3) in \<open>auto split: option.split\<close>)

text \<open>A left-over temporary link stops every later copy.\<close>

lemma CopyComponent_wedged:
  assumes src: "has_version (files w) (S @ [key]) v"
    and d: "real_dirs (files w) (D @ [key])" "list_all plain_name (D @ [key])"
    and tmp: "look (files w) (D @ [key, ''current.tmp'']) \<noteq> None"
  shows "wp (CopyComponent (abs_string S) (abs_string D) remount key) (\<lambda>r u. files u = files w \<and> r \<noteq> Inr True) w"
proof -
  let ?Q = "\<lambda>r u. files u = files w \<and> r \<noteq> Inr True"
  let ?kd = "D @ [key]"
  have n: "plain_name v" "plain_name ''current''" "plain_name ''current.tmp''"
    using src by (auto simp: has_version_def plain_name_def)
  have t: "PathJoin [abs_string D, key, VersionCurrent] @ ''.tmp'' = abs_string (?kd @ [''current.tmp''])"
    unfolding VersionCurrent_def component_paths [OF d(2) n(2)] abs_string_snoc [of ?kd] by simp
  have stage: "wp (stage_version s x mo p c (abs_string (?kd @ [''current.tmp'']))) ?Q u"
    if "files u = files w" for s x mo p c u
    unfolding stage_version_def wp_check
    by (rule wp_Symlink_taken [OF resolve_nofollow]) (use that d n tmp in simp_all)
  have mount: "wp (check (if remount then mount_Mount [] (abs_string D) ''none'' ''remount,rw'' else ok ()) (\<lambda>_.
      stage_version s x mo p c (abs_string (?kd @ [''current.tmp''])))) ?Q u"
    if "files u = files w" for s x mo p c u
    unfolding wp_check [of "if remount then _ else _"]
    by (cases remount) (auto intro!: wp_remount stage simp: that simp del: append_assoc split: sum.split)
  have second: "wp (if b then do { emit (EvLog LInfo); ok False }
      else check (if remount then mount_Mount [] (abs_string D) ''none'' ''remount,rw'' else ok ()) (\<lambda>_.
        stage_version s x mo p c (abs_string (?kd @ [''current.tmp''])))) ?Q u"
    if "files u = files w" for b s x mo p c u
    using that by (cases b) (simp_all only: if_True if_False mount, simp)
  show ?thesis
    unfolding CopyComponent_def Let_def t wp_bind [of "StatComponentVersion (abs_string S) _ _"]
  proof (rule wp_StatComponentVersion [OF src], goal_cases)
    case (2 i u)
    show ?case
      unfolding prod.case option.case sum.case wp_bind [of "StatComponentVersion (abs_string D) _ _"]
      by (rule wp_reads [OF reads_only_emit_free], rule second) (use 2 in simp)
  next
    case (1 x e u)
    then show ?case by (cases x) simp_all
  qed
qed

lemma CopyComponent_same:
  assumes "calm w" "has_version (files w) (S @ [key]) v" "has_version (files w) (D @ [key]) v"
  shows "wp (CopyComponent (abs_string S) (abs_string D) remount key) (\<lambda>r u. same_env w u \<and> files u = files w \<and> r = Inr False) w"
  unfolding CopyComponent_def Let_def wp_bind [of "StatComponentVersion (abs_string S) _ _"]
proof (rule wp_StatComponentVersion [OF assms(2)], goal_cases)
  case (2 i u)
  show ?case
    unfolding prod.case option.case sum.case wp_bind [of "StatComponentVersion (abs_string D) _ _"]
  proof (rule wp_StatComponentVersion [where v = v], goal_cases)
    case (3 i' u')
    then show ?case
      using 2 by (simp only: fst_conv option.case if_True refl) (simp add: same_env_trans [OF 2(1)])
  qed (use 2 assms same_env_calm [of w u] in simp_all)
qed (use assms in simp)

subsection \<open>A second run\<close>

lemma installed_has_version:
  assumes "has_version (files w) (S @ [k]) x" "installed S D k x (files w) (files u)" "fs_ok u"
    and "changes_below (map (\<lambda>k. D @ [k]) ks) (files w) (files u)" "real_dirs (files w) (D @ [k])" "list_all plain_name (D @ [k])"
    and "apart S D"
  shows "has_version (files u) (S @ [k]) x" "has_version (files u) (D @ [k]) x"
proof -
  have "same_along (S @ [k]) (files w) (files u)"
    unfolding same_along_def
  proof (intro allI impI changes_below_look [OF assms(4)] ballI)
    fix q p assume "prefix q (S @ [k]) \<or> prefix (S @ [k]) q" "p \<in> set (map (\<lambda>k. D @ [k]) ks)"
    then obtain k' where p: "p = D @ [k']" and q: "prefix q (S @ [k]) \<or> prefix (S @ [k]) q" by auto
    have "apart (S @ [k]) (D @ [k'])" by (rule apart_children [OF assms(7)])
    with q p show "\<not> prefix p q" unfolding apart_def by (metis prefix_order.trans prefix_same_cases)
  qed
  then show "has_version (files u) (S @ [k]) x" using has_version_cong assms(1) by blast
  show "has_version (files u) (D @ [k]) x"
    unfolding has_version_def
  proof (intro conjI)
    obtain m where link: "look (files u) (D @ [k, ''current'']) = Some (Lnk m x)" and copy: "faithful (files w) (S @ [k, x]) (files u) (D @ [k, x])"
      using assms(2) by (auto simp: installed_def)
    then show "\<exists>m. look (files u) ((D @ [k]) @ [''current'']) = Some (Lnk m x)" by simp
    have "dir_at (files u) (D @ [k])"
      using tree_fs_parent [of "files u" "D @ [k]" "''current''"] assms(3) link by (simp add: fs_ok_def)
    moreover have "real_dirs (files u) D"
      by (rule real_dirs_outside [OF changes_below_look [OF assms(4)]])
        (use assms(5) in \<open>auto simp: real_dirs_snoc prefix_def\<close>)
    ultimately show "real_dirs (files u) (D @ [k])" by (simp add: real_dirs_snoc)
    obtain n where "look (files w) (S @ [k, x]) = Some n" "is_dir n" using assms(1) by (auto simp: has_version_def dir_at_iff is_dir_iff)
    then show "dir_at (files u) ((D @ [k]) @ [x])"
      using faithful_look(1) [OF copy] by (auto simp: option_rel_Some1 dir_at_is_dir dest: same_file_dir)
  qed (use assms in \<open>auto simp: has_version_def\<close>)
qed

lemma component_idle:
  assumes "calm w" "en \<Longrightarrow> has_version (files w) (S @ [key]) x \<and> has_version (files w) (D @ [key]) x"
    and "sourceDir f = abs_string S" "destinationDir f = abs_string D"
  shows "wp (upgrade_component f en key st) (\<lambda>st' u. st' = st \<and> same_env w u \<and> files u = files w) w"
proof (cases en)
  case True
  then show ?thesis
    unfolding upgrade_component_def assms(3,4) wp_if
    by (simp only: not_True_eq_False if_False)
      (rule wp_bindI [OF CopyComponent_same], use assms in auto)
qed (simp add: upgrade_component_def)

lemma upgrade_parts_idle:
  assumes "sourceDir f = abs_string S" "destinationDir f = abs_string D"
  shows "calm w \<Longrightarrow> \<forall>k \<in> enabled ps. has_version (files w) (S @ [k]) (v k) \<and> has_version (files w) (D @ [k]) (v k) \<Longrightarrow>
    wp (upgrade_parts f ps st) (\<lambda>st' u. st' = st \<and> same_env w u \<and> files u = files w) w"
proof (induction ps arbitrary: st w)
  case (Cons p ps)
  obtain en key where p: "p = (en, key)" by fastforce
  show ?case
    unfolding p upgrade_parts.simps
  proof (rule wp_bindI [OF component_idle [OF Cons.prems(1) _ assms]], goal_cases)
    case (2 st' w')
    then have "calm w'" using Cons.prems(1) same_env_calm [of w w'] by simp
    from 2 Cons.prems(2) p show ?case
      by (intro wp_mono [OF Cons.IH [OF \<open>calm w'\<close>]]) (auto intro: same_env_trans)
  qed (use Cons.prems p in auto)
qed simp

lemma upgrade_copies_again:
  assumes "fs_ok w" "sourceDir f = abs_string S" "destinationDir f = abs_string D" "apart S D" "calm w"
    and "\<forall>k \<in> enabled (parts f). ready S D v k (files w) \<and> fresh S D v k (files w)"
  shows "wp (do { copied \<leftarrow> upgrade_copies f; before \<leftarrow> State_Monad.get; again \<leftarrow> upgrade_copies f; State_Monad.return (copied, before, again) })
    (\<lambda>(copied, before, again) u. (copied \<longleftrightarrow> enabled (parts f) \<noteq> {}) \<and> \<not> again \<and> files u = files before) w"
proof (rule wp_bindI [OF upgrade_copies_moved [where v = v, OF assms(1-4)]], goal_cases)
  case (2 copied u)
  then have m: "moved S D v [''edgi'', ''k3s'', ''kernel''] (enabled (parts f)) w u" "copied = (enabled (parts f) \<noteq> {})" using assms(5,6) by auto
  have "has_version (files u) (S @ [k]) (v k) \<and> has_version (files u) (D @ [k]) (v k)" if k: "k \<in> enabled (parts f)" for k
  proof -
    have "has_version (files w) (S @ [k]) (v k)" "real_dirs (files w) (D @ [k])" "list_all plain_name (D @ [k])"
      using bspec [OF assms(6) k] by (simp_all add: ready_def)
    moreover have "installed S D k (v k) (files w) (files u)" "fs_ok u"
      "changes_below (map (\<lambda>k. D @ [k]) [''edgi'', ''k3s'', ''kernel'']) (files w) (files u)"
      using m(1) k unfolding moved_def by blast+
    ultimately show ?thesis using installed_has_version assms(4) by blast
  qed
  moreover have "calm u" using m(1) assms(5) same_env_calm [of w u] by (simp add: moved_def)
  ultimately have "wp (upgrade_copies f) (\<lambda>again x. \<not> again \<and> files x = files u) u"
    unfolding upgrade_copies_parts
    by (intro wp_bindI [OF upgrade_parts_idle [OF assms(2,3)]]) auto
  then show ?case using m(2) by (auto intro: wp_mono)
qed (use assms(6) in auto)

end
