(* ===== verification/Values.thy ===== *)
theory Values
  imports GoStrconv "HOL-Library.AList"
begin

text \<open>
  Go's \<^verbatim>\<open>map[string]interface{}\<close> and the helpers of \<^verbatim>\<open>vendor/github.com/rancher/mapper\<close> the
  configuration is built with: \<^verbatim>\<open>values/values.go\<close>, \<^verbatim>\<open>convert/convert.go\<close>. A Go map is an
  association list with distinct keys in the order an iteration happens to visit it; what does
  not depend on that order is proved for every order. Letters are ASCII.
\<close>

text \<open>The dynamic values: \<^verbatim>\<open>nil\<close>, booleans, strings, numbers (\<^verbatim>\<open>GInt\<close> an integral \<^verbatim>\<open>float64\<close>, \<^verbatim>\<open>GFloat\<close>
  the text of any other number), \<^verbatim>\<open>[]string\<close>, \<^verbatim>\<open>[]interface{}\<close>, \<^verbatim>\<open>map[string]string\<close> and
  \<^verbatim>\<open>map[string]interface{}\<close>.\<close>

datatype gval =
    GNil
  | GBool bool
  | GStr string
  | GInt int
  | GFloat string
  | GStrs "string list"
  | GList "gval list"
  | GStrMap "(string \<times> string) list"
  | GMap "(string \<times> gval) list"

type_synonym gmap = "(string \<times> gval) list"

fun as_map :: "gval option \<Rightarrow> gmap option" where
  "as_map (Some (GMap m)) = Some m"
| "as_map _ = None"

subsection \<open>Paths of keys\<close>

fun GetValue :: "gmap \<Rightarrow> string list \<Rightarrow> gval option" where
  "GetValue data [] = None"
| "GetValue data [k] = map_of data k"
| "GetValue data (k # k' # ks) =
     (case as_map (map_of data k) of
        Some m \<Rightarrow> GetValue m (k' # ks)
      | None \<Rightarrow> GetValue [] (k' # ks))"

fun PutValue :: "gmap \<Rightarrow> gval \<Rightarrow> string list \<Rightarrow> gmap" where
  "PutValue data v [] = data"
| "PutValue data v [k] = AList.update k v data"
| "PutValue data v (k # k' # ks) =
     (case map_of data k of
        None \<Rightarrow> AList.update k (GMap (PutValue [] v (k' # ks))) data
      | Some (GMap m) \<Rightarrow> AList.update k (GMap (PutValue m v (k' # ks))) data
      | Some _ \<Rightarrow> data)"

lemma GetValue_empty [simp]: "GetValue [] ks = None"
  by (induction ks rule: induct_list012) simp_all

text \<open>What was put is found, unless a value that is no map stands in the way; other paths keep
  their value.\<close>

lemma GetValue_PutValue:
  "ks \<noteq> [] \<Longrightarrow> PutValue data v ks \<noteq> data \<Longrightarrow> GetValue (PutValue data v ks) ks = Some v"
proof (induction data v ks rule: PutValue.induct)
  case (3 data v k k' ks)
  show ?case
  proof (cases "map_of data k")
    case None
    have "PutValue [] v (k' # ks) \<noteq> []" by (induction "[] :: gmap" v "k' # ks" rule: PutValue.induct) auto
    with 3 None show ?thesis by (simp add: update_conv')
  next
    case (Some x)
    show ?thesis
    proof (cases x)
      case (GMap m)
      have "PutValue m v (k' # ks) \<noteq> m"
      proof
        assume "PutValue m v (k' # ks) = m"
        moreover have "AList.update k (GMap m) data = data"
          using Some GMap by (induction data) auto
        ultimately show False using "3.prems" Some GMap by simp
      qed
      with 3 Some GMap show ?thesis by (simp add: update_conv')
    qed (use "3.prems" Some in auto)
  qed
qed (auto simp: update_conv')

subsection \<open>Text of a value\<close>

text \<open>\<^verbatim>\<open>fmt.Sprint\<close> of an integral \<^verbatim>\<open>float64\<close>: \<^verbatim>\<open>%v\<close> is \<^verbatim>\<open>%g\<close> with the shortest digits, which uses the
  exponent notation from \<open>10 ^ 6\<close> on.\<close>

definition strip_zeros :: "string \<Rightarrow> string" where
  "strip_zeros s = rev (dropWhile (\<lambda>c. c = CHR ''0'') (rev s))"

definition two_digits :: "nat \<Rightarrow> string" where
  "two_digits n = (if n < 10 then ''0'' @ Itoa (int n) else Itoa (int n))"

definition sprint_nat :: "nat \<Rightarrow> string" where
  "sprint_nat n =
     (let ds = digits_base 10 n; e = length ds - 1; m = strip_zeros ds
      in if e < 6 then ds
         else hd m # (if tl m = [] then [] else CHR ''.'' # tl m) @ ''e+'' @ two_digits e)"

definition sprint_int :: "int \<Rightarrow> string" where
  "sprint_int i = (if i < 0 then CHR ''-'' # sprint_nat (nat (- i)) else sprint_nat (nat i))"

text \<open>\<^verbatim>\<open>%v\<close> of a value. Maps print their entries sorted by key.\<close>

definition join_space :: "string list \<Rightarrow> string" where
  "join_space xs = ''['' @ Join xs '' '' @ '']''"

fun sprint :: "gval \<Rightarrow> string" and sprint_entries :: "(string \<times> gval) list \<Rightarrow> (string \<times> string) list" where
  "sprint GNil = ''<nil>''"
| "sprint (GBool b) = (if b then ''true'' else ''false'')"
| "sprint (GStr s) = s"
| "sprint (GInt i) = sprint_int i"
| "sprint (GFloat s) = s"
| "sprint (GStrs ss) = join_space ss"
| "sprint (GList vs) = join_space (map sprint vs)"
| "sprint (GStrMap m) = ''map'' @ join_space (map (\<lambda>(k, v). k @ '':'' @ v) (sort_key fst m))"
| "sprint (GMap m) = ''map'' @ join_space (map (\<lambda>(k, v). k @ '':'' @ v) (sort_key fst (sprint_entries m)))"
| "sprint_entries [] = []"
| "sprint_entries ((k, v) # m) = (k, sprint v) # sprint_entries m"

definition Singular :: "gval \<Rightarrow> gval" where
  "Singular v =
     (case v of
        GStrs [] \<Rightarrow> GNil
      | GStrs (s # _) \<Rightarrow> GStr s
      | GList [] \<Rightarrow> GNil
      | GList (x # _) \<Rightarrow> x
      | _ \<Rightarrow> v)"

definition convert_ToString :: "gval \<Rightarrow> string" where
  "convert_ToString v = TrimSpace (case Singular v of GNil \<Rightarrow> [] | x \<Rightarrow> sprint x)"

subsection \<open>Keys\<close>

text \<open>\<^verbatim>\<open>ToYAMLKey\<close>: the loop's state is \<^verbatim>\<open>cap\<close>, true while only capitals were seen from the start.\<close>

fun yaml_key_rest :: "bool \<Rightarrow> string \<Rightarrow> string" where
  "yaml_key_rest cap [] = []"
| "yaml_key_rest cap (c # cs) =
     (if is_upper c then (if cap then [to_lower c] else [CHR ''_'', to_lower c]) @ yaml_key_rest cap cs
      else c # yaml_key_rest False cs)"

definition ToYAMLKey :: "string \<Rightarrow> string" where
  "ToYAMLKey s = (case s of [] \<Rightarrow> [] | c # cs \<Rightarrow> to_lower c # yaml_key_rest (is_upper c) cs)"

subsection \<open>Two paths\<close>

lemma PutValue_other:
  "\<not> prefix ks qs \<Longrightarrow> \<not> prefix qs ks \<Longrightarrow> GetValue (PutValue data v ks) qs = GetValue data qs"
proof (induction data v ks arbitrary: qs rule: PutValue.induct)
  case (2 data v k)
  then show ?case by (cases "(data, qs)" rule: GetValue.cases) (auto simp: update_conv')
next
  case (3 data v k k' ks)
  show ?case
  proof (cases qs rule: remdups_adj.cases)
    case 1
    then show ?thesis using 3 by simp
  next
    case (2 x)
    then show ?thesis using 3 by (auto simp: update_conv' split: option.split gval.split)
  next
    case (3 x y qs')
    show ?thesis
      using 3 "3.prems" "3.IH"(1) [of "y # qs'"] "3.IH"(2) [of _ _ "y # qs'"]
      by (cases "map_of data k") (auto simp: update_conv' split: gval.split)
  qed
qed simp

subsection \<open>The text of numbers\<close>

lemma digits_length: "n < 10 ^ Suc k \<Longrightarrow> length (digits_base 10 n) \<le> Suc k"
proof (induction k arbitrary: n)
  case 0
  then show ?case by (subst digits_base.simps) simp
next
  case (Suc k)
  show ?case
  proof (cases "n < 10")
    case True
    then show ?thesis by (subst digits_base.simps) simp
  next
    case False
    have "n div 10 < 10 ^ Suc k" using Suc.prems by (simp add: less_mult_imp_div_less mult.commute)
    then have "length (digits_base 10 (n div 10)) \<le> Suc k" by (rule Suc.IH)
    then show ?thesis using False by (subst digits_base.simps) simp
  qed
qed

lemma sprint_small: "\<bar>i\<bar> < 10 ^ 6 \<Longrightarrow> sprint_int i = Itoa i"
proof -
  have s: "sprint_nat n = digits_base 10 n" if "n < 10 ^ 6" for n
  proof -
    have "length (digits_base 10 n) - 1 < 6" using digits_length [of n 5] that by simp
    then show ?thesis unfolding sprint_nat_def Let_def by (rule if_P)
  qed
  assume i: "\<bar>i\<bar> < 10 ^ 6"
  have "nat (- i) < 10 ^ 6" "nat i < 10 ^ 6" using i by simp_all
  then show ?thesis by (simp add: sprint_int_def Itoa_def s)
qed

lemma big: "sprint_int 1048576 = ''1.048576e+06''"
  by (simp add: sprint_int_def sprint_nat_def digits_base.simps strip_zeros_def two_digits_def Itoa_def digit_char_def)

text \<open>A value put at a path of keys is found at that path, unless a value that is no map stands in the way, and then
  \<^verbatim>\<open>PutValue\<close> changes nothing; every path that is neither above nor below it keeps its value.\<close>

theorem PutValue_path:
  assumes "ks \<noteq> []"
  shows "(PutValue data v ks = data \<or> GetValue (PutValue data v ks) ks = Some v) \<and>
    (\<forall>qs. prefix ks qs \<or> prefix qs ks \<or> GetValue (PutValue data v ks) qs = GetValue data qs)"
  using GetValue_PutValue [OF assms] PutValue_other by blast

theorem PutValue_path_witness:
  "GetValue (PutValue [(''a'', GMap [(''x'', GStr ''1'')])] (GStr ''2'') [''a'', ''b'']) [''a'', ''b''] = Some (GStr ''2'')"
  using PutValue_path [of "[''a'', ''b'']" "[(''a'', GMap [(''x'', GStr ''1'')])]" "GStr ''2''"] by simp

text \<open>A number in a map of strings (a sysctl, a label, a variable) becomes its decimal text when it is below a million;
  from there on \<^verbatim>\<open>fmt.Sprint\<close> of the \<^verbatim>\<open>float64\<close> the YAML parser delivers uses the exponent notation, which the
  kernel does not read: \<^verbatim>\<open>1048576\<close> becomes \<^verbatim>\<open>1.048576e+06\<close>.\<close>

theorem number_text:
  "(\<bar>i\<bar> \<ge> 10 ^ 6 \<or> convert_ToString (GInt i) = TrimSpace (Itoa i)) \<and>
   convert_ToString (GInt 1048576) = ''1.048576e+06''"
proof -
  have "TrimSpace ''1.048576e+06'' = ''1.048576e+06''" by (rule TrimSpace_wordy) (simp add: less_char_def)
  moreover have "\<bar>i\<bar> \<ge> 10 ^ 6 \<or> sprint_int i = Itoa i" using sprint_small [of i] by linarith
  ultimately show ?thesis using big by (auto simp: convert_ToString_def Singular_def)
qed

end
