(* ===== verification/Config.thy ===== *)
theory Config
  imports Values Util
begin

text \<open>
  \<^verbatim>\<open>pkg/config/config.go\<close>, \<^verbatim>\<open>write.go\<close> and the conversions of \<^verbatim>\<open>read.go\<close> between the
  configuration and \<^verbatim>\<open>map[string]interface{}\<close>: the data types, the permissions of a file, the
  environment of the installer, the keys of the YAML file.
\<close>

subsection \<open>Data\<close>

record wifi =
  wifi_Name :: string
  wifi_Passphrase :: string

record install =
  ForceEFI :: bool
  Device :: string
  ConfigURL :: string
  Silent :: bool
  ISOURL :: string
  PowerOff :: bool
  NoFormat :: bool
  Debug :: bool
  TTY :: string

record edgi =
  DataSources :: "string list"
  Modules :: "string list"
  Sysctls :: "(string \<times> string) list"
  NTPServers :: "string list"
  DNSNameservers :: "string list"
  Wifi :: "wifi list"
  Password :: string
  ServerURL :: string
  Token :: string
  Labels :: "(string \<times> string) list"
  K3sArgs :: "string list"
  Environment :: "(string \<times> string) list"
  Taints :: "string list"
  Install :: "install option"

record cfile =
  Encoding :: string
  Content :: bytes
  Owner :: string
  Path :: string
  RawFilePermissions :: string

record CloudConfig =
  SSHAuthorizedKeys :: "string list"
  WriteFiles :: "cfile list"
  Hostname :: string
  EDGI :: edgi
  Runcmd :: "string list"
  Bootcmd :: "string list"
  Initcmd :: "string list"

definition empty_install :: install where
  "empty_install = \<lparr>ForceEFI = False, Device = [], ConfigURL = [], Silent = False, ISOURL = [],
     PowerOff = False, NoFormat = False, Debug = False, TTY = []\<rparr>"

definition empty_edgi :: edgi where
  "empty_edgi = \<lparr>DataSources = [], Modules = [], Sysctls = [], NTPServers = [], DNSNameservers = [],
     Wifi = [], Password = [], ServerURL = [], Token = [], Labels = [], K3sArgs = [],
     Environment = [], Taints = [], Install = None\<rparr>"

definition empty_file :: cfile where
  "empty_file = \<lparr>Encoding = [], Content = [], Owner = [], Path = [], RawFilePermissions = []\<rparr>"

definition empty_config :: CloudConfig where
  "empty_config = \<lparr>SSHAuthorizedKeys = [], WriteFiles = [], Hostname = [], EDGI = empty_edgi,
     Runcmd = [], Bootcmd = [], Initcmd = []\<rparr>"

subsection \<open>Permissions\<close>

text \<open>An octal number of 32 bits, signed, converted to the unsigned \<^verbatim>\<open>os.FileMode\<close>.\<close>

definition Permissions :: "cfile \<Rightarrow> mode result" where
  "Permissions f =
     (if RawFilePermissions f = [] then Inr 0x1A4
      else case ParseInt 8 32 (RawFilePermissions f) of
        None \<Rightarrow> Inl (Msg (''unable to parse file permissions '' @ RawFilePermissions f @ '' as integer''))
      | Some perm \<Rightarrow> Inr (word_of_int perm))"

subsection \<open>Encoding to a map\<close>

text \<open>\<^verbatim>\<open>convert.EncodeToMap\<close>: through JSON, so a field marked \<^verbatim>\<open>omitempty\<close> is present when it is not
  empty; a struct always is.\<close>

definition opt_str :: "string \<Rightarrow> string \<Rightarrow> gmap" where
  "opt_str k s = (if s = [] then [] else [(k, GStr s)])"

definition opt_bool :: "string \<Rightarrow> bool \<Rightarrow> gmap" where
  "opt_bool k b = (if b then [(k, GBool True)] else [])"

definition opt_strs :: "string \<Rightarrow> string list \<Rightarrow> gmap" where
  "opt_strs k ss = (if ss = [] then [] else [(k, GList (map GStr ss))])"

definition opt_strmap :: "string \<Rightarrow> (string \<times> string) list \<Rightarrow> gmap" where
  "opt_strmap k m = (if m = [] then [] else [(k, GMap (map (\<lambda>(k, v). (k, GStr v)) m))])"

definition encode_wifi :: "wifi \<Rightarrow> gmap" where
  "encode_wifi x = opt_str ''name'' (wifi_Name x) @ opt_str ''passphrase'' (wifi_Passphrase x)"

definition encode_install :: "install \<Rightarrow> gmap" where
  "encode_install i =
     opt_bool ''forceEfi'' (ForceEFI i) @ opt_str ''device'' (Device i) @
     opt_str ''configUrl'' (ConfigURL i) @ opt_bool ''silent'' (Silent i) @
     opt_str ''isoUrl'' (ISOURL i) @ opt_bool ''powerOff'' (PowerOff i) @
     opt_bool ''noFormat'' (NoFormat i) @ opt_bool ''debug'' (Debug i) @ opt_str ''tty'' (TTY i)"

definition encode_edgi :: "edgi \<Rightarrow> gmap" where
  "encode_edgi e =
     opt_strs ''dataSources'' (DataSources e) @ opt_strs ''modules'' (Modules e) @
     opt_strmap ''sysctls'' (Sysctls e) @ opt_strs ''ntpServers'' (NTPServers e) @
     opt_strs ''dnsNameservers'' (DNSNameservers e) @
     (if Wifi e = [] then [] else [(''wifi'', GList (map (\<lambda>x. GMap (encode_wifi x)) (Wifi e)))]) @
     opt_str ''password'' (Password e) @ opt_str ''serverUrl'' (ServerURL e) @
     opt_str ''token'' (Token e) @ opt_strmap ''labels'' (Labels e) @
     opt_strs ''k3sArgs'' (K3sArgs e) @ opt_strmap ''environment'' (Environment e) @
     opt_strs ''taints'' (Taints e) @
     (case Install e of None \<Rightarrow> [] | Some i \<Rightarrow> [(''install'', GMap (encode_install i))])"

definition encode_file :: "cfile \<Rightarrow> gmap" where
  "encode_file f =
     [(''encoding'', GStr (Encoding f)), (''content'', GStr (Content f)), (''owner'', GStr (Owner f)),
      (''path'', GStr (Path f)), (''permissions'', GStr (RawFilePermissions f))]"

definition EncodeToMap :: "CloudConfig \<Rightarrow> gmap" where
  "EncodeToMap c =
     opt_strs ''sshAuthorizedKeys'' (SSHAuthorizedKeys c) @
     (if WriteFiles c = [] then []
      else [(''writeFiles'', GList (map (\<lambda>f. GMap (encode_file f)) (WriteFiles c)))]) @
     opt_str ''hostname'' (Hostname c) @
     [(''edgi'', GMap (encode_edgi (EDGI c)))] @
     opt_strs ''runCmd'' (Runcmd c) @ opt_strs ''bootCmd'' (Bootcmd c) @ opt_strs ''initCmd'' (Initcmd c)"

subsection \<open>The environment of the installer\<close>

text \<open>\<^verbatim>\<open>mapToEnv\<close>: the map is visited in the order of the list.\<close>

fun mapToEnv :: "string \<Rightarrow> gmap \<Rightarrow> string list" and env_value :: "string \<Rightarrow> gval \<Rightarrow> string list" where
  "mapToEnv pre [] = []"
| "mapToEnv pre ((k, v) # data) = env_value (ToUpper (pre @ ToYAMLKey k)) v @ mapToEnv pre data"
| "env_value key (GMap m) = mapToEnv (key @ ''_'') m"
| "env_value key v = [key @ ''='' @ sprint v]"

definition ToEnv :: "CloudConfig \<Rightarrow> string list" where
  "ToEnv c = mapToEnv [] (EncodeToMap c)"

subsection \<open>The keys of the YAML file\<close>

text \<open>\<^verbatim>\<open>toYAMLKeys\<close> renames in place, nested maps first. \<open>ks\<close> are the keys the iteration visits; a key
  inserted during the loop is a YAML key already, so visiting it changes nothing.\<close>

definition rename_key :: "string \<Rightarrow> gmap \<Rightarrow> gmap" where
  "rename_key k data =
     (case map_of data k of
        None \<Rightarrow> data
      | Some v \<Rightarrow>
          if ToYAMLKey k = k then data
          else AList.update (ToYAMLKey k) v (AList.delete k data))"

fun yaml_values :: "gmap \<Rightarrow> gmap" and yaml_value :: "gval \<Rightarrow> gval" where
  "yaml_values [] = []"
| "yaml_values ((k, v) # m) = (k, yaml_value v) # yaml_values m"
| "yaml_value (GMap m) = GMap (fold rename_key (map fst m) (yaml_values m))"
| "yaml_value v = v"

definition toYAMLKeys :: "gmap \<Rightarrow> gmap" where
  "toYAMLKeys data = fold rename_key (map fst data) (yaml_values data)"

text \<open>\<^verbatim>\<open>ToBytes\<close> and \<^verbatim>\<open>PrintInstall\<close>; \<^verbatim>\<open>yaml.Marshal\<close> is the parameter.\<close>

definition config_ToBytes :: "(gmap \<Rightarrow> bytes result) \<Rightarrow> CloudConfig \<Rightarrow> bytes result" where
  "config_ToBytes marshal c =
     marshal (toYAMLKeys (EncodeToMap (c\<lparr>EDGI := (EDGI c)\<lparr>Install := None\<rparr>\<rparr>)))"

definition PrintInstall :: "(gmap \<Rightarrow> bytes result) \<Rightarrow> CloudConfig \<Rightarrow> bytes result" where
  "PrintInstall marshal c =
     (case Install (EDGI c) of
        None \<Rightarrow> marshal (toYAMLKeys [])
      | Some i \<Rightarrow> marshal (toYAMLKeys (encode_install i)))"

definition config_Write :: "(gmap \<Rightarrow> bytes result) \<Rightarrow> CloudConfig \<Rightarrow> (bytes \<Rightarrow> unit result io) \<Rightarrow> unit result io" where
  "config_Write marshal c writer =
     (case config_ToBytes marshal c of
        Inl e \<Rightarrow> fail (Wrapped ''failed to marshal []'' e)
      | Inr b \<Rightarrow> writer b)"

subsection \<open>What the kernel sees of the permissions\<close>

lemma syscallMode_small: "n < 4096 \<Longrightarrow> syscallMode (word_of_nat n) = word_of_nat (n mod 512)"
proof -
  assume n: "n < 4096"
  have "\<not> bit n k" if "12 \<le> k" for k
  proof -
    have "n div 2 ^ k = 0" using n that power_increasing [of 12 k "2::nat"] by simp
    then show ?thesis by (simp add: bit_iff_odd)
  qed
  then have b: "\<not> bit (word_of_nat n :: mode) k" if "12 \<le> k" for k using that by (simp add: bit_simps)
  have f: "(word_of_nat n :: mode) AND push_bit k 1 = 0" if "12 \<le> k" for k
    by (rule bit_eqI) (use b that in \<open>auto simp: bit_simps\<close>)
  have z: "(word_of_nat n :: mode) AND push_bit 23 1 = 0" "(word_of_nat n :: mode) AND push_bit 22 1 = 0"
    "(word_of_nat n :: mode) AND push_bit 20 1 = 0" by (rule f, simp)+
  have "(word_of_nat n :: mode) AND 0x1FF = take_bit 9 (word_of_nat n)"
    by (simp add: take_bit_eq_mask mask_eq_exp_minus_1)
  then show ?thesis
    using z by (simp only: syscallMode_def ModeSetuid_def ModeSetgid_def ModeSticky_def ModePerm_def)
      (simp add: take_bit_of_nat, simp add: take_bit_eq_mod)
qed

lemma Permissions_octal:
  assumes "n < 2 ^ 31"
  shows "Permissions (f\<lparr>RawFilePermissions := digits_base 8 n\<rparr>) = Inr (word_of_nat n)"
  using assms by (simp add: Permissions_def ParseInt_digits)



end
