(* ===== verification/Schema.thy ===== *)
theory Schema
  imports Config
begin

text \<open>
  \<^verbatim>\<open>pkg/config/coerce.go\<close> and \<^verbatim>\<open>rename.go\<close>: how the keys and values a user writes are brought into the
  shape of the configuration; the schema of \<^verbatim>\<open>read.go\<close> as \<^verbatim>\<open>rancher/mapper\<close> derives it from the
  struct tags, its \<^verbatim>\<open>ToInternal\<close>, and the merge of \<^verbatim>\<open>convert/merge\<close>.
\<close>

subsection \<open>The schema\<close>

datatype ftype = TString | TBoolean | TStrings | TStringMap | TStruct string | TStructs string

type_synonym schema = "(string \<times> ftype) list"

definition cloudConfig_schema :: schema where
  "cloudConfig_schema =
     [(''sshAuthorizedKeys'', TStrings), (''writeFiles'', TStructs ''file''), (''hostname'', TString),
      (''edgi'', TStruct ''edgi''), (''runCmd'', TStrings), (''bootCmd'', TStrings), (''initCmd'', TStrings)]"

definition edgi_schema :: schema where
  "edgi_schema =
     [(''dataSources'', TStrings), (''modules'', TStrings), (''sysctls'', TStringMap),
      (''ntpServers'', TStrings), (''dnsNameservers'', TStrings), (''wifi'', TStructs ''wifi''),
      (''password'', TString), (''serverUrl'', TString), (''token'', TString), (''labels'', TStringMap),
      (''k3sArgs'', TStrings), (''environment'', TStringMap), (''taints'', TStrings),
      (''install'', TStruct ''install'')]"

definition wifi_schema :: schema where
  "wifi_schema = [(''name'', TString), (''passphrase'', TString)]"

definition install_schema :: schema where
  "install_schema =
     [(''forceEfi'', TBoolean), (''device'', TString), (''configUrl'', TString), (''silent'', TBoolean),
      (''isoUrl'', TString), (''powerOff'', TBoolean), (''noFormat'', TBoolean), (''debug'', TBoolean),
      (''tty'', TString)]"

definition file_schema :: schema where
  "file_schema =
     [(''encoding'', TString), (''content'', TString), (''owner'', TString), (''path'', TString),
      (''permissions'', TString)]"

subsection \<open>Conversions of one field\<close>

fun to_map :: "gval \<Rightarrow> gval" where
  "to_map (GMap m) = GStrMap (map (\<lambda>(k, v). (k, convert_ToString v)) m)"
| "to_map v = v"

fun to_slice :: "gval \<Rightarrow> gval" where
  "to_slice (GStr s) = GStrs [s]"
| "to_slice v = v"

fun to_bool :: "gval \<Rightarrow> gval" where
  "to_bool (GStr s) = GBool (s = ''true'')"
| "to_bool v = v"

text \<open>A \<^verbatim>\<open>fieldConverter\<close>, and a \<^verbatim>\<open>typeConverter\<close>: one per field of the type.\<close>

definition convert_field :: "string \<Rightarrow> (gval \<Rightarrow> gval) \<Rightarrow> gmap \<Rightarrow> gmap" where
  "convert_field name conv data =
     (case map_of data name of None \<Rightarrow> data | Some v \<Rightarrow> AList.update name (conv v) data)"

definition convert_type :: "schema \<Rightarrow> ftype \<Rightarrow> (gval \<Rightarrow> gval) \<Rightarrow> gmap \<Rightarrow> gmap" where
  "convert_type sch t conv data =
     fold (\<lambda>name. convert_field name conv) (map fst (filter (\<lambda>(_, t'). t' = t) sch)) data"

subsection \<open>Fuzzy names\<close>

definition name_aliases :: "string \<Rightarrow> string list" where
  "name_aliases n = [ToLower n, ToYAMLKey n, ToLower (ToYAMLKey n)]"

definition addName :: "string \<Rightarrow> string \<Rightarrow> (string \<times> string) list \<Rightarrow> (string \<times> string) list" where
  "addName n toName names = fold (\<lambda>a. AList.update a toName) (name_aliases n) names"

definition add_field_names :: "string \<Rightarrow> (string \<times> string) list \<Rightarrow> (string \<times> string) list" where
  "add_field_names n names =
     addName n n
       ((if HasSuffix n ''es'' \<and> length n > 2 then addName (take (length n - 2) n) n else id)
         ((if HasSuffix n ''s'' \<and> length n > 1 then addName (take (length n - 1) n) n else id) names))"

definition fuzzy_names :: "schema \<Rightarrow> (string \<times> string) list" where
  "fuzzy_names sch =
     AList.update ''password'' ''passphrase''
       (AList.update ''pass'' ''passphrase'' (fold add_field_names (map fst sch) []))"

text \<open>The loop visits the keys in some order; the keys it adds are canonical, and a canonical key
  adds nothing.\<close>

definition fuzzy_step :: "(string \<times> string) list \<Rightarrow> string \<Rightarrow> gmap \<Rightarrow> gmap" where
  "fuzzy_step names k data =
     (case (map_of data k, map_of names k) of
        (Some v, Some newK) \<Rightarrow> if newK \<noteq> k then AList.update newK v data else data
      | _ \<Rightarrow> data)"

definition FuzzyNames_ToInternal :: "schema \<Rightarrow> gmap \<Rightarrow> gmap" where
  "FuzzyNames_ToInternal sch data = fold (fuzzy_step (fuzzy_names sch)) (map fst data) data"

subsection \<open>\<open>ToInternal\<close>\<close>

text \<open>The mappers of one struct, the last registered first, then those of its fields' structs.\<close>

definition own_mappers :: "schema \<Rightarrow> gmap \<Rightarrow> gmap" where
  "own_mappers sch data =
     convert_type sch TStringMap to_map
       (convert_type sch TStrings to_slice
         (convert_type sch TBoolean to_bool (FuzzyNames_ToInternal sch data)))"

text \<open>The elements of an array field that are maps, and a map field, are converted in place.\<close>

fun in_array :: "(gmap \<Rightarrow> gmap) \<Rightarrow> gval \<Rightarrow> gval" where
  "in_array f (GList vs) = GList (map (\<lambda>v. case v of GMap m \<Rightarrow> GMap (f m) | _ \<Rightarrow> v) vs)"
| "in_array f v = v"

fun in_map :: "(gmap \<Rightarrow> gmap) \<Rightarrow> gval \<Rightarrow> gval" where
  "in_map f (GMap m) = GMap (f m)"
| "in_map f v = v"

definition edgi_ToInternal :: "gmap \<Rightarrow> gmap" where
  "edgi_ToInternal data =
     convert_field ''install'' (in_map (own_mappers install_schema))
       (convert_field ''wifi'' (in_array (own_mappers wifi_schema)) (own_mappers edgi_schema data))"

definition ToInternal :: "gmap \<Rightarrow> gmap" where
  "ToInternal data =
     convert_field ''edgi'' (in_map edgi_ToInternal)
       (convert_field ''writeFiles'' (in_array (own_mappers file_schema)) (own_mappers cloudConfig_schema data))"

subsection \<open>Merge\<close>

text \<open>The schema of a field, \<open>None\<close> where there is none. Two maps merge entry by entry unless the
  field is a map of strings; otherwise the newer value wins.\<close>

definition schema_named :: "string \<Rightarrow> schema option" where
  "schema_named n =
     (if n = ''edgi'' then Some edgi_schema
      else if n = ''install'' then Some install_schema
      else if n = ''wifi'' then Some wifi_schema
      else if n = ''file'' then Some file_schema
      else None)"

definition field_schema :: "schema option \<Rightarrow> string \<Rightarrow> schema option" where
  "field_schema sch field =
     (case sch of
        None \<Rightarrow> None
      | Some s \<Rightarrow> (case map_of s field of Some (TStruct n) \<Rightarrow> schema_named n | _ \<Rightarrow> None))"

definition is_string_map :: "schema option \<Rightarrow> string \<Rightarrow> bool" where
  "is_string_map sch field \<longleftrightarrow>
     (case sch of None \<Rightarrow> False | Some s \<Rightarrow> map_of s field = Some TStringMap)"

function mergeMaps :: "schema option \<Rightarrow> gmap \<Rightarrow> gmap \<Rightarrow> gmap"
  and merge_value :: "schema option \<Rightarrow> string \<Rightarrow> gval option \<Rightarrow> gval \<Rightarrow> gval" where
  "mergeMaps sch dest [] = dest"
| "mergeMaps sch dest ((k, v) # src) =
     mergeMaps sch (AList.update k (merge_value sch k (map_of dest k) v) dest) src"
| "merge_value sch k d v =
     (if is_string_map sch k then v
      else case (v, d) of
        (GMap sm, Some (GMap dm)) \<Rightarrow> GMap (mergeMaps (field_schema sch k) dm sm)
      | _ \<Rightarrow> v)"
  by pat_completeness auto
termination
  by (relation "measure (case_sum (\<lambda>(_, _, src). 2 * size (GMap src)) (\<lambda>(_, _, _, v). 2 * size v + 1))") auto

subsection \<open>The merge: the newer value wins, the older one stays where the newer source is silent\<close>

fun tidy :: "gval \<Rightarrow> bool" where
  "tidy (GMap m) = (distinct (map fst m) \<and> (\<forall>x \<in> set m. tidy (snd x)))"
| "tidy _ = True"

lemma tidy_lookup: "tidy (GMap src) \<Longrightarrow> map_of src k = Some v \<Longrightarrow> tidy v"
  by (fastforce dest: map_of_SomeD)

lemma merge_lookup:
  "distinct (map fst src) \<Longrightarrow>
     map_of (mergeMaps sch dest src) k =
       (case map_of src k of None \<Rightarrow> map_of dest k | Some v \<Rightarrow> Some (merge_value sch k (map_of dest k) v))"
proof (induction src arbitrary: dest)
  case (Cons e src)
  obtain k' v where e: "e = (k', v)" by (cases e)
  have "map_of src k' = None" using Cons.prems by (simp add: e map_of_eq_None_iff)
  then show ?case using Cons by (auto simp: e update_conv' simp del: merge_value.simps split: option.split)
qed simp

lemma GetValue_cases:
  "ks \<noteq> [] \<Longrightarrow> GetValue m (k # ks) = (case map_of m k of Some (GMap m') \<Rightarrow> GetValue m' ks | _ \<Rightarrow> None)"
  by (cases ks) (auto split: option.split gval.split)

lemma merge_newer:
  assumes "tidy (GMap src)" "GetValue src ks = Some v" "\<forall>m. v \<noteq> GMap m"
  shows "GetValue (mergeMaps sch dest src) ks = Some v"
  using assms
proof (induction ks arbitrary: sch dest src)
  case (Cons k ks)
  have d: "distinct (map fst src)" using Cons.prems(1) by simp
  show ?case
  proof (cases "ks = []")
    case True
    then have "map_of src k = Some v" using Cons.prems(2) by simp
    then have "map_of (mergeMaps sch dest src) k = Some (merge_value sch k (map_of dest k) v)"
      by (simp only: merge_lookup [OF d] option.case)
    moreover have "merge_value sch k (map_of dest k) v = v" using Cons.prems(3) by (cases v) simp_all
    ultimately show ?thesis using True by simp
  next
    case False
    then obtain m where m: "map_of src k = Some (GMap m)" "GetValue m ks = Some v"
      using Cons.prems(2) by (auto simp: GetValue_cases split: option.splits gval.splits)
    have "tidy (GMap m)" by (rule tidy_lookup [OF Cons.prems(1) m(1)])
    from Cons.IH [OF this m(2) Cons.prems(3)]
    have "\<exists>m'. merge_value sch k (map_of dest k) (GMap m) = GMap m' \<and> GetValue m' ks = Some v"
      using m(2) by (cases "map_of dest k") (auto split: gval.split)
    then show ?thesis using m False by (auto simp: GetValue_cases merge_lookup [OF d] simp del: merge_value.simps)
  qed
qed simp

fun silent :: "schema option \<Rightarrow> gmap \<Rightarrow> string list \<Rightarrow> bool" where
  "silent sch src [] = False"
| "silent sch src (k # ks) =
     (case map_of src k of
        None \<Rightarrow> True
      | Some v \<Rightarrow> (case v of GMap m \<Rightarrow> ks \<noteq> [] \<and> \<not> is_string_map sch k \<and> silent (field_schema sch k) m ks | _ \<Rightarrow> False))"

lemma silent_GetValue: "silent sch src ks \<Longrightarrow> GetValue src ks = None"
proof (induction ks arbitrary: sch src)
  case (Cons k ks)
  then show ?case
    by (cases "ks = []") (auto simp: GetValue_cases split: option.splits gval.splits)
qed simp

lemma merge_older:
  assumes "tidy (GMap src)" "silent sch src ks"
  shows "GetValue (mergeMaps sch dest src) ks = GetValue dest ks"
  using assms
proof (induction ks arbitrary: sch dest src)
  case (Cons k ks)
  have d: "distinct (map fst src)" using Cons.prems(1) by simp
  show ?case
  proof (cases "map_of src k")
    case None
    then have "map_of (mergeMaps sch dest src) k = map_of dest k" by (simp add: merge_lookup [OF d])
    then show ?thesis by (cases "ks = []") (simp_all add: GetValue_cases)
  next
    case (Some v)
    then obtain m where m: "map_of src k = Some (GMap m)" "ks \<noteq> []" "\<not> is_string_map sch k" "silent (field_schema sch k) m ks"
      using Cons.prems(2) by (auto split: gval.splits)
    have "tidy (GMap m)" by (rule tidy_lookup [OF Cons.prems(1) m(1)])
    note IH = Cons.IH [OF this m(4)]
    show ?thesis
      using m silent_GetValue [OF m(4)] IH
      by (cases "map_of dest k") (auto simp: GetValue_cases merge_lookup [OF d] split: gval.split)
  qed
qed simp

subsection \<open>Names written and names read\<close>

definition names_ok :: "(string \<times> string) list \<Rightarrow> schema \<Rightarrow> bool" where
  "names_ok names sch \<longleftrightarrow> list_all (\<lambda>n. ToYAMLKey n = n \<or> map_of names (ToYAMLKey n) = Some n) (map fst sch)"

lemma names_ok_wifi: "names_ok (fuzzy_names wifi_schema) wifi_schema"
  by code_simp
lemma names_ok_cloud: "names_ok (fuzzy_names cloudConfig_schema) cloudConfig_schema"
  by code_simp
lemma names_ok_edgi: "names_ok (fuzzy_names edgi_schema) edgi_schema"
  by code_simp
lemma names_ok_install: "names_ok (fuzzy_names install_schema) install_schema"
  by code_simp
lemma names_ok_file: "names_ok (fuzzy_names file_schema) file_schema"
  by code_simp

definition schemas :: "schema list" where
  "schemas = [cloudConfig_schema, edgi_schema, install_schema, wifi_schema, file_schema]"

lemma FuzzyNames_yaml:
  assumes "sch \<in> set schemas" "n \<in> fst ` set sch"
  shows "map_of (FuzzyNames_ToInternal sch [(ToYAMLKey n, v)]) n = Some v"
proof -
  have "names_ok (fuzzy_names sch) sch"
    using assms(1) names_ok_cloud names_ok_edgi names_ok_install names_ok_wifi names_ok_file by (auto simp: schemas_def)
  then have "ToYAMLKey n = n \<or> map_of (fuzzy_names sch) (ToYAMLKey n) = Some n"
    using assms(2) by (auto simp: names_ok_def list_all_iff)
  then show ?thesis
    by (auto simp: FuzzyNames_ToInternal_def fuzzy_step_def update_conv' split: option.split)
qed

lemma toYAMLKeys_single:
  "toYAMLKeys [(''edgi'', GMap [(''environment'', GMap [(k, GStr v)])])] =
     [(''edgi'', GMap [(''environment'', GMap [(ToYAMLKey k, GStr v)])])]"
proof -
  have "ToYAMLKey ''edgi'' = ''edgi''" "ToYAMLKey ''environment'' = ''environment''" by code_simp+
  then show ?thesis by (simp add: toYAMLKeys_def rename_key_def)
qed

lemma http_proxy: "ToYAMLKey ''HTTP_PROXY'' = ''http__p_r_o_x_y''" by code_simp

text \<open>C14: Merging the sources: a value of the newer source wins at its path, however deep; a path on which the newer source is
  silent keeps the older value. Only a map of strings is replaced as a whole.\<close>

theorem mergeMaps_newer_wins:
  assumes "tidy (GMap src)"
  shows "(\<forall>v. (\<forall>m. v \<noteq> GMap m) \<longrightarrow> GetValue src ks = Some v \<longrightarrow> GetValue (mergeMaps sch dest src) ks = Some v) \<and>
    (silent sch src ks \<longrightarrow> GetValue (mergeMaps sch dest src) ks = GetValue dest ks)"
  using merge_newer [OF assms] merge_older [OF assms] by blast

theorem mergeMaps_newer_wins_witness:
  "let d = [(''edgi'', GMap [(''token'', GStr ''old''), (''password'', GStr ''p'')])];
       s = [(''edgi'', GMap [(''token'', GStr ''new'')])]
   in GetValue (mergeMaps (Some cloudConfig_schema) d s) [''edgi'', ''token''] = Some (GStr ''new'') \<and>
      GetValue (mergeMaps (Some cloudConfig_schema) d s) [''edgi'', ''password''] = Some (GStr ''p'')"
  using mergeMaps_newer_wins [of "[(''edgi'', GMap [(''token'', GStr ''new'')])]" "[''edgi'', ''token'']"]
    mergeMaps_newer_wins [of "[(''edgi'', GMap [(''token'', GStr ''new'')])]" "[''edgi'', ''password'']"]
  by (simp add: field_schema_def is_string_map_def cloudConfig_schema_def edgi_schema_def schema_named_def)

text \<open>C35: The names \<^verbatim>\<open>toYAMLKeys\<close> writes are names the reader understands: for every field of every struct, \<^verbatim>\<open>FuzzyNames\<close> finds a value
  written under the field's YAML key.\<close>

theorem yaml_names_understood:
  "\<forall>sch \<in> set [cloudConfig_schema, edgi_schema, install_schema, wifi_schema, file_schema]. \<forall>(n, t) \<in> set sch.
     map_of (FuzzyNames_ToInternal sch [(ToYAMLKey n, v)]) n = Some v"
proof (intro ballI, clarify)
  fix sch n t assume s: "sch \<in> set [cloudConfig_schema, edgi_schema, install_schema, wifi_schema, file_schema]" "(n, t) \<in> set sch"
  show "map_of (FuzzyNames_ToInternal sch [(ToYAMLKey n, v)]) n = Some v"
    by (rule FuzzyNames_yaml [unfolded schemas_def, OF s(1)]) (use s(2) in force)
qed

theorem yaml_names_understood_witness:
  "map_of (FuzzyNames_ToInternal cloudConfig_schema [(ToYAMLKey ''writeFiles'', GNil)]) ''writeFiles'' = Some GNil"
proof -
  have "(''writeFiles'', TStructs ''file'') \<in> set cloudConfig_schema" by (simp add: cloudConfig_schema_def)
  with yaml_names_understood [of GNil] show ?thesis by fastforce
qed

text \<open>Saving the configuration renames the keys of user data as well: \<^verbatim>\<open>toYAMLKeys\<close> descends into every map, so a variable, a label or a
  sysctl is saved under another name, \<^verbatim>\<open>HTTP_PROXY\<close> as \<^verbatim>\<open>http__p_r_o_x_y\<close>, and its own name is gone.\<close>

theorem saved_environment_renamed:
  "config_ToBytes marshal (empty_config\<lparr>EDGI := empty_edgi\<lparr>Environment := [(k, v)]\<rparr>\<rparr>) =
     marshal [(''edgi'', GMap [(''environment'', GMap [(ToYAMLKey k, GStr v)])])] \<and>
   ToYAMLKey ''HTTP_PROXY'' = ''http__p_r_o_x_y''"
  using toYAMLKeys_single [of k v] http_proxy
  by (simp add: config_ToBytes_def EncodeToMap_def encode_edgi_def empty_config_def empty_edgi_def
      opt_str_def opt_strs_def opt_strmap_def)

end
