(* ===== verification/Decode.thy ===== *)
theory Decode
  imports Util
begin

text \<open>
  \<^verbatim>\<open>pkg/util/decode.go\<close>: the encodings of a file's content. Base64 is Go's \<^verbatim>\<open>base64.StdEncoding\<close>,
  padded, line breaks ignored; decompression is the parameter \<open>gunzip\<close>.
\<close>

subsection \<open>Base64\<close>

definition b64_alphabet :: string where
  "b64_alphabet = ''ABCDEFGHIJKLMNOPQRSTUVWXYZabcdefghijklmnopqrstuvwxyz0123456789+/''"

definition b64_char :: "nat \<Rightarrow> char" where
  "b64_char n = b64_alphabet ! n"

definition b64_value :: "char \<Rightarrow> nat option" where
  "b64_value c = map_of (zip b64_alphabet [0..<64]) c"

fun base64_encode :: "bytes \<Rightarrow> string" where
  "base64_encode [] = []"
| "base64_encode [a] =
     (let n = of_char a * 16
      in [b64_char (n div 64), b64_char (n mod 64), CHR ''='', CHR ''=''])"
| "base64_encode [a, b] =
     (let n = (of_char a * 256 + of_char b) * 4
      in [b64_char (n div 4096), b64_char (n div 64 mod 64), b64_char (n mod 64), CHR ''=''])"
| "base64_encode (a # b # c # s) =
     (let n = (of_char a * 256 + of_char b) * 256 + of_char c
      in b64_char (n div 262144) # b64_char (n div 4096 mod 64) # b64_char (n div 64 mod 64) #
         b64_char (n mod 64) # base64_encode s)"

text \<open>The decoder on the text without its line breaks: quanta of four characters; padding only at
  the end; the bits that padding leaves over are ignored.\<close>

definition b64_byte :: "nat \<Rightarrow> char" where
  "b64_byte n = char_of (n mod 256)"

fun b64_decode_quanta :: "string \<Rightarrow> bytes option" where
  "b64_decode_quanta [] = Some []"
| "b64_decode_quanta (a # b # c # d # s) =
     (case (b64_value a, b64_value b) of
        (Some x, Some y) \<Rightarrow>
          (if c = CHR ''='' then
             (if d = CHR ''='' \<and> s = [] then Some [b64_byte ((x * 64 + y) div 16)] else None)
           else case b64_value c of
             None \<Rightarrow> None
           | Some z \<Rightarrow>
               (if d = CHR ''='' then
                  (if s = []
                   then Some [b64_byte ((x * 64 + y) div 16), b64_byte ((x * 4096 + y * 64 + z) div 4)]
                   else None)
                else case b64_value d of
                  None \<Rightarrow> None
                | Some v \<Rightarrow>
                    (let n = ((x * 64 + y) * 64 + z) * 64 + v
                     in map_option (\<lambda>r. b64_byte (n div 65536) # b64_byte (n div 256) # b64_byte n # r)
                          (b64_decode_quanta s))))
      | _ \<Rightarrow> None)"
| "b64_decode_quanta _ = None"

definition base64_decode :: "string \<Rightarrow> bytes option" where
  "base64_decode s = b64_decode_quanta (filter (\<lambda>c. c \<noteq> NL \<and> c \<noteq> CR) s)"

subsection \<open>Decoding of a content\<close>

definition DecodeBase64Content :: "string \<Rightarrow> bytes result" where
  "DecodeBase64Content content =
     (case base64_decode content of
        None \<Rightarrow> Inl (Msg ''unable to decode base64'')
      | Some b \<Rightarrow> Inr b)"

definition DecompressGzip :: "(bytes \<Rightarrow> bytes option) \<Rightarrow> bytes \<Rightarrow> bytes result" where
  "DecompressGzip gunzip content =
     (case gunzip content of None \<Rightarrow> Inl (Msg ''unable to decode gzip'') | Some b \<Rightarrow> Inr b)"

definition DecodeGzipContent :: "(bytes \<Rightarrow> bytes option) \<Rightarrow> string \<Rightarrow> bytes result" where
  "DecodeGzipContent gunzip content = DecompressGzip gunzip content"

definition DecodeContent :: "(bytes \<Rightarrow> bytes option) \<Rightarrow> string \<Rightarrow> string \<Rightarrow> bytes result" where
  "DecodeContent gunzip content encoding =
     (if encoding = [] then Inr content
      else if encoding \<in> {''b64'', ''base64''} then DecodeBase64Content content
      else if encoding \<in> {''gz'', ''gzip''} then DecodeGzipContent gunzip content
      else if encoding \<in> {''gz+base64'', ''gzip+base64'', ''gz+b64'', ''gzip+b64''}
      then (case DecodeBase64Content content of Inl e \<Rightarrow> Inl e | Inr gz \<Rightarrow> DecodeGzipContent gunzip gz)
      else Inl (Msg (''unsupported encoding '' @ encoding)))"

subsection \<open>Encoded text decodes to what was encoded\<close>

lemma b64_table: "list_all (\<lambda>n. b64_value (b64_char n) = Some n \<and> b64_char n \<notin> {CHR ''='', NL, CR}) [0..<64]"
  by code_simp

lemma b64_value_char [simp]: "n < 64 \<Longrightarrow> b64_value (b64_char n) = Some n"
  and b64_char_plain: "n < 64 \<Longrightarrow> b64_char n \<noteq> CHR ''='' \<and> b64_char n \<noteq> NL \<and> b64_char n \<noteq> CR"
  using b64_table by (auto simp: list_all_iff)

lemma b64_digits:
  "n div 64 * 64 + n mod 64 = (n::nat)"
  "n div 4096 * 64 + n div 64 mod 64 = n div 64"
  "n div 262144 * 64 + n div 4096 mod 64 = n div 4096"
  "n div 64 div 16 = n div 1024"
  using div_mult_mod_eq [of n 64] div_mult_mod_eq [of "n div 64" 64] div_mult_mod_eq [of "n div 4096" 64]
  by (simp_all add: div_mult2_eq [symmetric])

lemma b64_digits5: "n div 4096 * 4096 + n div 64 mod 64 * 64 + n mod 64 = (n::nat)"
  using b64_digits(1,2) [of n] by linarith

lemma b64_shift: "y < 256 \<Longrightarrow> (x * 256 + y) div 256 = x \<and> (x * 256 + y) mod 256 = (y::nat)"
  by simp

lemma b64_bounds:
  "x < 256 \<Longrightarrow> x * 16 < (4096 :: nat)"
  "x < 256 \<Longrightarrow> y < 256 \<Longrightarrow> (x * 256 + y) * 4 < (262144 :: nat)"
  "x < 256 \<Longrightarrow> y < 256 \<Longrightarrow> z < 256 \<Longrightarrow> (x * 256 + y) * 256 + z < (16777216 :: nat)"
  by simp_all

lemma b64_quantum1:
  "n < 4096 \<Longrightarrow> b64_decode_quanta [b64_char (n div 64), b64_char (n mod 64), CHR ''='', CHR ''=''] = Some [b64_byte (n div 16)]"
  by (simp add: b64_digits(1))

lemma b64_quantum2:
  assumes "n < 262144"
  shows "b64_decode_quanta [b64_char (n div 4096), b64_char (n div 64 mod 64), b64_char (n mod 64), CHR ''=''] =
     Some [b64_byte (n div 1024), b64_byte (n div 4)]"
proof -
  have "n div 4096 < 64" using assms by simp
  then show ?thesis
    using b64_char_plain [of "n mod 64"] b64_digits(1,2) [of n]
    by (simp add: b64_digits(4) b64_digits5 del: distrib_right_numeral distrib_left_numeral)
qed

lemma b64_quantum3:
  assumes "n < 16777216"
  shows "b64_decode_quanta (b64_char (n div 262144) # b64_char (n div 4096 mod 64) # b64_char (n div 64 mod 64) #
         b64_char (n mod 64) # s) =
     map_option (\<lambda>r. b64_byte (n div 65536) # b64_byte (n div 256) # b64_byte n # r) (b64_decode_quanta s)"
proof -
  have "n div 262144 < 64" using assms by simp
  then show ?thesis
    using b64_char_plain [of "n mod 64"] b64_char_plain [of "n div 64 mod 64"] by (simp add: b64_digits Let_def)
qed

lemma b64_byte_char: "n mod 256 = of_char c \<Longrightarrow> b64_byte n = c"
  by (simp add: b64_byte_def)

lemma char_lt: "of_char c < (256 :: nat)"
  by simp

lemma b64_shift2:
  assumes "x < 256" "y < (256 :: nat)"
  shows "((x * 256 + y) * 4) div 1024 mod 256 = x" "((x * 256 + y) * 4) div 4 mod 256 = y"
proof -
  have top: "n * 4 div 1024 = n div 256" for n :: nat using div_mult_mult2 [of 4 n 256] by simp
  note low = b64_shift [OF assms(2), of x]
  show "((x * 256 + y) * 4) div 1024 mod 256 = x"
    unfolding top low [THEN conjunct1] by (rule mod_less [OF assms(1)])
  show "((x * 256 + y) * 4) div 4 mod 256 = y"
    unfolding nonzero_mult_div_cancel_right [OF numeral_neq_zero] by (rule low [THEN conjunct2])
qed

lemma b64_shift3:
  assumes "x < 256" "y < 256" "z < (256 :: nat)"
  shows "((x * 256 + y) * 256 + z) div 65536 mod 256 = x" "((x * 256 + y) * 256 + z) div 256 mod 256 = y"
    "((x * 256 + y) * 256 + z) mod 256 = z"
proof -
  have top: "n div 65536 = n div 256 div 256" for n :: nat using div_mult2_eq [of n 256 256] by simp
  note low = b64_shift [OF assms(3), of "x * 256 + y"] and mid = b64_shift [OF assms(2), of x]
  show "((x * 256 + y) * 256 + z) div 65536 mod 256 = x"
    unfolding top low [THEN conjunct1] mid [THEN conjunct1] by (rule mod_less [OF assms(1)])
  show "((x * 256 + y) * 256 + z) div 256 mod 256 = y"
    unfolding low [THEN conjunct1] by (rule mid [THEN conjunct2])
  show "((x * 256 + y) * 256 + z) mod 256 = z" by (rule low [THEN conjunct2])
qed

lemma b64_decode_encode: "b64_decode_quanta (base64_encode s) = Some s"
proof (induction s rule: base64_encode.induct)
  case (2 a)
  show ?case
    unfolding base64_encode.simps Let_def b64_quantum1 [OF b64_bounds(1) [OF char_lt]] by (simp add: b64_byte_char)
next
  case (3 a b)
  note bytes = b64_shift2 [OF char_lt char_lt]
  show ?case
    unfolding base64_encode.simps Let_def b64_quantum2 [OF b64_bounds(2) [OF char_lt char_lt]]
    by (simp only: b64_byte_char [OF bytes(1)] b64_byte_char [OF bytes(2)])
next
  case (4 a b c s)
  note bytes = b64_shift3 [OF char_lt char_lt char_lt]
  show ?case
    unfolding base64_encode.simps Let_def b64_quantum3 [OF b64_bounds(3) [OF char_lt char_lt char_lt]]
    by (simp only: b64_byte_char [OF bytes(1)] b64_byte_char [OF bytes(2)] b64_byte_char [OF bytes(3)] 4 option.map)
qed simp

text \<open>The alphabet holds no line break, so dropping those is harmless; encoded text may be broken anywhere.\<close>

lemma base64_encode_chars: "c \<in> set (base64_encode s) \<Longrightarrow> c \<noteq> NL \<and> c \<noteq> CR"
proof (induction s rule: base64_encode.induct)
  case (4 a b d s)
  have "((of_char a * 256 + of_char b) * 256 + of_char d) div 262144 < (64::nat)"
    using b64_bounds(3) [OF char_lt char_lt char_lt, of a b d] by simp
  then show ?case using 4 b64_char_plain by (auto simp: Let_def)
next
  case (3 a b)
  have "(of_char a * 256 + of_char b) * 4 div 4096 < (64::nat)"
    using b64_bounds(2) [OF char_lt char_lt, of a b] by simp
  then show ?case using 3 b64_char_plain by (auto simp: Let_def)
next
  case (2 a)
  have "of_char a div 4 < (64::nat)" using char_lt [of a] by linarith
  then show ?case using 2 b64_char_plain by (auto simp: Let_def)
qed simp

lemma base64_decode_encode:
  assumes "filter (\<lambda>c. c \<noteq> NL \<and> c \<noteq> CR) enc = base64_encode s"
  shows "base64_decode enc = Some s"
  unfolding base64_decode_def assms b64_decode_encode ..



end
