(* ===== verification/ReadConfig.thy ===== *)
theory ReadConfig
  imports Schema System Decode
begin

text \<open>
  \<^verbatim>\<open>pkg/config/read.go\<close> and \<^verbatim>\<open>read_cc.go\<close>: the sources of the configuration, the kernel command
  line among them, their merge in order, and the decoding into the configuration. The YAML
  parser is the parameter \<open>unmarshal\<close>.
\<close>

subsection \<open>The kernel command line\<close>

text \<open>The expression \<^verbatim>\<open>(\"[^\"]+\")|([^\s]+=(\"[^\"]+\")|([^\s]+))\<close> as Go matches it: the first alternative that
  matches wins, repetitions are greedy and give back. The result is the length of the match at the
  head of the string.\<close>

definition re_space :: "char \<Rightarrow> bool" where
  "re_space c \<longleftrightarrow> c \<in> {CHR '' '', CHR 0x09, CHR 0x0A, CHR 0x0C, CHR 0x0D}"

definition match_quoted :: "string \<Rightarrow> nat option" where
  "match_quoted s =
     (case s of
        [] \<Rightarrow> None
      | c # t \<Rightarrow>
          let body = takeWhile (\<lambda>x. x \<noteq> DQ) t
          in if c = DQ \<and> body \<noteq> [] \<and> length body < length t then Some (length body + 2) else None)"

text \<open>\<^verbatim>\<open>[^\s]+="[^"]+"\<close>: \<open>k\<close> is how much of the run of non-blanks is still offered.\<close>

fun match_assign :: "string \<Rightarrow> nat \<Rightarrow> nat option" where
  "match_assign s 0 = None"
| "match_assign s (Suc k) =
     (case drop (Suc k) s of
        [] \<Rightarrow> match_assign s k
      | c # t \<Rightarrow>
          (case if c = CHR ''='' then match_quoted t else None of
             Some n \<Rightarrow> Some (Suc k + 1 + n)
           | None \<Rightarrow> match_assign s k))"

definition cmdline_match :: "string \<Rightarrow> nat option" where
  "cmdline_match s =
     (let run = length (takeWhile (\<lambda>c. \<not> re_space c) s)
      in case match_quoted s of
           Some n \<Rightarrow> Some n
         | None \<Rightarrow> (case match_assign s run of
             Some n \<Rightarrow> Some n
           | None \<Rightarrow> if run = 0 then None else Some run))"

lemma match_quoted_pos: "match_quoted s = Some n \<Longrightarrow> 0 < n"
  by (auto simp: match_quoted_def Let_def split: list.splits if_splits)

lemma match_assign_pos: "match_assign s k = Some n \<Longrightarrow> 0 < n"
  by (induction s k rule: match_assign.induct) (auto split: list.splits option.splits if_splits)

lemma cmdline_match_pos: "cmdline_match s = Some n \<Longrightarrow> 0 < n"
  by (auto simp: cmdline_match_def Let_def dest: match_quoted_pos match_assign_pos
      split: option.splits if_splits)

text \<open>\<^verbatim>\<open>FindAllString\<close>: matches from left to right, each after the one before.\<close>

function find_all :: "string \<Rightarrow> string list" where
  "find_all [] = []"
| "find_all (c # s) =
     (case cmdline_match (c # s) of
        None \<Rightarrow> find_all s
      | Some n \<Rightarrow> take n (c # s) # find_all (drop n (c # s)))"
  by pat_completeness auto
termination
  by (relation "measure length") (auto dest: cmdline_match_pos)

text \<open>One word: \<^verbatim>\<open>a.b.c=value\<close>; a word without \<^verbatim>\<open>=\<close> is true; a repeated key collects its values.\<close>

definition cmdline_item :: "gmap \<Rightarrow> string \<Rightarrow> gmap" where
  "cmdline_item data item =
     (let parts = SplitN2 item CHR ''='';
          v = (case parts of _ # p # _ \<Rightarrow> Trim p DQ | _ \<Rightarrow> ''true'');
          keys = Split (Trim (hd parts) DQ) CHR ''.''
      in case GetValue data keys of
           Some (GStr old) \<Rightarrow> PutValue data (GStrs [old, v]) keys
         | Some (GStrs olds) \<Rightarrow> PutValue data (GStrs (olds @ [v])) keys
         | Some _ \<Rightarrow> data
         | None \<Rightarrow> PutValue data (GStr v) keys)"

definition parse_cmdline :: "bytes \<Rightarrow> gmap" where
  "parse_cmdline s = foldl cmdline_item [] (find_all s)"

type_synonym reader = "gmap result io"

definition readCmdline :: reader where
  "readCmdline = do {
     r \<leftarrow> ioutil_ReadFile ''/proc/cmdline'';
     State_Monad.return
       (case r of
          Inl e \<Rightarrow> if IsNotExist e then Inr [] else Inl e
        | Inr b \<Rightarrow> Inr (parse_cmdline b)) }"

subsection \<open>Files\<close>

definition SystemConfig :: string where "SystemConfig = RootPath [''config.yaml'']"
definition LocalConfig :: string where "LocalConfig = LocalPath [''config.yaml'']"
definition localConfigs :: string where "localConfigs = LocalPath [''config.d'']"

definition readFile :: "(bytes \<Rightarrow> gmap result) \<Rightarrow> string \<Rightarrow> reader" where
  "readFile unmarshal p = do {
     r \<leftarrow> ioutil_ReadFile p;
     State_Monad.return
       (case r of
          Inl e \<Rightarrow> if IsNotExist e then Inr [] else Inl e
        | Inr b \<Rightarrow> unmarshal b) }"

definition readSystemConfig :: "(bytes \<Rightarrow> gmap result) \<Rightarrow> reader" where
  "readSystemConfig unmarshal = readFile unmarshal SystemConfig"

definition readLocalConfig :: "(bytes \<Rightarrow> gmap result) \<Rightarrow> reader" where
  "readLocalConfig unmarshal = readFile unmarshal LocalConfig"

definition readLocalConfigs :: "(bytes \<Rightarrow> gmap result) \<Rightarrow> reader list io" where
  "readLocalConfigs unmarshal = do {
     r \<leftarrow> ioutil_ReadDir localConfigs;
     State_Monad.return
       (case r of
          Inl e \<Rightarrow> if IsNotExist e then [] else [fail e]
        | Inr fs \<Rightarrow> map (\<lambda>f. readFile unmarshal (PathJoin [localConfigs, fi_name f])) fs) }"

subsection \<open>The data source's files\<close>

definition cc_hostname :: string where "cc_hostname = ''/run/config/local_hostname''"
definition cc_ssh :: string where "cc_ssh = ''/run/config/ssh/authorized_keys''"
definition cc_userdata :: string where "cc_userdata = ''/run/config/userdata''"

definition readCloudConfig :: reader where
  "readCloudConfig = do {
     h \<leftarrow> ioutil_ReadFile cc_hostname;
     let result = (case h of Inl _ \<Rightarrow> [] | Inr b \<Rightarrow> [(''hostname'', GStr (TrimSpace b))]);
     k \<leftarrow> ioutil_ReadFile cc_ssh;
     case k of
       Inl _ \<Rightarrow> ok result
     | Inr b \<Rightarrow>
         let keys = filter (\<lambda>l. l \<noteq> []) (map TrimSpace (Split b NL))
         in ok (if keys = [] then result else result @ [(''ssh_authorized_keys'', GStrs keys)]) }"

text \<open>A user-data file that is a script becomes a file to write and a command to run.\<close>

definition userdata_script :: "bytes \<Rightarrow> string \<Rightarrow> CloudConfig" where
  "userdata_script content encoding =
     empty_config\<lparr>
       WriteFiles := [\<lparr>Encoding = encoding, Content = content, Owner = ''root'',
                       Path = ''/run/edgi/userdata'', RawFilePermissions = ''0700''\<rparr>],
       Runcmd := [''source /run/edgi/userdata'']\<rparr>"

definition parse_userdata :: "(bytes \<Rightarrow> gmap result) \<Rightarrow> bytes \<Rightarrow> gmap result" where
  "parse_userdata unmarshal b =
     (if CHR 0x00 \<in> set b then Inr (EncodeToMap (userdata_script (base64_encode b) ''b64''))
      else if HasPrefix b ''#!'' then Inr (EncodeToMap (userdata_script b []))
      else unmarshal b)"

definition readUserData :: "(bytes \<Rightarrow> gmap result) \<Rightarrow> reader" where
  "readUserData unmarshal = do {
     r \<leftarrow> ioutil_ReadFile cc_userdata;
     State_Monad.return
       (case r of
          Inl e \<Rightarrow> if IsNotExist e then Inr [] else Inl e
        | Inr b \<Rightarrow> parse_userdata unmarshal b) }"

subsection \<open>Decoding\<close>

text \<open>\<^verbatim>\<open>convert.ToObj\<close>, \<^verbatim>\<open>json.Unmarshal\<close> into the struct: a key matches a field exactly or up to case;
  \<^verbatim>\<open>null\<close> leaves the field alone (a slice, a map and a pointer become nil); a value of the wrong
  type leaves it alone and is an error in the end (the flag).\<close>

type_synonym 'a decoder = "gval \<Rightarrow> 'a \<Rightarrow> 'a \<times> bool"

fun dec_str :: "string decoder" where
  "dec_str (GStr s) old = (s, False)"
| "dec_str GNil old = (old, False)"
| "dec_str _ old = (old, True)"

fun dec_bool :: "bool decoder" where
  "dec_bool (GBool b) old = (b, False)"
| "dec_bool GNil old = (old, False)"
| "dec_bool _ old = (old, True)"

fun dec_elems :: "'a decoder \<Rightarrow> 'a \<Rightarrow> gval list \<Rightarrow> 'a list \<Rightarrow> 'a list \<times> bool" where
  "dec_elems d z [] olds = ([], False)"
| "dec_elems d z (v # vs) olds =
     (case d v (case olds of [] \<Rightarrow> z | x # _ \<Rightarrow> x) of (x, b) \<Rightarrow>
        (case dec_elems d z vs (tl olds) of (xs, b') \<Rightarrow> (x # xs, b \<or> b')))"

definition dec_list :: "'a decoder \<Rightarrow> 'a \<Rightarrow> 'a list decoder" where
  "dec_list d z v old =
     (case v of
        GList vs \<Rightarrow> dec_elems d z vs old
      | GStrs ss \<Rightarrow> dec_elems d z (map GStr ss) old
      | GNil \<Rightarrow> ([], False)
      | _ \<Rightarrow> (old, True))"

fun dec_entries :: "gmap \<Rightarrow> (string \<times> string) list \<Rightarrow> (string \<times> string) list \<times> bool" where
  "dec_entries [] old = (old, False)"
| "dec_entries ((k, v) # m) old =
     (case dec_str v [] of (s, b) \<Rightarrow>
        (case dec_entries m (AList.update k s old) of (r, b') \<Rightarrow> (r, b \<or> b')))"

definition dec_strmap :: "(string \<times> string) list decoder" where
  "dec_strmap v old =
     (case v of
        GMap m \<Rightarrow> dec_entries m old
      | GStrMap m \<Rightarrow> dec_entries (map (\<lambda>(k, s). (k, GStr s)) m) old
      | GNil \<Rightarrow> ([], False)
      | _ \<Rightarrow> (old, True))"

definition find_field :: "schema \<Rightarrow> string \<Rightarrow> string option" where
  "find_field sch k =
     (if map_of sch k \<noteq> None then Some k
      else find (\<lambda>n. ToLower n = ToLower k) (map fst sch))"

fun dec_fields :: "schema \<Rightarrow> (string \<Rightarrow> 'a decoder) \<Rightarrow> gmap \<Rightarrow> 'a \<Rightarrow> 'a \<times> bool" where
  "dec_fields sch d [] x = (x, False)"
| "dec_fields sch d ((k, v) # m) x =
     (case find_field sch k of
        None \<Rightarrow> dec_fields sch d m x
      | Some f \<Rightarrow> (case d f v x of (x', b) \<Rightarrow>
          (case dec_fields sch d m x' of (r, b') \<Rightarrow> (r, b \<or> b'))))"

text \<open>A struct: the encoder sorts the keys.\<close>

definition dec_struct :: "schema \<Rightarrow> (string \<Rightarrow> 'a decoder) \<Rightarrow> 'a decoder" where
  "dec_struct sch d v x =
     (case v of
        GMap m \<Rightarrow> dec_fields sch d (sort_key fst m) x
      | GStrMap m \<Rightarrow> dec_fields sch d (sort_key fst (map (\<lambda>(k, s). (k, GStr s)) m)) x
      | GNil \<Rightarrow> (x, False)
      | _ \<Rightarrow> (x, True))"

abbreviation into :: "'b decoder \<Rightarrow> ('a \<Rightarrow> 'b) \<Rightarrow> ('b \<Rightarrow> 'a \<Rightarrow> 'a) \<Rightarrow> 'a decoder" where
  "into d get put \<equiv> \<lambda>v x. case d v (get x) of (y, b) \<Rightarrow> (put y x, b)"

definition wifi_field :: "string \<Rightarrow> wifi decoder" where
  "wifi_field f =
     (if f = ''name'' then into dec_str wifi_Name (\<lambda>y. wifi_Name_update (\<lambda>_. y))
      else into dec_str wifi_Passphrase (\<lambda>y. wifi_Passphrase_update (\<lambda>_. y)))"

definition install_field :: "string \<Rightarrow> install decoder" where
  "install_field f =
     (if f = ''forceEfi'' then into dec_bool ForceEFI (\<lambda>y. ForceEFI_update (\<lambda>_. y))
      else if f = ''device'' then into dec_str Device (\<lambda>y. Device_update (\<lambda>_. y))
      else if f = ''configUrl'' then into dec_str ConfigURL (\<lambda>y. ConfigURL_update (\<lambda>_. y))
      else if f = ''silent'' then into dec_bool Silent (\<lambda>y. Silent_update (\<lambda>_. y))
      else if f = ''isoUrl'' then into dec_str ISOURL (\<lambda>y. ISOURL_update (\<lambda>_. y))
      else if f = ''powerOff'' then into dec_bool PowerOff (\<lambda>y. PowerOff_update (\<lambda>_. y))
      else if f = ''noFormat'' then into dec_bool NoFormat (\<lambda>y. NoFormat_update (\<lambda>_. y))
      else if f = ''debug'' then into dec_bool Debug (\<lambda>y. Debug_update (\<lambda>_. y))
      else into dec_str TTY (\<lambda>y. TTY_update (\<lambda>_. y)))"

definition file_field :: "string \<Rightarrow> cfile decoder" where
  "file_field f =
     (if f = ''encoding'' then into dec_str Encoding (\<lambda>y. Encoding_update (\<lambda>_. y))
      else if f = ''content'' then into dec_str Content (\<lambda>y. Content_update (\<lambda>_. y))
      else if f = ''owner'' then into dec_str Owner (\<lambda>y. Owner_update (\<lambda>_. y))
      else if f = ''path'' then into dec_str Path (\<lambda>y. Path_update (\<lambda>_. y))
      else into dec_str RawFilePermissions (\<lambda>y. RawFilePermissions_update (\<lambda>_. y)))"

definition dec_install :: "install option decoder" where
  "dec_install v old =
     (if v = GNil then (None, False)
      else case dec_struct install_schema install_field v (case old of None \<Rightarrow> empty_install | Some i \<Rightarrow> i) of
        (i, b) \<Rightarrow> (Some i, b))"

abbreviation dec_strs :: "string list decoder" where
  "dec_strs \<equiv> dec_list dec_str []"

definition edgi_field :: "string \<Rightarrow> edgi decoder" where
  "edgi_field f =
     (if f = ''dataSources'' then into dec_strs DataSources (\<lambda>y. DataSources_update (\<lambda>_. y))
      else if f = ''modules'' then into dec_strs Modules (\<lambda>y. Modules_update (\<lambda>_. y))
      else if f = ''sysctls'' then into dec_strmap Sysctls (\<lambda>y. Sysctls_update (\<lambda>_. y))
      else if f = ''ntpServers'' then into dec_strs NTPServers (\<lambda>y. NTPServers_update (\<lambda>_. y))
      else if f = ''dnsNameservers'' then into dec_strs DNSNameservers (\<lambda>y. DNSNameservers_update (\<lambda>_. y))
      else if f = ''wifi'' then into (dec_list (dec_struct wifi_schema wifi_field) \<lparr>wifi_Name = [], wifi_Passphrase = []\<rparr>)
                                  Wifi (\<lambda>y. Wifi_update (\<lambda>_. y))
      else if f = ''password'' then into dec_str Password (\<lambda>y. Password_update (\<lambda>_. y))
      else if f = ''serverUrl'' then into dec_str ServerURL (\<lambda>y. ServerURL_update (\<lambda>_. y))
      else if f = ''token'' then into dec_str Token (\<lambda>y. Token_update (\<lambda>_. y))
      else if f = ''labels'' then into dec_strmap Labels (\<lambda>y. Labels_update (\<lambda>_. y))
      else if f = ''k3sArgs'' then into dec_strs K3sArgs (\<lambda>y. K3sArgs_update (\<lambda>_. y))
      else if f = ''environment'' then into dec_strmap Environment (\<lambda>y. Environment_update (\<lambda>_. y))
      else if f = ''taints'' then into dec_strs Taints (\<lambda>y. Taints_update (\<lambda>_. y))
      else into dec_install Install (\<lambda>y. Install_update (\<lambda>_. y)))"

definition config_field :: "string \<Rightarrow> CloudConfig decoder" where
  "config_field f =
     (if f = ''sshAuthorizedKeys'' then into dec_strs SSHAuthorizedKeys (\<lambda>y. SSHAuthorizedKeys_update (\<lambda>_. y))
      else if f = ''writeFiles'' then into (dec_list (dec_struct file_schema file_field) empty_file)
                                        WriteFiles (\<lambda>y. WriteFiles_update (\<lambda>_. y))
      else if f = ''hostname'' then into dec_str Hostname (\<lambda>y. Hostname_update (\<lambda>_. y))
      else if f = ''edgi'' then into (dec_struct edgi_schema edgi_field) EDGI (\<lambda>y. EDGI_update (\<lambda>_. y))
      else if f = ''runCmd'' then into dec_strs Runcmd (\<lambda>y. Runcmd_update (\<lambda>_. y))
      else if f = ''bootCmd'' then into dec_strs Bootcmd (\<lambda>y. Bootcmd_update (\<lambda>_. y))
      else into dec_strs Initcmd (\<lambda>y. Initcmd_update (\<lambda>_. y)))"

definition ToObj :: "gmap \<Rightarrow> CloudConfig \<Rightarrow> CloudConfig result" where
  "ToObj data x =
     (case dec_struct cloudConfig_schema config_field (GMap data) x of (c, b) \<Rightarrow>
        if b then Inl (Msg ''json: cannot unmarshal'') else Inr c)"

subsection \<open>The merge of the sources\<close>

fun merge_readers :: "reader list \<Rightarrow> gmap \<Rightarrow> gmap result io" where
  "merge_readers [] data = ok data"
| "merge_readers (r # rs) data =
     check r (\<lambda>newData. merge_readers rs (mergeMaps (Some cloudConfig_schema) data (ToInternal newData)))"

definition readersToObject :: "reader list \<Rightarrow> CloudConfig result io" where
  "readersToObject rs =
     check (merge_readers rs []) (\<lambda>data.
       State_Monad.return
         (ToObj data (empty_config\<lparr>EDGI := empty_edgi\<lparr>Install := Some empty_install\<rparr>\<rparr>)))"

definition readers :: "(bytes \<Rightarrow> gmap result) \<Rightarrow> reader list" where
  "readers unmarshal =
     [readSystemConfig unmarshal, readCmdline, readLocalConfig unmarshal, readCloudConfig, readUserData unmarshal]"

definition ReadConfig :: "(bytes \<Rightarrow> gmap result) \<Rightarrow> CloudConfig result io" where
  "ReadConfig unmarshal = do {
     more \<leftarrow> readLocalConfigs unmarshal;
     readersToObject (readers unmarshal @ more) }"

end
