(* ===== verification/Writefile.thy ===== *)
theory Writefile
  imports ReadConfig Component
begin

text \<open>
  The appliers that write files and run programs: \<^verbatim>\<open>pkg/writefile/writefile.go\<close>,
  \<^verbatim>\<open>pkg/command/command.go\<close>, \<^verbatim>\<open>pkg/sysctl/sysctl.go\<close>, \<^verbatim>\<open>pkg/module/module.go\<close> and
  \<^verbatim>\<open>pkg/hostname/hostname.go\<close>.
\<close>

subsection \<open>\<open>write_files\<close>\<close>

definition WriteFile :: "cfile \<Rightarrow> string \<Rightarrow> string result io" where
  "WriteFile f root =
     (if Encoding f \<noteq> [] then fail (Msg (''unable to write file with encoding '' @ Encoding f))
      else let p = PathJoin [root, Path f]; d = PathDir p
      in do {
        emit (EvLog LInfo);
        check (EnsureDirectoryExists d) (\<lambda>_.
        check (State_Monad.return (Permissions f)) (\<lambda>perm.
        check (ioutil_TempFile d ''wfs-temp'') (\<lambda>(name, h).
        check (ioutil_WriteFile name (Content f) perm) (\<lambda>_.
        check (fd_Close h) (\<lambda>_.
        check (os_Chmod name perm) (\<lambda>_.
        check (if Owner f \<noteq> [] then cmd_Run (exec_Command [''chown'', Owner f, name]) else ok ()) (\<lambda>_.
        check (os_Rename name p) (\<lambda>_. ok p)))))))) })"

definition write_one :: "(bytes \<Rightarrow> bytes option) \<Rightarrow> cfile \<Rightarrow> unit io" where
  "write_one gunzip f =
     (case DecodeContent gunzip (Content f) (Encoding f) of
        Inl _ \<Rightarrow> emit (EvLog LError)
      | Inr c \<Rightarrow> do {
          r \<leftarrow> WriteFile (f\<lparr>Content := c, Encoding := []\<rparr>) ''/'';
          emit (EvLog (case r of Inl _ \<Rightarrow> LError | Inr _ \<Rightarrow> LInfo)) })"

definition WriteFiles_run :: "(bytes \<Rightarrow> bytes option) \<Rightarrow> CloudConfig \<Rightarrow> unit io" where
  "WriteFiles_run gunzip c = for_all (WriteFiles c) (write_one gunzip)"

subsection \<open>Commands\<close>

definition ExecuteCommand :: "string list \<Rightarrow> unit result io" where
  "ExecuteCommand commands = for_check commands (\<lambda>cmd. do {
     r \<leftarrow> cmd_Run (exec_Command [''sh'', ''-c'', cmd]);
     State_Monad.return (case r of Inl e \<Rightarrow> Inl (Wrapped (''failed to run '' @ cmd) e) | Inr _ \<Rightarrow> Inr ()) })"

text \<open>What the program wrote to its standard error is printed when it failed.\<close>

definition run_with_stderr :: "command \<Rightarrow> unit result io" where
  "run_with_stderr c = do {
     r \<leftarrow> cmd_CombinedOutput c;
     (case snd r of Inl _ \<Rightarrow> emit (EvOther ''stderr'' [fst r]) | Inr _ \<Rightarrow> skip);
     State_Monad.return (snd r) }"

definition chpasswd_command :: "string \<Rightarrow> command" where
  "chpasswd_command password =
     (exec_Command (if HasPrefix password ''$'' then [''chpasswd'', ''-e''] else [''chpasswd'']))
       \<lparr>c_stdin := ''edgi:'' @ password\<rparr>"

definition SetPassword :: "string \<Rightarrow> unit result io" where
  "SetPassword password =
     (if password = [] then ok () else run_with_stderr (chpasswd_command password))"

subsection \<open>Kernel parameters\<close>

definition sysctl_path :: "string \<Rightarrow> string" where
  "sysctl_path k = PathJoin ([''/proc'', ''sys''] @ Split k CHR ''.'')"

text \<open>The loop ranges over a map: the list is in the order the iteration visits it.\<close>

definition ConfigureSysctl :: "CloudConfig \<Rightarrow> unit result io" where
  "ConfigureSysctl c =
     for_check (Sysctls (EDGI c)) (\<lambda>(k, v). ioutil_WriteFile (sysctl_path k) v 0x1A4)"

subsection \<open>Modules\<close>

text \<open>Reading an open file to its end: the bytes that arrived, and the error that stopped it.\<close>

definition fd_ReadAll :: "path \<Rightarrow> (bytes \<times> unit result) io" where
  "fd_ReadAll h = State (\<lambda>w.
     (let data = (case look (files w) h of Some (Reg _ c) \<Rightarrow> c | _ \<Rightarrow> [])
      in case fault w (clock w) of
           Some (n, k) \<Rightarrow> ((take k data, Inl (Sys ''read'' (abs_string h) (EFault n))), tick w)
         | None \<Rightarrow> ((data, Inr ()), tick w)))"

text \<open>A \<^verbatim>\<open>bufio.Scanner\<close> run to its end: the lines, and what \<^verbatim>\<open>Err\<close> returns.\<close>

definition scan_file :: "path \<Rightarrow> (string list \<times> unit result) io" where
  "scan_file h = do {
     r \<leftarrow> fd_ReadAll h;
     let (ls, toolong) = scan_lines (fst r);
     State_Monad.return
       (ls, if toolong then Inl (Msg ''bufio.Scanner: token too long'') else snd r) }"

text \<open>\<^verbatim>\<open>modprobe.Load\<close>: the kernel's answer is the schedule's.\<close>

definition modprobe_Load :: "string \<Rightarrow> string \<Rightarrow> unit result io" where
  "modprobe_Load m params = sysc ''finit_module'' m (\<lambda>w.
     Inr ((), w\<lparr>trace := trace w @ [EvOther ''modprobe'' [m, params]]\<rparr>))"

definition load_module :: "string list \<Rightarrow> string \<Rightarrow> unit result io" where
  "load_module loaded m =
     (if m \<in> set loaded then ok ()
      else let params = Split m CHR '' ''
           in do {
             r \<leftarrow> modprobe_Load (hd params) (Join (tl params) '' '');
             State_Monad.return
               (case r of Inl e \<Rightarrow> Inl (Wrapped (''could not load module '' @ m) e) | Inr _ \<Rightarrow> Inr ()) })"

definition LoadModules :: "CloudConfig \<Rightarrow> unit result io" where
  "LoadModules c =
     check (os_Open ''/proc/modules'') (\<lambda>f. do {
       sc \<leftarrow> scan_file f;
       let loaded = map (\<lambda>l. hd (SplitN2 l CHR '' '')) (fst sc);
       r \<leftarrow> for_check (Modules (EDGI c)) (load_module loaded);
       _ \<leftarrow> fd_Close f;
       State_Monad.return (case r of Inl e \<Rightarrow> Inl e | Inr _ \<Rightarrow> snd sc) })"

subsection \<open>The name of the host\<close>

definition hosts_line :: "string \<Rightarrow> string \<Rightarrow> string" where
  "hosts_line h l =
     (let line = TrimSpace l
      in (case Fields line of f # _ \<Rightarrow> if f = ''127.0.1.1'' then ''127.0.1.1 '' @ h else line | [] \<Rightarrow> line)
         @ [NL])"

definition syncHostname :: "unit result io" where
  "syncHostname =
     check os_Hostname (\<lambda>h.
       if h = [] then ok ()
       else check (ioutil_WriteFile ''/etc/hostname'' (h @ [NL]) 0x1A4) (\<lambda>_.
            check (os_Open ''/etc/hosts'') (\<lambda>f. do {
              lines \<leftarrow> scan_file f;
              defer_after
                (ioutil_WriteFile ''/etc/hosts'' (concat (map (hosts_line h) (fst lines))) 0x180)
                (fd_Close f) })))"

definition SetHostname :: "CloudConfig \<Rightarrow> unit result io" where
  "SetHostname c =
     (if Hostname c = [] then ok ()
      else check (sys_Sethostname (Hostname c)) (\<lambda>_. syncHostname))"

subsection \<open>Kernel parameters stay below \<^verbatim>\<open>/proc/sys\<close>\<close>

lemma plain_concat_split:
  assumes "\<forall>e \<in> set es. CHR ''.'' \<notin> set e"
  shows "list_all plain_name (filter (\<lambda>c. c \<noteq> []) (concat (map (\<lambda>e. Split e SLASH) es)))"
  using assms Split_chars Split_slash_free by (fastforce simp: list_all_iff plain_name_def)

lemma clean_comps_skip: "clean_comps r acc cs = clean_comps r acc (filter (\<lambda>c. c \<noteq> []) cs)"
  by (induction r acc cs rule: clean_comps.induct) (auto split: list.split)

lemma Split_Join_nonempty:
  "filter (\<lambda>c. c \<noteq> []) (Split (Join es ''/'') SLASH) = filter (\<lambda>c. c \<noteq> []) (concat (map (\<lambda>e. Split e SLASH) es))"
  by (cases "es = []") (simp_all add: Split_Join_gen)

lemma concat_split_filter:
  "filter (\<lambda>c. c \<noteq> []) (concat (map (\<lambda>e. Split e SLASH) (filter (\<lambda>e. e \<noteq> []) es))) =
   filter (\<lambda>c. c \<noteq> []) (concat (map (\<lambda>e. Split e SLASH) es))"
  by (induction es) auto

definition sysctl_comps :: "string \<Rightarrow> path" where
  "sysctl_comps k = filter (\<lambda>c. c \<noteq> []) (concat (map (\<lambda>e. Split e SLASH) (Split k CHR ''.'')))"

lemma sysctl_path_below: "sysctl_path k = abs_string ([''proc'', ''sys''] @ sysctl_comps k)"
proof -
  let ?es = "''/proc'' # ''sys'' # filter (\<lambda>e. e \<noteq> []) (Split k CHR ''.'')"
  have abs: "is_abs (Join ?es ''/'')" by (cases "filter (\<lambda>e. e \<noteq> []) (Split k CHR ''.'')") (simp_all add: is_abs_def HasPrefix_def)
  have plain: "list_all plain_name ([''proc'', ''sys''] @ sysctl_comps k)"
    unfolding sysctl_comps_def using plain_concat_split [of "Split k CHR ''.''"] Split_sep_free
    by (auto simp: plain_name_def)
  have "filter (\<lambda>c. c \<noteq> []) (Split (Join ?es ''/'') SLASH) = [''proc'', ''sys''] @ sysctl_comps k"
    unfolding Split_Join_nonempty sysctl_comps_def by (simp add: concat_split_filter)
  then have "clean_comps True [] (Split (Join ?es ''/'') SLASH) = [''proc'', ''sys''] @ sysctl_comps k"
    using clean_comps_skip [of True "[]" "Split (Join ?es ''/'') SLASH"] clean_comps_plain [OF plain, of True "[]"] by simp
  then show ?thesis
    using abs by (simp add: sysctl_path_def PathJoin_def Clean_def Let_def) (simp add: abs_string_def)
qed

text \<open>C24: Whatever the key, a sysctl writes below \<^verbatim>\<open>/proc/sys\<close>: the key is split at its dots, so no component of the path can
  be \<^verbatim>\<open>..\<close>; slashes in it only make more components.\<close>

theorem sysctl_path_contained:
  "\<exists>p. sysctl_path k = abs_string ([''proc'', ''sys''] @ p) \<and> list_all plain_name p"
  using sysctl_path_below [of k] plain_concat_split [of "Split k CHR ''.''"] Split_sep_free
  unfolding sysctl_comps_def by blast

end
