(* ===== verification/Ssh.thy ===== *)
theory Ssh
  imports Writefile
begin

text \<open>
  \<^verbatim>\<open>pkg/ssh/ssh.go\<close>: the authorised keys of the user \<^verbatim>\<open>edgi\<close>. Which URLs with a good scheme
  \<^verbatim>\<open>net/url\<close> accepts is the parameter \<open>url_ok\<close>.
\<close>

definition sshDir :: string where "sshDir = ''.ssh''"
definition authorizedFile :: string where "authorizedFile = ''authorized_keys''"

subsection \<open>The user in \<open>/etc/passwd\<close>\<close>

text \<open>The named results of \<^verbatim>\<open>findUserHomeDir\<close>: user, group, home directory and error.\<close>

record home =
  home_uid :: int
  home_gid :: int
  home_dir :: string

fun find_home :: "string \<Rightarrow> string list \<Rightarrow> home \<Rightarrow> home result" where
  "find_home username [] h = Inr h"
| "find_home username (line # lines) h =
     (if HasPrefix line username then
        (let split = Split line CHR '':''
         in if length split < 6 then Inr h
            else case Atoi (split ! 2) of
              None \<Rightarrow> Inl (Msg (''strconv.Atoi: parsing '' @ split ! 2))
            | Some uid \<Rightarrow> (case Atoi (split ! 3) of
                None \<Rightarrow> Inl (Msg (''strconv.Atoi: parsing '' @ split ! 3))
              | Some gid \<Rightarrow>
                  find_home username lines \<lparr>home_uid = uid, home_gid = gid, home_dir = split ! 5\<rparr>))
      else find_home username lines h)"

definition findUserHomeDir :: "bytes \<Rightarrow> string \<Rightarrow> home result" where
  "findUserHomeDir b username =
     find_home username (Split b NL) \<lparr>home_uid = 0, home_gid = 0, home_dir = []\<rparr>"

subsection \<open>Fetching a key\<close>

text \<open>\<^verbatim>\<open>getscheme\<close> of \<^verbatim>\<open>net/url\<close>: \<open>None\<close> an error, otherwise the scheme (empty if there is none) and the rest.\<close>

definition is_letter :: "char \<Rightarrow> bool" where
  "is_letter c \<longleftrightarrow> is_upper c \<or> is_lower c"

fun getscheme :: "string \<Rightarrow> string \<Rightarrow> string \<Rightarrow> (string \<times> string) option" where
  "getscheme whole acc [] = Some ([], whole)"
| "getscheme whole acc (c # s) =
     (if is_letter c then getscheme whole (acc @ [c]) s
      else if (digit_val c \<noteq> None) \<or> c \<in> {CHR ''+'', CHR ''-'', CHR ''.''}
      then (if acc = [] then Some ([], whole) else getscheme whole (acc @ [c]) s)
      else if c = CHR '':'' then (if acc = [] then None else Some (acc, s))
      else Some ([], whole))"

definition has_ctl :: "string \<Rightarrow> bool" where
  "has_ctl s \<longleftrightarrow> (\<exists>c \<in> set s. c < CHR '' '' \<or> c = CHR 0x7F)"

text \<open>\<^verbatim>\<open>url.Parse\<close> as far as it is used: the scheme in lower case and, for an opaque URL, what follows it
  up to a query or a fragment.\<close>

definition url_Parse :: "(string \<Rightarrow> bool) \<Rightarrow> string \<Rightarrow> (string \<times> string) option" where
  "url_Parse url_ok key =
     (let u = takeWhile (\<lambda>c. c \<noteq> CHR ''#'') key
      in if has_ctl u then None
         else case getscheme u [] u of
           None \<Rightarrow> None
         | Some (scheme, rest) \<Rightarrow>
             if \<not> url_ok key then None
             else Some (ToLower scheme,
                        if HasPrefix rest ''/'' then [] else takeWhile (\<lambda>c. c \<noteq> CHR ''?'') rest))"

definition provider_url :: "string \<Rightarrow> string \<Rightarrow> string option" where
  "provider_url scheme user =
     (if scheme = ''github'' then Some (''https://github.com/'' @ user @ ''.keys'')
      else if scheme = ''gitlab'' then Some (''https://gitlab.com/'' @ user @ ''.keys'')
      else None)"

fun err_text :: "goerr \<Rightarrow> string" where
  "err_text (Msg s) = s"
| "err_text (Wrapped s e) = s @ '': '' @ err_text e"
| "err_text _ = []"

text \<open>Ten attempts, one second apart.\<close>

fun http_get_retry :: "nat \<Rightarrow> string \<Rightarrow> (nat \<times> bytes result) result io" where
  "http_get_retry 0 url = fail (Msg ''unreachable'')"
| "http_get_retry (Suc n) url = do {
     r \<leftarrow> http_Get url;
     case r of
       Inr a \<Rightarrow> ok a
     | Inl e \<Rightarrow>
         if Contains (err_text e) ''unsupported protocol scheme'' \<or> n = 0 then fail e
         else http_get_retry n url }"

definition getKey :: "(string \<Rightarrow> bool) \<Rightarrow> string \<Rightarrow> bool \<Rightarrow> string result io" where
  "getKey url_ok key withNet =
     (case url_Parse url_ok key of
        None \<Rightarrow> ok key
      | Some (scheme, opaque) \<Rightarrow>
          if scheme = [] then ok key
          else if \<not> withNet then ok []
          else check (http_get_retry 10 (case provider_url scheme opaque of None \<Rightarrow> key | Some u \<Rightarrow> u))
                 (\<lambda>(status, body).
                   if status div 100 > 2 then fail (Msg (''HTTP '' @ Itoa (int status)))
                   else case body of Inl e \<Rightarrow> fail e | Inr b \<Rightarrow> ok b))"

subsection \<open>The file of keys\<close>

definition fd_Chmod :: "path \<Rightarrow> mode \<Rightarrow> unit result io" where
  "fd_Chmod h m = sysc ''chmod'' (abs_string h) (\<lambda>w.
     case look (files w) h of
       None \<Rightarrow> Inl EBADF
     | Some n \<Rightarrow> Inr ((), w\<lparr>files := fs_set h (map_meta (chmod_meta (syscallMode m)) n) (files w)\<rparr>))"

text \<open>\<^verbatim>\<open>os.Stat\<close>, creating the file when it does not exist.\<close>

definition stat_or_create :: "string \<Rightarrow> finfo result io" where
  "stat_or_create file = do {
     s \<leftarrow> os_Stat file;
     case s of
       Inr i \<Rightarrow> ok i
     | Inl e \<Rightarrow>
         if IsNotExist e then
           check (os_OpenFile file O_create 0x1B6) (\<lambda>f.
           check (fd_Chmod f 0x180) (\<lambda>_.
           check (fd_Close f) (\<lambda>_. os_Stat file)))
         else fail e }"

definition with_key :: "bytes \<Rightarrow> string \<Rightarrow> bytes" where
  "with_key b key = (if Contains b key then b else b @ key @ [NL])"

definition authorizeSSHKey ::
  "(string \<Rightarrow> bool) \<Rightarrow> string \<Rightarrow> string \<Rightarrow> int \<Rightarrow> int \<Rightarrow> bool \<Rightarrow> unit result io" where
  "authorizeSSHKey url_ok key0 file uid gid withNet =
     check (getKey url_ok key0 withNet) (\<lambda>key.
       if key = [] then ok ()
       else check (stat_or_create file) (\<lambda>info.
            check (ioutil_ReadFile file) (\<lambda>b.
            check (WriteFileAtomic file (with_key b key) (fi_Mode info AND ModePerm)) (\<lambda>_.
              os_Chown file uid gid))))"

definition SetAuthorizedKeys :: "(string \<Rightarrow> bool) \<Rightarrow> CloudConfig \<Rightarrow> bool \<Rightarrow> unit result io" where
  "SetAuthorizedKeys url_ok c withNet =
     check (ioutil_ReadFile ''/etc/passwd'') (\<lambda>b.
     check (State_Monad.return (findUserHomeDir b ''edgi'')) (\<lambda>h.
       let userSSHDir = PathJoin [home_dir h, sshDir];
           userAuthorizedFile = PathJoin [userSSHDir, authorizedFile]
       in check (do {
            s \<leftarrow> os_Stat userSSHDir;
            case s of
              Inr _ \<Rightarrow> ok ()
            | Inl e \<Rightarrow> if IsNotExist e then os_Mkdir userSSHDir 0x1C0 else fail e }) (\<lambda>_.
          check (os_Chown userSSHDir (home_uid h) (home_gid h)) (\<lambda>_. do {
            for_all (SSHAuthorizedKeys c) (\<lambda>key.
              log_error LError (authorizeSSHKey url_ok key userAuthorizedFile (home_uid h) (home_gid h) withNet));
            ok () }))))"

subsection \<open>Keys are added, never lost\<close>

lemma with_key_props:
  "prefix b (with_key b key)" "Contains (with_key b key) key" "with_key (with_key b key) key = with_key b key"
proof -
  have c: "Contains (b @ key @ [NL]) key" unfolding Contains_iff by blast
  then show "prefix b (with_key b key)" "Contains (with_key b key) key" by (simp_all add: with_key_def)
  show "with_key (with_key b key) key = with_key b key" using c by (simp add: with_key_def)
qed

lemma reads_only_http: "reads_only (http_Get url)"
  by (simp add: reads_only_def within_def http_Get_def same_env_def)

lemma reads_only_retry: "reads_only (http_get_retry n url)"
  by (induction n) (auto intro!: reads_only_intros reads_only_http)

lemma reads_only_getKey: "reads_only (getKey u key wn)"
  unfolding getKey_def
  by (auto intro!: reads_only_intros reads_only_retry)

definition kept_keys :: "path \<Rightarrow> bytes \<Rightarrow> world \<Rightarrow> bool" where
  "kept_keys p b u \<longleftrightarrow> (\<exists>m c. look (files u) p = Some (Reg m c) \<and> (c = b \<or> (\<exists>key. c = with_key b key)))"

lemma kept_keys_files: "files u = files w \<Longrightarrow> kept_keys p b u = kept_keys p b w"
  by (simp add: kept_keys_def)

lemma wp_Chown_kept:
  assumes "kept_keys p b w" "resolve True w s = Inr p"
  shows "wp (os_Chown s uid gid) (\<lambda>_. kept_keys p b) w"
  unfolding os_Chown_def chown_gen_def
  by (rule wp_at_path_res [OF assms(2)]) (use assms(1) in \<open>auto simp: kept_keys_def\<close>)

lemma resolve_key_file:
  "real_dirs (files u) d \<Longrightarrow> list_all plain_name (d @ [c]) \<Longrightarrow> look (files u) (d @ [c]) = Some (Reg m x) \<Longrightarrow>
     resolve True u (abs_string (d @ [c])) = Inr (d @ [c])"
  by (intro resolve_notlink) auto

text \<open>The new text replaces the file or leaves it, and the owner changes no key.\<close>

lemma authorize_write:
  assumes d: "real_dirs (files w) d" "list_all plain_name (d @ [c])"
    and f: "look (files w) (d @ [c]) = Some (Reg m b)" and u: "files u = files w"
  shows "wp (check (WriteFileAtomic (abs_string (d @ [c])) (with_key b k) mo) (\<lambda>_. os_Chown (abs_string (d @ [c])) uid gid))
    (\<lambda>_. kept_keys (d @ [c]) b) u"
proof (rule wp_checkI [OF wfa.replace_all_or_nothing])
  show "real_dirs (files u) d" "list_all plain_name (d @ [c])" using u d by simp_all
  show "kept_keys (d @ [c]) b v" if "replaced d c (with_key b k) mo u (Inl e) v" for e v
    using that f u by (simp add: replaced_def kept_keys_def)
  show "wp (os_Chown (abs_string (d @ [c])) uid gid) (\<lambda>_. kept_keys (d @ [c]) b) v"
    if r: "replaced d c (with_key b k) mo u (Inr x) v" for x v
  proof -
    obtain m' where m': "look (files v) (d @ [c]) = Some (Reg m' (with_key b k))"
      using r by (auto simp: replaced_def)
    have "real_dirs (files v) d" by (rule wfa.replace_keeps_dirs [OF r]) (use u d in simp)
    then show ?thesis
      using m' resolve_key_file [OF _ d(2) m'] by (auto intro!: wp_Chown_kept simp: kept_keys_def)
  qed
qed

lemma authorize_read:
  assumes d: "real_dirs (files w) d" "list_all plain_name (d @ [c])"
    and f: "look (files w) (d @ [c]) = Some (Reg m b)" and u: "files u = files w"
  shows "wp (check (ioutil_ReadFile (abs_string (d @ [c]))) (\<lambda>x.
      check (WriteFileAtomic (abs_string (d @ [c])) (with_key x k) mo) (\<lambda>_. os_Chown (abs_string (d @ [c])) uid gid)))
    (\<lambda>_. kept_keys (d @ [c]) b) u"
  unfolding wp_check [of "ioutil_ReadFile _"] unfolding ioutil_ReadFile_def
  by (rule wp_at_path_res [OF resolve_key_file])
    (use u d f authorize_write [OF d f] in \<open>auto simp: kept_keys_def simp del: wp_check\<close>)

lemma authorize_keeps:
  assumes d: "real_dirs (files w) d" "list_all plain_name (d @ [c])"
    and f: "look (files w) (d @ [c]) = Some (Reg m b)"
  shows "wp (authorizeSSHKey url_ok key (abs_string (d @ [c])) uid gid wn) (\<lambda>_. kept_keys (d @ [c]) b) w"
proof -
  let ?s = "abs_string (d @ [c])"
  have k0: "kept_keys (d @ [c]) b u" if "files u = files w" for u
    using that f by (simp add: kept_keys_def)
  have stat: "wp (check (stat_or_create ?s) (\<lambda>i. check (ioutil_ReadFile ?s) (\<lambda>x.
      check (WriteFileAtomic ?s (with_key x k) (mo i)) (\<lambda>_. os_Chown ?s uid gid)))) (\<lambda>_. kept_keys (d @ [c]) b) u"
    if "files u = files w" for k mo u
    unfolding wp_check [of "stat_or_create _"] unfolding stat_or_create_def wp_bind os_Stat_def
    by (rule wp_at_path_res [OF resolve_key_file])
      (use that d f in \<open>auto intro!: k0 authorize_read [OF d f] simp: IsNotExist_def simp del: wp_check\<close>)
  show ?thesis
    unfolding authorizeSSHKey_def wp_check [of "getKey _ _ _"]
  proof (rule wp_mono [OF reads_only_wp [OF reads_only_getKey]], elim conjE)
    fix r :: "string result" and u :: world assume u: "files u = files w"
    show "case r of Inl e \<Rightarrow> kept_keys (d @ [c]) b u
      | Inr key \<Rightarrow> wp (if key = [] then ok () else check (stat_or_create ?s) (\<lambda>info. check (ioutil_ReadFile ?s)
          (\<lambda>b. check (WriteFileAtomic ?s (with_key b key) (fi_Mode info AND ModePerm)) (\<lambda>_. os_Chown ?s uid gid))))
          (\<lambda>_. kept_keys (d @ [c]) b) u"
      using k0 [OF u] stat [OF u] by (cases r) (simp_all del: wp_check)
  qed
qed

subsection \<open>The home directory\<close>

lemma find_home_none:
  "\<forall>l \<in> set ls. \<not> HasPrefix l u \<Longrightarrow> find_home u ls h = Inr h"
  by (induction ls) auto

lemma find_home_one:
  assumes "\<forall>l \<in> set (as @ bs). \<not> HasPrefix l u" "HasPrefix l u"
    and "Split l CHR '':'' = [n, x, digits_base 10 i, digits_base 10 j, g, d] @ s" "i < 2 ^ 63" "j < 2 ^ 63"
  shows "find_home u (as @ l # bs) h = Inr \<lparr>home_uid = int i, home_gid = int j, home_dir = d\<rparr>"
  using assms(1)
proof (induction as)
  case Nil
  have "Atoi (digits_base 10 i) = Some (int i)" "Atoi (digits_base 10 j) = Some (int j)"
    using assms(4,5) by (simp_all add: Atoi_def ParseInt_digits)
  then show ?case using assms(2,3) Nil by (simp add: find_home_none)
qed simp


text \<open>C40: \<^verbatim>\<open>findUserHomeDir\<close> on a file with one line that starts with the name: the line's user, group and directory are the answer, although
  the line may be another user's whose name is longer (\<^verbatim>\<open>edgi2\<close>); on a file without one the answer is user 0, group 0 and no directory,
  and no error.\<close>

theorem findUserHomeDir_by_prefix:
  assumes "Split b NL = pre @ (user @ rest) # post" "\<forall>l \<in> set (pre @ post). \<not> HasPrefix l user"
    and "Split (user @ rest) CHR '':'' = [n, x, digits_base 10 i, digits_base 10 j, g, d] @ s" "i < 2 ^ 63" "j < 2 ^ 63"
    and "\<forall>l \<in> set (Split b' NL). \<not> HasPrefix l user"
  shows "findUserHomeDir b user = Inr \<lparr>home_uid = int i, home_gid = int j, home_dir = d\<rparr> \<and>
    findUserHomeDir b' user = Inr \<lparr>home_uid = 0, home_gid = 0, home_dir = []\<rparr>"
  using find_home_one [OF assms(2) HasPrefix_append assms(3-5)] find_home_none [OF assms(6)]
  by (simp add: findUserHomeDir_def assms(1))

theorem findUserHomeDir_by_prefix_witness:
  "findUserHomeDir ''edgi2:x:7:8::/srv:/bin/sh'' ''edgi'' = Inr \<lparr>home_uid = 7, home_gid = 8, home_dir = ''/srv''\<rparr>"
proof -
  have d: "digits_base 10 7 = ''7''" "digits_base 10 8 = ''8''" by (simp_all add: digits_base.simps digit_char_def)
  have "findUserHomeDir ''edgi2:x:7:8::/srv:/bin/sh'' ''edgi'' = Inr \<lparr>home_uid = int 7, home_gid = int 8, home_dir = ''/srv''\<rparr> \<and>
    findUserHomeDir [] ''edgi'' = Inr \<lparr>home_uid = 0, home_gid = 0, home_dir = []\<rparr>"
    by (rule findUserHomeDir_by_prefix [where pre = "[]" and post = "[]" and rest = "''2:x:7:8::/srv:/bin/sh''" and s = "[''/bin/sh'']"])
      (simp_all add: d HasPrefix_def)
  then show ?thesis by simp
qed

end
