(* ===== verification/Wellformed.thy ===== *)
theory Wellformed
  imports UpgradeSafe Ssh
begin

text \<open>
  The invariant of theory \<open>Invariants\<close> for the functions that write files: whatever fails, they leave a file
  system in which everything that exists has a plain name and lies in a directory.
\<close>

lemmas keeps_reading = keeps_reads_only [OF reads_only_http] keeps_reads_only [OF reads_only_getKey]

lemma keeps_WriteFile [simp]: "keeps fs_ok (ioutil_WriteFile p d m)"
  unfolding ioutil_WriteFile_def by (intro keeps_intros keeps_changes keeps_Write keeps_calls keeps_return)

lemma keeps_WriteFileAtomic [simp]: "keeps fs_ok (WriteFileAtomic p d m)"
  unfolding WriteFileAtomic_def
  by (intro keeps_intros keeps_Temp keeps_Write keeps_calls keeps_changes keeps_Rename keeps_Remove)

lemma keeps_Download [simp]: "keeps fs_ok (HTTPDownloadToFile url dest)"
  unfolding HTTPDownloadToFile_def by (intro keeps_intros keeps_reading keeps_WriteFileAtomic keeps_return)

lemma keeps_Sysctl [simp]: "keeps fs_ok (ConfigureSysctl c)"
  unfolding ConfigureSysctl_def by (intro keeps_intros keeps_WriteFile)

lemma keeps_fd_Chmod [simp]: "keeps fs_ok (fd_Chmod h m)"
  unfolding fd_Chmod_def by (rule keeps_sysc) (auto split: option.splits intro: fs_ok_set_same)

lemma keeps_authorize [simp]: "keeps fs_ok (authorizeSSHKey u key p uid gid n)"
  unfolding authorizeSSHKey_def stat_or_create_def os_Open_def
  by (intro keeps_intros keeps_reading keeps_calls keeps_changes keeps_WriteFileAtomic keeps_return keeps_fd_Chmod)

lemma keeps_SetAuthorizedKeys [simp]: "keeps fs_ok (SetAuthorizedKeys u c n)"
  unfolding SetAuthorizedKeys_def Let_def
  by (intro keeps_intros keeps_calls keeps_changes keeps_return keeps_log_error keeps_authorize)

lemma keeps_scan_file: "keeps fs_ok (scan_file h)"
proof -
  have "keeps fs_ok (fd_ReadAll h)"
    by (rule keepsI) (auto simp: fd_ReadAll_def Let_def split: option.splits)
  then show ?thesis unfolding scan_file_def Let_def by (intro keeps_intros) auto
qed

lemma keeps_SetHostname [simp]: "keeps fs_ok (SetHostname c)"
proof -
  have "keeps fs_ok os_Hostname" "keeps fs_ok (sys_Sethostname h)" for h
    unfolding os_Hostname_def sys_Sethostname_def by (rule keeps_sysc; auto simp: fs_ok_def split: if_splits)+
  then show ?thesis
    unfolding SetHostname_def syncHostname_def os_Open_def
    by (intro keeps_intros keeps_scan_file keeps_calls keeps_changes keeps_WriteFile keeps_return)
qed


end
