(* ===== verification/Traces.thy ===== *)
theory Traces
  imports Upgrade
begin

text \<open>
  What a function lets the outside see: \<open>emits P m\<close> says that every run of \<open>m\<close> appends to the trace
  only events that satisfy \<open>P\<close>. The calculus is compositional, like \<open>keeps\<close>.
\<close>

abbreviation adds :: "(event \<Rightarrow> bool) \<Rightarrow> world \<Rightarrow> world \<Rightarrow> bool" where
  "adds P w w' \<equiv> \<exists>evs. trace w' = trace w @ evs \<and> list_all P evs"

definition emits :: "(event \<Rightarrow> bool) \<Rightarrow> 'a io \<Rightarrow> bool" where
  "emits P = within (adds P)"

interpretation emit: step_order "adds P" for P
  by unfold_locales auto

lemmas emitsI = withinI [where R = "adds P" for P, folded emits_def]
  and emitsD = withinD [where R = "adds P" for P, folded emits_def]

lemma emits_wp: "emits P m \<Longrightarrow> wp m (\<lambda>_ u. \<exists>evs. trace u = trace w @ evs \<and> list_all P evs) w"
  by (simp add: emits_def within_wp)

lemma emits_mono: "emits P m \<Longrightarrow> (\<And>e. P e \<Longrightarrow> Q e) \<Longrightarrow> emits Q m"
  unfolding emits_def by (erule within_mono) (auto simp: list_all_iff)

lemma emits_emit: "P ev \<Longrightarrow> emits P (emit ev)"
  by (rule emitsI) (auto simp: emit_def)

lemmas emits_return [simp] = emit.within_return [folded emits_def]
  and emits_intros = emit.within_intros [folded emits_def] emit.within_finally [folded emits_def]

lemma emits_sysc: "(\<And>w a w'. f w = Inr (a, w') \<Longrightarrow> trace w' = trace w) \<Longrightarrow> emits P (sysc op s f)"
  by (rule emitsI) (auto simp: sysc_def split: option.splits sum.splits)

lemma emits_at_path: "(\<And>p n w a w'. f p n w = Inr (a, w') \<Longrightarrow> trace w' = trace w) \<Longrightarrow> emits P (at_path op s fl f)"
  unfolding at_path_def by (rule emits_sysc) (auto split: sum.splits)

subsection \<open>The silent calls\<close>

lemma emits_calls [simp]:
  "emits P (os_Stat p)" "emits P (os_Lstat p)" "emits P (os_Readlink p)" "emits P (ioutil_ReadFile p)"
  "emits P (ioutil_ReadDir p)" "emits P (os_Symlink t p)" "emits P (os_Chmod p mo)" "emits P (os_Mkdir p mo)"
  "emits P (sys_unlink p)" "emits P (sys_rmdir p)" "emits P (os_OpenFile p fl mo)" "emits P (os_Chdir p)"
  unfolding os_Stat_def os_Lstat_def os_Readlink_def ioutil_ReadFile_def ioutil_ReadDir_def os_Symlink_def os_Chmod_def
    os_Mkdir_def sys_unlink_def sys_rmdir_def os_OpenFile_def os_Chdir_def
  by (rule emits_at_path; auto split: option.splits if_splits node.splits)+

lemma emits_syscs [simp]:
  "emits P (fd_Close h)" "emits P (sys_rename a b)" "emits P (sys_unlinkat q)" "emits P (exec_LookPath s)"
  "emits P (mount_Mounted s)"
  unfolding fd_Close_def sys_rename_def sys_unlinkat_def exec_LookPath_def mount_Mounted_def
  by (rule emits_sysc; auto split: sum.splits option.splits if_splits)+

lemma emits_Write [simp]: "emits P (fd_Write h d)"
  by (rule emitsI) (auto simp: fd_Write_def split: option.splits)

lemma emits_Remove [simp]: "emits P (os_Remove p)"
  unfolding os_Remove_def by (intro emits_intros emits_calls)

lemma emits_remove_each [simp]: "emits P (remove_each ps acc)"
  by (induction ps acc rule: remove_each.induct) (auto intro!: emits_intros)

lemma emits_RemoveAll [simp]: "emits P (os_RemoveAll p)"
  unfolding os_RemoveAll_def by (intro emits_intros emits_remove_each)

lemma emits_Rename [simp]: "emits P (os_Rename a b)"
  unfolding os_Rename_def by (intro emits_intros emits_calls emits_syscs)

lemma emits_MkdirAll [simp]: "emits P (os_MkdirAll p mo)"
proof (induction p mo rule: os_MkdirAll.induct)
  case (1 p mo)
  show ?case
    by (subst os_MkdirAll.simps) (auto intro!: emits_intros 1)
qed

lemma emits_temp [simp]:
  "emits P (temp_file_try k pre suf)" "emits P (temp_dir_try k dir pre suf)"
  by (induction k) (auto intro!: emits_intros simp: Let_def)

lemma emits_Temp [simp]: "emits P (ioutil_TempFile dir pat)" "emits P (ioutil_TempDir dir pat)"
  by (auto simp: ioutil_TempFile_def ioutil_TempDir_def Let_def intro!: emits_intros)

lemma emits_io_Copy [simp]: "emits P (io_Copy f s)"
  unfolding io_Copy_def by (auto intro!: emits_intros split: node.split option.split)

lemma emits_copy_switchboard [simp]: "emits P (copy_switchboard n src dest info)"
  by (induction n src dest info rule: copy_switchboard.induct)
    (auto simp: lcopy_def fcopy_def os_Open_def intro!: emits_intros)

lemma emits_Copy [simp]: "emits P (copy_Copy a b)"
  unfolding copy_Copy_def by (intro emits_intros emits_copy_switchboard emits_calls)

subsection \<open>The copy of a component\<close>

fun quiet :: "event \<Rightarrow> bool" where
  "quiet (EvLog _) = True"
| "quiet (EvMount _ _ _ _ _) = True"
| "quiet _ = False"

lemma emits_Mount: "emits quiet (mount_Mount a b c d)"
proof -
  have m: "emits quiet (unix_Mount a b c d e)" for a b c d e
  proof (rule emitsI)
    fix w r w' assume "run_state (unix_Mount a b c d e) w = (r, w')"
    then show "\<exists>evs. trace w' = trace w @ evs \<and> list_all quiet evs"
      by (auto simp: unix_Mount_def at_path_def sysc_def Let_def split: option.splits sum.splits if_splits)
  qed
  show ?thesis
    unfolding mount_Mount_def mount_ForceMount_def by (intro emits_intros m emits_syscs)
qed

lemma emits_log_error: "emits quiet m \<Longrightarrow> emits quiet (log_error l m)"
  unfolding log_error_def by (intro emits_intros emits_emit) simp_all

lemma emits_CopyComponent: "emits quiet (CopyComponent src dst remount key)"
proof -
  have st: "emits quiet (StatComponentVersion r k c)" for r k c
    unfolding StatComponentVersion_def Let_def by (intro emits_intros emits_calls)
  have s: "emits quiet (switch_version a mo b c d)" for a mo b c d
    unfolding switch_version_def by (intro emits_intros emits_log_error) simp_all
  have i: "emits quiet (install_version t a mo b c d)" for t a mo b c d
    unfolding install_version_def Let_def by (intro emits_intros s) simp_all
  have "emits quiet (stage_version x a mo b c d)" for x a mo b c d
    unfolding stage_version_def by (intro emits_intros i) simp_all
  then show ?thesis
    unfolding CopyComponent_def Let_def by (intro emits_intros st emits_Mount emits_emit) simp_all
qed

lemma emits_upgrade_copies: "emits quiet (upgrade_copies f)"
  unfolding upgrade_copies_def upgrade_component_def
  by (intro emits_intros emits_CopyComponent emits_emit) simp_all

end
