(* ===== verification/Demo.thy ===== *)
theory Demo
  imports Component
begin

text \<open>
  A concrete world, with which the properties are applied to inputs: a system in \<^verbatim>\<open>/edgi/system\<close>
  with version \<^verbatim>\<open>v1\<close> of two components, and the medium \<^verbatim>\<open>/new\<close> with version \<^verbatim>\<open>v2\<close>. Programs do
  nothing, the network does not answer.
\<close>

definition demo_meta :: meta where
  "demo_meta = \<lparr>m_perm = 0x1ED, m_uid = 0, m_gid = 0, m_times = (0, 0)\<rparr>"

definition demo_component :: "path \<Rightarrow> string \<Rightarrow> fsys" where
  "demo_component d v =
     [(d, Dir demo_meta), (d @ [v], Dir demo_meta), (d @ [v, ''bin''], Reg demo_meta v),
      (d @ [''current''], Lnk demo_meta v)]"

definition demo_files :: fsys where
  "demo_files =
     [([], Dir demo_meta), ([''new''], Dir demo_meta), ([''edgi''], Dir demo_meta),
      ([''edgi'', ''system''], Dir demo_meta), ([''etc''], Dir demo_meta),
      ([''etc'', ''motd''], Reg demo_meta ''hello'')]
     @ demo_component [''new'', ''edgi''] ''v2'' @ demo_component [''edgi'', ''system'', ''edgi''] ''v1''
     @ demo_component [''new'', ''k3s''] ''v2'' @ demo_component [''edgi'', ''system'', ''k3s''] ''v1''"

definition demo_world :: "fsys \<Rightarrow> (nat \<Rightarrow> (nat \<times> nat) option) \<Rightarrow> world" where
  "demo_world fs flt =
     \<lparr>files = fs, cwd = [], umask = 0x12, environ = [(''PATH'', ''/bin'')], nodename = ''node'',
      stdin = [], trace = [], clock = 0, fault = flt, progs = (\<lambda>_ _ fs. (None, [], fs)),
      net = (\<lambda>_ _. Inl (Msg ''no network'')), rnd = (\<lambda>_. 7), proc_uid = 0, proc_pid = 100,
      proc_args = [''edgi''], stdin_tty = False, stdout_tty = False, mounts = [],
      mount_view = (\<lambda>_ _ fs. fs)\<rparr>"

definition demo :: world where "demo = demo_world demo_files (\<lambda>_. None)"

text \<open>The same world in which every call from the \<open>n\<close>-th on fails: a crash.\<close>

definition crash_demo :: "nat \<Rightarrow> world" where
  "crash_demo n = demo_world demo_files (\<lambda>k. if n \<le> k then Some (5, 0) else None)"

text \<open>What an interrupted copy may leave behind.\<close>

definition wedged_demo :: world where
  "wedged_demo = demo_world
     (([''edgi'', ''system'', ''k3s'', ''current.tmp''], Lnk demo_meta ''v2'') # demo_files) (\<lambda>_. None)"

lemmas demo_defs = demo_def crash_demo_def wedged_demo_def demo_world_def demo_files_def demo_component_def

lemma demo_has_version [simp]:
  "has_version (files demo) [''new'', ''k3s''] ''v2''" "has_version (files demo) [''new'', ''edgi''] ''v2''"
  "has_version (files demo) [''edgi'', ''system'', ''k3s''] ''v1''"
  "has_version (files wedged_demo) [''new'', ''k3s''] ''v2''"
  by (simp_all add: demo_defs has_version_def real_dirs_def dir_at_def plain_name_def)

lemma demo_has_version_edgi [simp]: "has_version (files demo) [''edgi'', ''system'', ''edgi''] ''v1''"
  by (simp add: demo_defs has_version_def real_dirs_def dir_at_def plain_name_def)

lemma demo_files_crash [simp]: "files (crash_demo n) = files demo"
  by (simp add: demo_defs)

lemma demo_real_dirs [simp]:
  "real_dirs (files demo) [''edgi'', ''system'', ''k3s'']" "real_dirs (files demo) [''edgi'', ''system'', ''edgi'']"
  "real_dirs (files demo) [''etc'']" "real_dirs (files wedged_demo) [''edgi'', ''system'', ''k3s'']"
  by (simp_all add: demo_defs real_dirs_def dir_at_iff)

lemma demo_calm [simp]: "calm demo" "calm wedged_demo"
  by (simp_all add: demo_defs calm_def)

end
