(* ===== verification/Protocol.thy ===== *)
theory Protocol
  imports Traces Demo
begin

text \<open>
  The order of what a run of \<^verbatim>\<open>upgrade\<close> lets the outside see, and what follows for several runs on one
  machine: the lock keeps them apart.
\<close>

subsection \<open>The order of events\<close>

text \<open>What a run shows the outside: without the lock nothing but messages; with it, first the copies,
  then \<^verbatim>\<open>sync\<close>, then the reboot, both only after a copy and only if asked for, then the release.\<close>

abbreviation reboot_event :: "event \<Rightarrow> bool" where
  "reboot_event e \<equiv> quiet e \<or> e = EvExec reboot_command \<or> (\<exists>p. e = EvChroot p)"

definition locked_events :: "upgrade_flags \<Rightarrow> event list \<Rightarrow> bool" where
  "locked_events f evs \<longleftrightarrow>
     (\<exists>copied copies reboot.
        evs = copies @ (if copied \<and> doSync f then [EvSync] else []) @ reboot \<and>
        list_all quiet copies \<and> list_all reboot_event reboot \<and>
        (reboot \<noteq> [] \<longrightarrow> copied \<and> doReboot f))"

fun message :: "event \<Rightarrow> bool" where
  "message (EvLog _) = True"
| "message _ = False"

definition upgrade_protocol :: "upgrade_flags \<Rightarrow> event list \<Rightarrow> bool" where
  "upgrade_protocol f evs \<longleftrightarrow>
     list_all message evs \<or>
     (\<exists>l acts release. evs = EvLock l # acts @ release \<and> locked_events f acts \<and> release \<in> {[], [EvUnlock l]})"

lemma emits_fatal_check: "emits P m \<Longrightarrow> P (EvLog LFatal) \<Longrightarrow> (\<And>a. emits P (f a)) \<Longrightarrow> emits P (fatal_check m f)"
  unfolding fatal_check_def by (intro emits_intros emits_emit)

lemma emits_upgrade_reboot: "emits reboot_event (upgrade_reboot f)"
proof -
  have c: "emits reboot_event (unix_Chroot p)" for p
  proof (rule emitsI)
    fix w r w' assume "run_state (unix_Chroot p) w = (r, w')"
    then show "\<exists>evs. trace w' = trace w @ evs \<and> list_all reboot_event evs"
      by (auto simp: unix_Chroot_def at_path_def sysc_def split: option.splits sum.splits node.splits)
  qed
  have r: "emits reboot_event (cmd_Run reboot_command)"
    by (rule emitsI) (auto simp: cmd_Run_def cmd_CombinedOutput_def split: prod.splits)
  show ?thesis
    unfolding upgrade_reboot_def Let_def
    by (intro emits_intros emits_fatal_check c r emits_emit emits_syscs emits_calls) simp_all
qed

lemma wp_silent: "(\<And>P. emits P m) \<Longrightarrow> (\<And>r u. trace u = trace w \<Longrightarrow> Q r u) \<Longrightarrow> wp m Q w"
  by (rule wp_mono [OF emits_wp [of "\<lambda>_. False"]]) (auto simp: list_all_iff)

lemma wp_silent_fatal:
  assumes "\<And>P. emits P m" "trace w = evs"
    and "\<And>u. trace u = evs \<Longrightarrow> Q (Inl 1) (u\<lparr>trace := evs @ [EvLog LFatal]\<rparr>)"
    and "\<And>a u. trace u = evs \<Longrightarrow> wp (f a) Q u"
  shows "wp (fatal_check m f) Q w"
  unfolding wp_fatal_check
  by (rule wp_silent [OF assms(1)]) (use assms(2-) in \<open>auto split: sum.split\<close>)

lemma emits_Stat_root [simp]: "emits P (validateSystemRoot r)"
  unfolding validateSystemRoot_def by (intro emits_intros emits_calls)

lemma wp_sync_if:
  "(b \<Longrightarrow> Q () (w\<lparr>trace := trace w @ [EvSync]\<rparr>)) \<Longrightarrow> (\<not> b \<Longrightarrow> Q () w) \<Longrightarrow> wp (if b then unix_Sync else skip) Q w"
  by (simp add: unix_Sync_def)

lemma locked_protocol:
  "wp (upgrade_locked f) (\<lambda>_ u. \<exists>evs. trace u = trace w @ evs \<and> locked_events f evs) w"
proof -
  have last: "wp (if c \<and> doReboot f then upgrade_reboot f else ok ())
      (\<lambda>_ x. \<exists>evs. trace x = trace w @ evs \<and> locked_events f evs) v"
    if v: "trace v = trace w @ copies @ (if c \<and> doSync f then [EvSync] else [])" "list_all quiet copies" for c v copies
  proof (cases "c \<and> doReboot f")
    case True
    show ?thesis
      unfolding if_P [OF True]
    proof (rule wp_mono [OF emits_wp [OF emits_upgrade_reboot]], elim exE conjE)
      fix u :: world and evs assume e: "trace u = trace v @ evs" "list_all reboot_event evs"
      have "locked_events f (copies @ (if c \<and> doSync f then [EvSync] else []) @ evs)"
        unfolding locked_events_def using v e True by blast
      then show "\<exists>evs. trace u = trace w @ evs \<and> locked_events f evs" using v e by auto
    qed
  next
    case False
    have "locked_events f (copies @ (if c \<and> doSync f then [EvSync] else []) @ [])"
      unfolding locked_events_def using v by (intro exI [of _ c] exI [of _ copies] exI [of _ "[]"]) simp
    then show ?thesis using v False by auto
  qed
  show ?thesis
    unfolding upgrade_locked_def wp_bind
  proof (rule wp_mono [OF emits_wp [OF emits_upgrade_copies]], elim exE conjE)
    fix c and u :: world and copies assume c: "trace u = trace w @ copies" "list_all quiet copies"
    show "wp (if c \<and> doSync f then unix_Sync else skip)
        (\<lambda>_ v. wp (if c \<and> doReboot f then upgrade_reboot f else ok ())
          (\<lambda>_ x. \<exists>evs. trace x = trace w @ evs \<and> locked_events f evs) v) u"
      by (rule wp_sync_if; rule last [OF _ c(2)]) (simp_all add: c(1))
  qed
qed

lemma wp_Flock:
  "wp (unix_Flock_ex_nb h) Q w \<longleftrightarrow>
     (case fault w (clock w) of
        Some (n, _) \<Rightarrow> Q (Inl (Sys ''flock'' (abs_string h) (EFault n))) (tick w)
      | None \<Rightarrow> Q (Inr ()) ((tick w)\<lparr>trace := trace w @ [EvLock (abs_string h)]\<rparr>))"
  "wp (unix_Flock_un h) Q w \<longleftrightarrow>
     (case fault w (clock w) of
        Some (n, _) \<Rightarrow> Q (Inl (Sys ''flock'' (abs_string h) (EFault n))) (tick w)
      | None \<Rightarrow> Q (Inr ()) ((tick w)\<lparr>trace := trace w @ [EvUnlock (abs_string h)]\<rparr>))"
  by (simp_all add: unix_Flock_ex_nb_def unix_Flock_un_def wp_sysc split: option.split)

lemma upgrade_Run_protocol: "wp (upgrade_Run f) (\<lambda>_ u. \<exists>evs. trace u = trace w @ evs \<and> upgrade_protocol f evs) w"
proof -
  let ?Q = "\<lambda>_ u. \<exists>evs. trace u = trace w @ evs \<and> upgrade_protocol f evs"
  have fatal: "?Q r (u\<lparr>trace := trace u @ [EvLog LFatal]\<rparr>)" if "trace u = trace w" for r :: "unit exits" and u :: world
    using that by (auto simp: upgrade_protocol_def)
  have close: "wp (fd_Close h) (\<lambda>_. ?Q ()) u" if "?Q () u" for h u
    using that by (auto simp: wp_Close split: option.split)
  have locked: "wp (defer_unless_exit (upgrade_locked f) (unix_Flock_un h)) (\<lambda>r u. case r of
        Inl k \<Rightarrow> ?Q () u | Inr a \<Rightarrow> wp (fd_Close h) (\<lambda>_. ?Q ()) u) v"
    if v: "trace v = trace w @ [EvLock (abs_string h)]" for h v
    unfolding wp_defer_unless_exit
  proof (rule wp_mono [OF locked_protocol], elim exE conjE)
    fix r :: "unit exits" and u :: world and evs
    assume a: "trace u = trace v @ evs" "locked_events f evs"
    have q: "?Q () x" if "trace x = trace u @ release" "release \<in> {[], [EvUnlock (abs_string h)]}"
      for release and x :: world
    proof (intro exI conjI)
      show "trace x = trace w @ EvLock (abs_string h) # evs @ release" using that(1) a(1) v by simp
      show "upgrade_protocol f (EvLock (abs_string h) # evs @ release)"
        unfolding upgrade_protocol_def using a(2) that(2) by blast
    qed
    have un: "wp (unix_Flock_un h) (\<lambda>_ x. wp (fd_Close h) (\<lambda>_. ?Q ()) x) u"
      unfolding wp_Flock by (auto intro!: close q simp del: insert_iff split: option.split)
    show "case r of Inl k \<Rightarrow> (case Inl k of Inl k \<Rightarrow> ?Q () u | Inr a \<Rightarrow> wp (fd_Close h) (\<lambda>_. ?Q ()) u)
      | Inr a \<Rightarrow> wp (unix_Flock_un h) (\<lambda>_ u. case Inr a of Inl k \<Rightarrow> ?Q () u | Inr a \<Rightarrow> wp (fd_Close h) (\<lambda>_. ?Q ()) u) u"
      using un q [of u "[]"] by (cases r) simp_all
  qed
  have lock: "wp (defer_unless_exit (fatal_check (unix_Flock_ex_nb h) (\<lambda>_.
        defer_unless_exit (upgrade_locked f) (unix_Flock_un h))) (fd_Close h)) (\<lambda>_. ?Q ()) v"
    if "trace v = trace w" for h v
    using fatal [of "tick v"] that locked
    by (simp add: wp_Flock wp_defer_unless_exit [of _ "fd_Close h"] wp_fatal_check split: option.split)
  show ?thesis
    unfolding upgrade_Run_def
    by (intro wp_silent_fatal [OF emits_Stat_root] wp_silent_fatal [OF emits_calls(11)] lock)
      (use fatal in auto)
qed

subsection \<open>Several runs\<close>

text \<open>Runs of the command on one machine, interleaved at their visible events. A process is given by what is left of
  its trace; any trace of any run in any world may be started, so whatever a run observes of the others is
  covered. The kernel gives a lock to one process at a time and takes it back when the process ends, which may
  happen at any point. The history is kept with the newest event first.\<close>

datatype deed = Does event | Ends

record machine =
  holder :: "string \<Rightarrow> nat option"
  todo :: "nat \<Rightarrow> event list"
  past :: "(nat \<times> deed) list"

definition idle :: machine where
  "idle = \<lparr>holder = (\<lambda>_. None), todo = (\<lambda>_. []), past = []\<rparr>"

definition run_of :: "upgrade_flags \<Rightarrow> event list \<Rightarrow> bool" where
  "run_of f evs \<longleftrightarrow> (\<exists>w. trace (snd (run_state (upgrade_Run f) w)) = trace w @ evs)"

fun lock_event :: "event \<Rightarrow> bool" where
  "lock_event (EvLock _) = True"
| "lock_event (EvUnlock _) = True"
| "lock_event _ = False"

abbreviation record_deed :: "nat \<Rightarrow> deed \<Rightarrow> event list \<Rightarrow> machine \<Rightarrow> machine" where
  "record_deed p d es m \<equiv> m\<lparr>todo := (todo m)(p := es), past := (p, d) # past m\<rparr>"

inductive machine_step :: "machine \<Rightarrow> machine \<Rightarrow> bool" where
  starts: "machine_step m (m\<lparr>todo := (todo m)(p := evs)\<rparr>)"
    if "todo m p = []" "\<forall>l. holder m l \<noteq> Some p" "run_of f evs"
| locks: "machine_step m ((record_deed p (Does (EvLock l)) es m)\<lparr>holder := (holder m)(l := Some p)\<rparr>)"
    if "todo m p = EvLock l # es" "holder m l = None"
| unlocks: "machine_step m ((record_deed p (Does (EvUnlock l)) es m)\<lparr>holder := (holder m)(l := None)\<rparr>)"
    if "todo m p = EvUnlock l # es" "holder m l = Some p"
| acts: "machine_step m (record_deed p (Does e) es m)"
    if "todo m p = e # es" "\<not> lock_event e"
| ends: "machine_step m ((record_deed p Ends [] m)\<lparr>holder := (\<lambda>l. if holder m l = Some p then None else holder m l)\<rparr>)"

inductive machine_reach :: "machine \<Rightarrow> bool" where
  reach_idle: "machine_reach idle"
| reach_step: "machine_reach m \<Longrightarrow> machine_step m m' \<Longrightarrow> machine_reach m'"

text \<open>A process is inside a lock from taking it to giving it back or ending, as the history tells.\<close>

fun inside :: "string \<Rightarrow> nat \<Rightarrow> (nat \<times> deed) list \<Rightarrow> bool" where
  "inside l p [] \<longleftrightarrow> False"
| "inside l p ((q, d) # tr) \<longleftrightarrow>
     (if q = p \<and> d \<in> {Ends, Does (EvUnlock l)} then False
      else q = p \<and> d = Does (EvLock l) \<or> inside l p tr)"

lemma not_lock_event [simp]: "\<not> lock_event e \<Longrightarrow> e \<noteq> EvLock l" "\<not> lock_event e \<Longrightarrow> e \<noteq> EvUnlock l"
  by auto

text \<open>Every effect in the history, the newest included, was made inside a lock.\<close>

fun guarded :: "(nat \<times> deed) list \<Rightarrow> bool" where
  "guarded [] \<longleftrightarrow> True"
| "guarded ((p, d) # tr) \<longleftrightarrow>
     guarded tr \<and>
     (case d of Ends \<Rightarrow> True | Does e \<Rightarrow> message e \<or> (\<exists>l. e = EvLock l) \<or> (\<exists>l. inside l p tr))"

text \<open>What is left of a run that holds the lock \<open>l\<close>, and of one that holds none.\<close>

fun holding :: "string \<Rightarrow> event list \<Rightarrow> bool" where
  "holding l [] \<longleftrightarrow> True"
| "holding l (e # es) \<longleftrightarrow> (if lock_event e then e = EvUnlock l \<and> es = [] else holding l es)"

definition waiting :: "event list \<Rightarrow> bool" where
  "waiting evs \<longleftrightarrow> list_all message evs \<or> (\<exists>l es. evs = EvLock l # es \<and> holding l es)"

definition process_ok :: "machine \<Rightarrow> nat \<Rightarrow> bool" where
  "process_ok m p \<longleftrightarrow>
     (\<forall>l. holder m l \<noteq> Some p) \<and> waiting (todo m p) \<or>
     (\<exists>l. (\<forall>l'. holder m l' = Some p \<longleftrightarrow> l' = l) \<and> holding l (todo m p))"

definition machine_ok :: "machine \<Rightarrow> bool" where
  "machine_ok m \<longleftrightarrow>
     guarded (past m) \<and> (\<forall>l p. inside l p (past m) \<longleftrightarrow> holder m l = Some p) \<and> (\<forall>p. process_ok m p)"

lemma message_no_lock: "message e \<Longrightarrow> \<not> lock_event e"
  by (cases e) simp_all

lemma waiting_Cons: "waiting (e # es) \<longleftrightarrow> message e \<and> list_all message es \<or> (\<exists>l. e = EvLock l \<and> holding l es)"
  by (auto simp: waiting_def)

lemma holding_app: "\<forall>e \<in> set acts. \<not> lock_event e \<Longrightarrow> holding l (acts @ es) = holding l es"
  by (induction acts) simp_all

lemmas holding_all = holding_app [where es = "[]", simplified]

lemma run_of_waiting:
  assumes "run_of f evs"
  shows "waiting evs"
proof -
  from assms obtain w where "trace (snd (run_state (upgrade_Run f) w)) = trace w @ evs" by (auto simp: run_of_def)
  then have "upgrade_protocol f evs"
    using upgrade_Run_protocol [of f w] by (auto simp: wp_def split: prod.splits)
  moreover have q: "\<not> lock_event e" if "quiet e" for e using that by (cases e) simp_all
  then have "\<not> lock_event e" if "reboot_event e" for e using that by auto
  then have "\<forall>e \<in> set acts. \<not> lock_event e" if "locked_events f acts" for acts
    using that q by (fastforce simp: locked_events_def list_all_iff split: if_splits)
  ultimately show ?thesis by (auto simp: upgrade_protocol_def waiting_def holding_app holding_all)
qed

lemma machine_ok_idle: "machine_ok idle"
  by (simp add: idle_def machine_ok_def process_ok_def waiting_def)

lemma process_ok_same:
  "(\<And>l. holder m' l = Some q \<longleftrightarrow> holder m l = Some q) \<Longrightarrow> todo m' q = todo m q \<Longrightarrow> process_ok m' q = process_ok m q"
  by (simp add: process_ok_def)

text \<open>A step concerns one process: the others find the machine as it was.\<close>

lemma machine_okI:
  assumes "machine_ok m" "process_ok m' p" "guarded (past m')"
    and "\<And>l q. inside l q (past m') \<longleftrightarrow> holder m' l = Some q"
    and "\<And>q l. q \<noteq> p \<Longrightarrow> holder m' l = Some q \<longleftrightarrow> holder m l = Some q" "\<And>q. q \<noteq> p \<Longrightarrow> todo m' q = todo m q"
  shows "machine_ok m'"
  using assms process_ok_same [of m' _ m] unfolding machine_ok_def by metis

lemma machine_ok_step: "machine_step m m' \<Longrightarrow> machine_ok m \<Longrightarrow> machine_ok m'"
proof (induction rule: machine_step.induct)
  case (starts m p f evs)
  then show ?case
    by - (rule machine_okI [of m _ p], auto simp: machine_ok_def process_ok_def dest: run_of_waiting)
next
  case (locks m p l es)
  then have "process_ok m p" by (simp add: machine_ok_def)
  with locks(1) have "\<forall>l. holder m l \<noteq> Some p" "holding l es"
    by (auto simp: process_ok_def waiting_Cons)
  with locks show ?case
    by - (rule machine_okI [of m _ p], auto simp: machine_ok_def process_ok_def)
next
  case (unlocks m p l es)
  then have "process_ok m p" by (simp add: machine_ok_def)
  with unlocks(1,2) have "process_ok ((record_deed p (Does (EvUnlock l)) es m)\<lparr>holder := (holder m)(l := None)\<rparr>) p"
    by (auto simp: process_ok_def waiting_def)
  with unlocks show ?case
    by - (rule machine_okI [of m _ p], auto simp: machine_ok_def)
next
  case (acts m p e es)
  then have "process_ok m p" by (simp add: machine_ok_def)
  with acts(1,2) have "process_ok (record_deed p (Does e) es m) p" "message e \<or> (\<exists>l. holder m l = Some p)"
    by (auto simp: process_ok_def waiting_Cons) (simp_all add: waiting_def)
  with acts show ?case
    by - (rule machine_okI [of m _ p], auto simp: machine_ok_def)
next
  case (ends m p)
  then show ?case
    by - (rule machine_okI [of m _ p], auto simp: machine_ok_def process_ok_def waiting_def)
qed

lemma machine_reach_ok: "machine_reach m \<Longrightarrow> machine_ok m"
  by (induction rule: machine_reach.induct) (auto simp: machine_ok_idle dest: machine_ok_step)

text \<open>C6: Two runs of the command never overlap, however they are interleaved and wherever one of them dies: at most one
  process is between taking a lock file and releasing it or ending, and everything a run does that is not a message, every
  mount, program and \<^verbatim>\<open>sync\<close>, it does there.\<close>

theorem upgrade_runs_exclusive:
  assumes "machine_reach m"
  shows "guarded (past m) \<and> (inside l p (past m) \<and> inside l q (past m) \<longrightarrow> p = q)"
  using machine_reach_ok [OF assms] by (auto simp: machine_ok_def)

text \<open>A run that finds its lock free and has no component to copy, and a machine on which it holds the lock while a
  second run starts.\<close>

definition lock_flags :: upgrade_flags where
  "lock_flags = upgrade_defaults\<lparr>sourceDir := ''/new'', destinationDir := ''/edgi'', lockFile := ''/etc/lock''\<rparr>"

lemma lock_run: "run_of lock_flags [EvLock ''/etc/lock'', EvUnlock ''/etc/lock'']"
proof -
  have "wp (upgrade_Run lock_flags) (\<lambda>_ u. trace u = trace demo @ [EvLock ''/etc/lock'', EvUnlock ''/etc/lock'']) demo"
    by (simp add: lock_flags_def upgrade_defaults_def upgrade_Run_def wp_fatal_check wp_defer_unless_exit validateSystemRoot_def
        os_Stat_def os_OpenFile_def at_path_def wp_sysc wp_Flock wp_Close upgrade_locked_def upgrade_copies_def
        upgrade_component_def resolve_def is_abs_def HasPrefix_def comps_def demo_defs tick_def abs_string_def fi_IsDir_iff)
  then show ?thesis unfolding run_of_def by (intro exI [of _ demo]) (auto simp: wp_def split: prod.splits)
qed

theorem upgrade_runs_exclusive_witness:
  "\<exists>m. machine_reach m \<and> past m = [(0, Does (EvLock ''/etc/lock''))] \<and> todo m 1 \<noteq> [] \<and>
     guarded (past m) \<and> (\<forall>q. inside ''/etc/lock'' q (past m) \<longrightarrow> 0 = q)"
proof -
  let ?evs = "[EvLock ''/etc/lock'', EvUnlock ''/etc/lock'']"
  let ?a = "idle\<lparr>todo := (todo idle)(0 := ?evs)\<rparr>"
  let ?b = "(record_deed 0 (Does (EvLock ''/etc/lock'')) [EvUnlock ''/etc/lock''] ?a)\<lparr>holder := (holder ?a)(''/etc/lock'' := Some 0)\<rparr>"
  let ?c = "?b\<lparr>todo := (todo ?b)(1 := ?evs)\<rparr>"
  have "machine_reach ?a" by (rule reach_step [OF reach_idle starts [OF _ _ lock_run]]) (simp_all add: idle_def)
  then have "machine_reach ?b" by (rule reach_step [OF _ locks]) (simp_all add: idle_def)
  then have "machine_reach ?c" by (rule reach_step [OF _ starts [OF _ _ lock_run]]) (simp_all add: idle_def)
  moreover from upgrade_runs_exclusive [OF this]
  have "guarded (past ?c)" "\<forall>q. inside ''/etc/lock'' 0 (past ?c) \<and> inside ''/etc/lock'' q (past ?c) \<longrightarrow> 0 = q" by blast+
  ultimately show ?thesis by (intro exI [of _ ?c]) (simp add: idle_def)
qed

end
