(* ===== verification/Prompt.thy ===== *)
theory Prompt
  imports Util
begin

text \<open>
  \<^verbatim>\<open>pkg/util/prompt.go\<close>: reading a password byte by byte, shown as stars.
\<close>

definition maxBytes :: nat where "maxBytes = 512"

definition getCharacter :: "char result io" where
  "getCharacter = State (\<lambda>w.
     case stdin_read 1 w of
       (Inl e, w') \<Rightarrow> (Inl e, w')
     | (Inr c, w') \<Rightarrow> (case c of [] \<Rightarrow> (Inl IOEOF, w') | v # _ \<Rightarrow> (Inr v, w')))"

definition print_out :: "string \<Rightarrow> unit io" where
  "print_out s = emit (EvPrint s)"

text \<open>The loop with \<open>k\<close> rounds left; the result is the bytes so far and the error, if any.\<close>

fun mask_loop :: "nat \<Rightarrow> bytes \<Rightarrow> (bytes \<times> unit result) io" where
  "mask_loop 0 p = State_Monad.return (p, Inl (Msg (''maximum password length is '' @ Itoa (int maxBytes) @ '' bytes'')))"
| "mask_loop (Suc k) p = do {
     c \<leftarrow> getCharacter;
     case c of
       Inl e \<Rightarrow> State_Monad.return (p, Inl e)
     | Inr v \<Rightarrow>
         if v = CHR 0x7F \<or> v = CHR 0x08 then do {
           (if p \<noteq> [] then print_out [CHR 0x08, CHR '' '', CHR 0x08] else skip);
           mask_loop k (butlast p) }
         else if v = CHR 0x0D \<or> v = CHR 0x0A then State_Monad.return (p, Inr ())
         else if v = CHR 0x03 then State_Monad.return (p, Inl (Msg ''interrupted''))
         else if v \<noteq> CHR 0x00 then do { print_out ''*''; mask_loop k (p @ [v]) }
         else mask_loop k p }"

declare mask_loop.simps [simp del]

text \<open>On a terminal the echo is switched off for the duration.\<close>

definition terminal_MakeRaw :: "unit result io" where
  "terminal_MakeRaw = sysc ''ioctl'' ''stdin'' (\<lambda>w. Inr ((), w\<lparr>trace := trace w @ [EvOther ''raw'' []]\<rparr>))"

definition terminal_Restore :: "unit io" where
  "terminal_Restore = do { emit (EvOther ''restore'' []); print_out [NL] }"

definition MaskPassword :: "(bytes \<times> unit result) io" where
  "MaskPassword = do {
     w \<leftarrow> State_Monad.get;
     if stdin_tty w then do {
       s \<leftarrow> terminal_MakeRaw;
       case s of
         Inl e \<Rightarrow> State_Monad.return ([], Inl e)
       | Inr _ \<Rightarrow> defer_after (mask_loop (maxBytes + 1) []) terminal_Restore }
     else mask_loop (maxBytes + 1) [] }"

text \<open>The confirmed password, and whether both inputs agree.\<close>

definition PromptPassword :: "(string \<times> bool) result io" where
  "PromptPassword = do {
     print_out ''Please enter password for [edgi]: '';
     p \<leftarrow> MaskPassword;
     case snd p of
       Inl e \<Rightarrow> fail (Wrapped ''failed to set password'' e)
     | Inr _ \<Rightarrow> do {
         print_out ''Confirm password for [edgi]: '';
         c \<leftarrow> MaskPassword;
         case snd c of
           Inl e \<Rightarrow> fail (Wrapped ''failed to confirm password'' e)
         | Inr _ \<Rightarrow> ok (fst c, fst p = fst c) } }"

subsection \<open>Progress\<close>

text \<open>A password that was read has consumed input.\<close>

lemma stdin_size_cong: "stdin w' = stdin w \<Longrightarrow> stdin_size w' = stdin_size w"
  by (simp add: stdin_size_def)

lemma stdin_size_simps [simp]:
  "stdin_size (w\<lparr>trace := x\<rparr>) = stdin_size w" "stdin_size (tick w) = stdin_size w"
  by (simp_all add: stdin_size_def)

lemma getCharacter_size:
  "wp getCharacter (\<lambda>r w'. stdin_size w' \<le> stdin_size w \<and> ((\<exists>v. r = Inr v) \<longrightarrow> stdin_size w' < stdin_size w)) w"
  by (auto simp: wp_def getCharacter_def stdin_read_def stdin_size_def split: list.splits)

lemma mask_loop_size:
  "wp (mask_loop k p) (\<lambda>x w'. snd x = Inr () \<longrightarrow> stdin_size w' < stdin_size w) w"
proof (induction k arbitrary: p w)
  case (Suc k)
  have rest: "wp (mask_loop k p) (\<lambda>x w'. snd x = Inr () \<longrightarrow> stdin_size w' < stdin_size w) v"
    if "stdin_size v < stdin_size w" for p v
    by (rule wp_mono [OF Suc.IH]) (use that in auto)
  show ?case
    unfolding mask_loop.simps wp_bind print_out_def
  proof (rule wp_mono [OF getCharacter_size], goal_cases)
    case (1 c u)
    show ?case
    proof (cases c)
      case (Inr v)
      with 1 have lt: "stdin_size u < stdin_size w" by blast
      then show ?thesis
        by (simp only: Inr sum.case wp_if wp_bind wp_emit wp_return snd_conv) (simp add: rest)
    qed simp
  qed
qed (simp add: mask_loop.simps)

lemma MaskPassword_size: "wp MaskPassword (\<lambda>x w'. snd x = Inr () \<longrightarrow> stdin_size w' < stdin_size w) w"
proof -
  have raw: "wp terminal_MakeRaw (\<lambda>_ w'. stdin_size w' = stdin_size w) w"
    unfolding terminal_MakeRaw_def by (rule wp_sysc_any) simp_all
  have loop: "wp (mask_loop k p) (\<lambda>x w'. wp terminal_Restore (\<lambda>_ w''. snd x = Inr () \<longrightarrow> stdin_size w'' < stdin_size w) w') v"
    if "stdin_size v = stdin_size w" for k p v
    by (rule wp_mono [OF mask_loop_size]) (use that in \<open>auto simp: terminal_Restore_def print_out_def\<close>)
  show ?thesis
    unfolding MaskPassword_def wp_bind wp_get wp_if
    by (auto intro!: wp_mono [OF raw] mask_loop_size loop split: sum.split)
qed

lemma PromptPassword_size: "run_state PromptPassword w = (Inr x, w') \<Longrightarrow> stdin_size w' < stdin_size w"
proof -
  have mask: "wp MaskPassword (\<lambda>x w'. snd x = Inr () \<longrightarrow> stdin_size w' < n) v"
    if "stdin_size v \<le> n" for v n
    by (rule wp_mono [OF MaskPassword_size]) (use that in auto)
  have "wp PromptPassword (\<lambda>r w'. (\<exists>x. r = Inr x) \<longrightarrow> stdin_size w' < stdin_size w) w"
    unfolding PromptPassword_def print_out_def wp_bind wp_emit
    by (rule wp_mono [OF mask [where n = "stdin_size w"]])
      (auto split: sum.split intro!: wp_mono [OF mask [where n = "stdin_size w"]])
  then show "run_state PromptPassword w = (Inr x, w') \<Longrightarrow> ?thesis" by (auto dest: wpD)
qed

subsection \<open>What a password holds\<close>

definition control :: "char \<Rightarrow> bool" where
  "control c \<longleftrightarrow> c \<in> {CHR 0x7F, CHR 0x08, CHR 0x0D, CHR 0x0A, CHR 0x03, CHR 0x00}"

definition password_ok :: "nat \<Rightarrow> bytes \<times> unit result \<Rightarrow> bool" where
  "password_ok n x \<longleftrightarrow> length (fst x) \<le> n \<and> (snd x = Inr () \<longrightarrow> length (fst x) < n) \<and> (\<forall>c \<in> set (fst x). \<not> control c)"

lemma password_ok_mono: "password_ok m x \<Longrightarrow> m \<le> n \<Longrightarrow> password_ok n x"
  by (auto simp: password_ok_def)

lemma mask_loop_bound:
  "\<forall>c \<in> set p. \<not> control c \<Longrightarrow> wp (mask_loop k p) (\<lambda>x _. password_ok (length p + k) x) w"
proof (induction k arbitrary: p w)
  case (Suc k)
  let ?Q = "\<lambda>x (_ :: world). password_ok (length p + Suc k) x"
  have rest: "wp (mask_loop k q) ?Q v" if "length q \<le> Suc (length p)" "\<forall>c \<in> set q. \<not> control c" for q v
    by (rule wp_mono [OF Suc.IH [OF that(2)]], erule password_ok_mono) (use that(1) in simp)
  have del: "wp (mask_loop k (butlast p)) ?Q v" "wp (mask_loop k p) ?Q v" for v
    by (rule rest; use Suc.prems in \<open>auto dest: in_set_butlastD\<close>)+
  have add: "wp (mask_loop k (p @ [c])) ?Q v" if "\<not> control c" for c v
    using Suc.prems that by (intro rest) auto
  have stop: "?Q (p, r) v" for r v
    using Suc.prems by (simp add: password_ok_def)
  show ?case
    unfolding mask_loop.simps wp_bind print_out_def
  proof (rule wp_mono [of _ "\<lambda>_ _. True"], simp, goal_cases)
    case (1 c u)
    show ?case
    proof (cases c)
      case (Inr v)
      show ?thesis
        unfolding Inr sum.case wp_if wp_bind wp_emit wp_return
        using del add [of v] stop unfolding control_def insert_iff empty_iff by (auto simp only: if_split)
    qed (use stop in simp)
  qed
qed (simp add: mask_loop.simps password_ok_def)

lemma MaskPassword_bound: "wp MaskPassword (\<lambda>x _. password_ok (maxBytes + 1) x) w"
proof -
  have loop: "wp (mask_loop (maxBytes + 1) []) (\<lambda>x _. password_ok (maxBytes + 1) x) v" for v
    using mask_loop_bound [of "[]" "maxBytes + 1" v] by simp
  have raw: "wp (mask_loop (maxBytes + 1) []) (\<lambda>x u. wp terminal_Restore (\<lambda>_ _. password_ok (maxBytes + 1) x) u) v" for v
    by (rule wp_mono [OF loop]) (auto simp: terminal_Restore_def print_out_def)
  have no: "password_ok (maxBytes + 1) ([], Inl e)" for e by (simp add: password_ok_def)
  have tty: "wp terminal_MakeRaw (\<lambda>r. wp (case r of Inl e \<Rightarrow> State_Monad.return ([], Inl e)
      | Inr _ \<Rightarrow> defer_after (mask_loop (maxBytes + 1) []) terminal_Restore) (\<lambda>x _. password_ok (maxBytes + 1) x)) w"
    by (rule wp_mono [of _ "\<lambda>_ _. True"], rule wp_True) (simp only: raw no wp_defer wp_return simp_thms split: sum.split)
  show ?thesis
    unfolding MaskPassword_def wp_bind wp_get wp_if using tty loop [of w] by (cases "stdin_tty w") (simp_all only: if_True if_False)
qed

text \<open>C34: A password has at most 512 bytes and none of the control characters that edit or end it, on a terminal or a pipe, whatever is typed.\<close>

theorem MaskPassword_clean:
  "wp MaskPassword (\<lambda>x _. (\<forall>c \<in> set (fst x). \<not> control c) \<and> (snd x = Inr () \<longrightarrow> length (fst x) \<le> maxBytes)) w"
  by (rule wp_mono [OF MaskPassword_bound]) (simp add: password_ok_def less_Suc_eq_le)

end
