(* ===== verification/Questions.thy ===== *)
theory Questions
  imports Prompt
begin

text \<open>
  \<^verbatim>\<open>pkg/questions/questions.go\<close>. Every prompt makes a new buffered reader on standard input, so what
  the reader fetched beyond the first newline is lost to the next prompt. The loops repeat until
  an answer is acceptable; they end because every round consumes input and the end of the input is
  an error: the functions below recur on the size of the input.
\<close>

definition bufio_size :: nat where "bufio_size = 4096"

text \<open>\<^verbatim>\<open>bufio.NewReader(os.Stdin).ReadString('\n')\<close>: \<open>b\<close> bytes lie in the buffer, \<open>acc\<close> is the text so far.
  What follows the newline in the buffer is dropped with the reader.\<close>

function read_line :: "nat \<Rightarrow> bytes \<Rightarrow> world \<Rightarrow> string result \<times> world" where
  "read_line b acc w =
     (case stdin_read (bufio_size - b mod bufio_size) w of
        (Inl e, w') \<Rightarrow> (Inl e, w')
      | (Inr h, w') \<Rightarrow>
          if NL \<in> set h then (Inr (acc @ takeWhile (\<lambda>c. c \<noteq> NL) h @ [NL]), w')
          else read_line (b + length h) (acc @ h) w')"
  by pat_completeness auto
termination
  by (relation "measure (\<lambda>(b, acc, w). stdin_size w)")
    (auto dest!: stdin_read_size [OF sym] simp: bufio_size_def)

declare read_line.simps [simp del]

lemma read_line_size: "read_line b acc w = (Inr l, w') \<Longrightarrow> stdin_size w' < stdin_size w"
proof (induction b acc w rule: read_line.induct)
  case (1 b acc w)
  have size: "stdin_size v < stdin_size w" if "stdin_read (bufio_size - b mod bufio_size) w = (Inr c, v)" for c v
    by (rule stdin_read_size [OF that]) (simp add: bufio_size_def)
  obtain r v where r: "stdin_read (bufio_size - b mod bufio_size) w = (r, v)" by fastforce
  then show ?case
    using "1.prems" [unfolded read_line.simps [of b acc w]] "1.IH" [OF r [symmetric]] size
    by (cases r) (fastforce split: if_splits)+
qed

text \<open>Text goes to the terminal, or to standard error when standard output is none.\<close>

definition print_term :: "string \<Rightarrow> world \<Rightarrow> world" where
  "print_term s w = w\<lparr>trace := trace w @ [EvOther (if stdout_tty w then ''stdout'' else ''stderr'') [s]]\<rparr>"

definition PrintToTerm :: "string \<Rightarrow> unit io" where
  "PrintToTerm s = State (\<lambda>w. ((), print_term s w))"

lemma print_term_size [simp]: "stdin_size (print_term s w) = stdin_size w"
  by (simp add: print_term_def stdin_size_def)

definition answer_or :: "string \<Rightarrow> string \<Rightarrow> string" where
  "answer_or dflt l = (let a = TrimSpace l in if a = [] then dflt else a)"

function prompt_run :: "string \<Rightarrow> string \<Rightarrow> world \<Rightarrow> string result \<times> world" where
  "prompt_run msg dflt w =
     (case read_line 0 [] (print_term msg w) of
        (Inl e, w') \<Rightarrow> (Inl e, w')
      | (Inr l, w') \<Rightarrow>
          if answer_or dflt l = [] then prompt_run msg dflt w' else (Inr (answer_or dflt l), w'))"
  by pat_completeness auto
termination
  by (relation "measure (\<lambda>(msg, dflt, w). stdin_size w)") (auto dest: read_line_size [OF sym])

declare prompt_run.simps [simp del]

definition Prompt :: "string \<Rightarrow> string \<Rightarrow> string result io" where
  "Prompt msg dflt = State (prompt_run msg dflt)"

definition PromptOptional :: "string \<Rightarrow> string \<Rightarrow> string result io" where
  "PromptOptional msg dflt = State (\<lambda>w.
     case read_line 0 [] (print_term msg w) of
       (Inl e, w') \<Rightarrow> (Inl e, w')
     | (Inr l, w') \<Rightarrow> (Inr (answer_or dflt l), w'))"

lemma prompt_run_size: "prompt_run msg dflt w = (Inr a, w') \<Longrightarrow> stdin_size w' < stdin_size w"
proof (induction msg dflt w rule: prompt_run.induct)
  case (1 msg dflt w)
  obtain r v where r: "read_line 0 [] (print_term msg w) = (r, v)" by fastforce
  then show ?case
    using "1.prems" [unfolded prompt_run.simps [of msg dflt w]] "1.IH" [OF r [symmetric]]
    by (cases r) (fastforce split: if_splits dest: read_line_size)+
qed

function options_run :: "nat \<Rightarrow> string \<Rightarrow> world \<Rightarrow> nat result \<times> world" where
  "options_run n defString w =
     (case prompt_run (''Select Number ['' @ defString @ '']: '') defString w of
        (Inl e, w') \<Rightarrow> (Inl e, w')
      | (Inr ans, w') \<Rightarrow>
          (case Atoi ans of
             None \<Rightarrow> options_run n defString (print_term (''Invalid number: '' @ ans @ [NL]) w')
           | Some num \<Rightarrow>
               if num - 1 < 0 \<or> int n \<le> num - 1
               then options_run n defString
                      (print_term (''Select a number between 1 and '' @ Itoa (int n) @ [NL]) w')
               else (Inr (nat (num - 1)), w')))"
  by pat_completeness auto
termination
  by (relation "measure (\<lambda>(n, d, w). stdin_size w)") (auto dest: prompt_run_size [OF sym])

declare options_run.simps [simp del]

definition PromptOptions :: "string \<Rightarrow> int \<Rightarrow> string list \<Rightarrow> nat result io" where
  "PromptOptions msg dflt options =
     (if length options = 1 then ok 0
      else do {
        PrintToTerm msg;
        for_all options PrintToTerm;
        State (options_run (length options) (if dflt \<ge> 0 then Itoa (dflt + 1) else [])) })"

definition option_lines :: "string list \<Rightarrow> string list" where
  "option_lines options =
     map (\<lambda>(i, opt). Itoa (int (i + 1)) @ ''. '' @ opt @ [NL]) (zip [0..<length options] options)"

definition PromptFormattedOptions :: "string \<Rightarrow> int \<Rightarrow> string list \<Rightarrow> nat result io" where
  "PromptFormattedOptions msg dflt options = PromptOptions (msg @ [NL]) dflt (option_lines options)"

function bool_run :: "string \<Rightarrow> string \<Rightarrow> world \<Rightarrow> bool result \<times> world" where
  "bool_run msg defStr w =
     (case prompt_run msg defStr w of
        (Inl e, w') \<Rightarrow> (Inl e, w')
      | (Inr yn, w') \<Rightarrow>
          if ToLower yn = ''y'' then (Inr True, w')
          else if ToLower yn = ''n'' then (Inr False, w')
          else bool_run msg defStr (w'\<lparr>trace := trace w' @ [EvPrint (''Enter y or n'' @ [NL])]\<rparr>))"
  by pat_completeness auto
termination
  by (relation "measure (\<lambda>(m, d, w). stdin_size w)")
    (auto dest!: prompt_run_size [OF sym] simp: stdin_size_def)

declare bool_run.simps [simp del]

definition PromptBool :: "string \<Rightarrow> bool \<Rightarrow> bool result io" where
  "PromptBool msg dflt =
     State (if dflt then bool_run (msg @ '' [Y/n]: '') ''y'' else bool_run (msg @ '' [y/N]: '') ''n'')"

subsection \<open>Answers\<close>

lemma options_run_range:
  "options_run n d w = (Inr i, u) \<Longrightarrow> i < n"
proof (induction n d w rule: options_run.induct)
  case (1 n d w)
  obtain r v where r: "prompt_run (''Select Number ['' @ d @ '']: '') d w = (r, v)" by fastforce
  show ?case
  proof (cases r)
    case (Inr ans)
    show ?thesis
      using "1.prems" [unfolded options_run.simps [of n d w]] "1.IH" [OF _ Inr] r
      by (auto simp: r Inr split: option.splits if_splits)
  qed (use "1.prems" [unfolded options_run.simps [of n d w]] r in simp)
qed

lemma PromptOptions_range: "wp (PromptOptions msg d options) (\<lambda>r _. \<forall>i. r = Inr i \<longrightarrow> i < length options) w"
  unfolding PromptOptions_def
  by (auto simp: wp_def split: prod.split dest: options_run_range)

lemma read_line_first:
  assumes "stdin w = (l @ [NL]) # rest" "NL \<notin> set l" "length l < bufio_size"
  shows "read_line 0 [] w = (Inr (l @ [NL]), w\<lparr>stdin := rest\<rparr>)"
proof -
  have "takeWhile (\<lambda>c. c \<noteq> NL) (l @ [NL]) = l" using assms(2) by (induction l) auto
  then show ?thesis
    using assms by (subst read_line.simps) (simp add: stdin_read_def)
qed

text \<open>What was typed ahead in the same line buffer is lost.\<close>

lemma read_line_drops:
  assumes "stdin w = (l @ [NL] @ ahead) # rest" "NL \<notin> set l" "length (l @ [NL] @ ahead) \<le> bufio_size"
  shows "read_line 0 [] w = (Inr (l @ [NL]), w\<lparr>stdin := rest\<rparr>)"
proof -
  have "takeWhile (\<lambda>c. c \<noteq> NL) (l @ NL # ahead) = l" using assms(2) by (induction l) auto
  then show ?thesis
    using assms by (subst read_line.simps) (simp add: stdin_read_def)
qed

text \<open>A number typed on a line of its own is the answer.\<close>

lemma print_term_stdin [simp]: "stdin (print_term m w) = stdin w"
  by (simp add: print_term_def)

lemma prompt_answer:
  assumes "stdin w = (a @ [NL]) # rest" "wordy a" "a \<noteq> []" "length a < bufio_size"
  shows "prompt_run msg d w = (Inr a, (print_term msg w)\<lparr>stdin := rest\<rparr>)"
proof -
  have "NL \<notin> set a" using assms(2) by (auto simp: wordy_def less_char_def)
  then have "read_line 0 [] (print_term msg w) = (Inr (a @ [NL]), (print_term msg w)\<lparr>stdin := rest\<rparr>)"
    using assms(1,4) by (intro read_line_first) simp_all
  then show ?thesis
    using TrimSpace_wordy_newline [OF assms(2)] assms(3)
    by (subst prompt_run.simps) (simp add: answer_or_def)
qed

lemma digits_wordy: "wordy (digits_base 10 n)"
  using digits_base_chars [of 10 n] digit_char_wordy by (fastforce simp: wordy_def)

lemma options_answer:
  assumes "stdin w = (digits_base 10 (Suc i) @ [NL]) # rest" "i < n" "length (digits_base 10 (Suc i)) < bufio_size" "Suc i < 2 ^ 63"
  shows "options_run n d w = (Inr i, (print_term (''Select Number ['' @ d @ '']: '') w)\<lparr>stdin := rest\<rparr>)"
proof -
  have "Atoi (digits_base 10 (Suc i)) = Some (int (Suc i))"
    using assms(4) by (simp add: Atoi_def ParseInt_digits del: of_nat_Suc)
  then show ?thesis
    using assms(2) prompt_answer [OF assms(1) digits_wordy digits_base_nonempty assms(3)]
    by (subst options_run.simps) simp
qed

lemma for_all_print: "\<exists>u. run_state (for_all xs PrintToTerm) w = ((), u) \<and> stdin u = stdin w"
proof (induction xs arbitrary: w)
  case (Cons x xs)
  then show ?case using Cons.IH [of "print_term x w"] by (simp add: PrintToTerm_def)
qed simp

lemma PromptOptions_answer:
  assumes "stdin w = (digits_base 10 (Suc i) @ [NL]) # rest" "i < length options" "length options \<noteq> 1"
    and "length (digits_base 10 (Suc i)) < bufio_size" "Suc i < 2 ^ 63"
  shows "fst (run_state (PromptOptions msg d options) w) = Inr i"
proof -
  obtain u where u: "run_state (for_all options PrintToTerm) (print_term msg w) = ((), u)" "stdin u = stdin w"
    using for_all_print [of options "print_term msg w"] by auto
  have "stdin u = (digits_base 10 (Suc i) @ [NL]) # rest" using u(2) assms(1) by simp
  from options_answer [OF this assms(2,4,5)] show ?thesis
    using u(1) assms(3) by (simp add: PromptOptions_def PrintToTerm_def)
qed

text \<open>C33: Choosing from a list. Whatever is typed, an answer is the index of an option; and the number of an option, typed on a line of
  its own, is answered with its index.\<close>

theorem PromptOptions_in_range:
  assumes "stdin w = (digits_base 10 (Suc i) @ [NL]) # rest" "i < length options" "length options < 2 ^ 63"
    and "length options \<noteq> 1" "length (digits_base 10 (Suc i)) < bufio_size"
  shows "fst (run_state (PromptOptions msg d options) w) = Inr i \<and>
    wp (PromptOptions msg d options) (\<lambda>r _. \<forall>i. r = Inr i \<longrightarrow> i < length options) v"
  using PromptOptions_answer [OF assms(1,2,4,5)] PromptOptions_range [of msg d options v] assms(2,3) by simp

subsection \<open>Every question ends\<close>

text \<open>The loops have no bound of their own: each round that is not the last takes something from the input, so the size of the
  input bounds what is asked.\<close>

lemma stdin_read_quiet: "stdin_read n w = (r, w') \<Longrightarrow> trace w' = trace w \<and> stdin_size w' \<le> stdin_size w"
  by (auto simp: stdin_read_def stdin_size_def split: list.splits if_splits)

lemma read_line_quiet: "read_line b acc w = (r, w') \<Longrightarrow> trace w' = trace w \<and> stdin_size w' \<le> stdin_size w"
proof (induction b acc w rule: read_line.induct)
  case (1 b acc w)
  obtain x v where x: "stdin_read (bufio_size - b mod bufio_size) w = (x, v)" by fastforce
  then show ?case
    using "1.prems" [unfolded read_line.simps [of b acc w]] "1.IH" [OF x [symmetric]] stdin_read_quiet [OF x]
    by (cases x) (fastforce split: if_splits)+
qed

lemma print_term_trace [simp]: "length (trace (print_term m w)) = Suc (length (trace w))"
  by (simp add: print_term_def)

lemma prompt_run_asks:
  "prompt_run msg d w = (r, w') \<Longrightarrow>
     length (trace w') + stdin_size w' \<le> length (trace w) + stdin_size w + (if isl r then 1 else 0) \<and> stdin_size w' \<le> stdin_size w"
proof (induction msg d w rule: prompt_run.induct)
  case (1 msg d w)
  obtain x v where x: "read_line 0 [] (print_term msg w) = (x, v)" by fastforce
  note q = read_line_quiet [OF x]
  show ?case
  proof (cases x)
    case (Inl e)
    then show ?thesis using "1.prems" [unfolded prompt_run.simps [of msg d w]] x q by auto
  next
    case (Inr l)
    have "stdin_size v < stdin_size w" using read_line_size [of 0 "[]" "print_term msg w" l v] x Inr by simp
    then show ?thesis
      using "1.prems" [unfolded prompt_run.simps [of msg d w]] "1.IH" [OF x [symmetric] Inr] x q Inr by (auto split: if_splits)
  qed
qed

lemma options_run_asks:
  "options_run n d w = (r, w') \<Longrightarrow> length (trace w') + 2 * stdin_size w' \<le> length (trace w) + 2 * stdin_size w + 1"
proof (induction n d w rule: options_run.induct)
  case (1 n d w)
  obtain x v where x: "prompt_run (''Select Number ['' @ d @ '']: '') d w = (x, v)" by fastforce
  note q = prompt_run_asks [OF x]
  show ?case
  proof (cases x)
    case (Inl e)
    then show ?thesis using "1.prems" [unfolded options_run.simps [of n d w]] x q by auto
  next
    case (Inr ans)
    have "stdin_size v < stdin_size w" using prompt_run_size x Inr by blast
    then show ?thesis
      using "1.prems" [unfolded options_run.simps [of n d w]] "1.IH" [OF x [symmetric] Inr] x q Inr
      by (fastforce split: if_splits option.splits)
  qed
qed

lemma for_all_asks: "run_state (for_all xs PrintToTerm) w = (r, u) \<Longrightarrow> length (trace u) = length (trace w) + length xs \<and> stdin_size u = stdin_size w"
proof (induction xs arbitrary: w)
  case (Cons x xs)
  then show ?case using Cons.IH [of "print_term x w"] by (simp add: PrintToTerm_def)
qed simp

text \<open>C22: Choosing from a list ends for every input and every number of options: every repetition of the question has read a line that
  was no answer, so at most two messages are printed for each byte and line of the input, and the end of the input
  ends the question with an error.\<close>

theorem PromptOptions_ends:
  "wp (PromptOptions msg d options) (\<lambda>r u.
     length (trace u) \<le> length (trace w) + length options + 2 + 2 * stdin_size w \<and>
     (stdin w = [] \<and> length options \<noteq> 1 \<longrightarrow> isl r)) w"
proof (cases "length options = 1")
  case False
  obtain v where v: "run_state (for_all options PrintToTerm) (print_term msg w) = ((), v)" by (metis old.unit.exhaust prod.exhaust)
  from for_all_asks [OF v] have a: "length (trace v) = length (trace w) + length options + 1" "stdin_size v = stdin_size w" by simp_all
  have e: "isl (fst (options_run n dd v))" if "stdin w = []" for n dd
  proof -
    have "stdin v = []" using a(2) that by (auto simp: stdin_size_def sum_list_eq_0_iff)
    then show ?thesis by (simp add: options_run.simps prompt_run.simps read_line.simps stdin_read_def split: prod.split)
  qed
  let ?d = "if d \<ge> 0 then Itoa (d + 1) else []"
  obtain r u where u: "options_run (length options) ?d v = (r, u)" by fastforce
  then have "run_state (PromptOptions msg d options) w = (r, u)"
    using False v by (simp add: PromptOptions_def PrintToTerm_def)
  moreover have "length (trace u) \<le> length (trace w) + length options + 2 + 2 * stdin_size w"
    using options_run_asks [OF u] a by simp
  moreover have "isl r" if "stdin w = []" using e [OF that, of "length options" ?d] u by simp
  ultimately show ?thesis by (simp add: wp_def)
qed (simp add: PromptOptions_def)

end
