(* ===== verification/CliInstall.thy ===== *)
theory CliInstall
  imports ReadConfig Questions Writefile
begin

text \<open>
  \<^verbatim>\<open>pkg/cliinstall\<close>: the questions of the installer and the run of the install script. A question
  that fails ends the run, so a function returns the changed configuration or the error.
\<close>

type_synonym asker = "CloudConfig \<Rightarrow> CloudConfig result io"

definition set_edgi :: "(edgi \<Rightarrow> edgi) \<Rightarrow> CloudConfig \<Rightarrow> CloudConfig" where
  "set_edgi f c = c\<lparr>EDGI := f (EDGI c)\<rparr>"

text \<open>\<^verbatim>\<open>cfg.EDGI.Install\<close> is a pointer that \<^verbatim>\<open>ReadConfig\<close> sets; a nil one would panic.\<close>

definition the_install :: "CloudConfig \<Rightarrow> install" where
  "the_install c = (case Install (EDGI c) of Some i \<Rightarrow> i | None \<Rightarrow> empty_install)"

definition set_install :: "(install \<Rightarrow> install) \<Rightarrow> CloudConfig \<Rightarrow> CloudConfig" where
  "set_install f c = set_edgi (\<lambda>e. e\<lparr>Install := Some (f (the_install c))\<rparr>) c"

subsection \<open>What to do\<close>

definition isInstall :: "bool result io" where
  "isInstall =
     check (mode_Get []) (\<lambda>mo.
       if mo = ''install'' then ok True
       else if mo = ''live-server'' then ok False
       else if mo = ''live-agent'' then ok False
       else check (PromptFormattedOptions ''Choose operation'' 0 [''Install to disk'', ''Configure server or agent''])
              (\<lambda>i. ok (i = 0)))"

definition lsblk_command :: command where
  "lsblk_command = exec_Command [''/bin/sh'', ''-c'', ''lsblk -r -o NAME,TYPE | grep -w disk | awk '' @ [CHR 0x27] @ ''{print $1}'' @ [CHR 0x27]]"

text \<open>\<^verbatim>\<open>fields[i]\<close> panics when there is no such field, the value \<open>Inl\<close> here.\<close>

definition AskInstallDevice :: asker where
  "AskInstallDevice c =
     (if Device (the_install c) \<noteq> [] then ok c
      else do {
        out \<leftarrow> cmd_CombinedOutput lsblk_command;
        case snd out of
          Inl e \<Rightarrow> fail e
        | Inr _ \<Rightarrow>
            let fields = Fields (fst out)
            in check (PromptFormattedOptions ''Installation target. Device will be formatted'' (-1) fields)
                 (\<lambda>i. if i < length fields
                       then ok (set_install (\<lambda>x. x\<lparr>Device := ''/dev/'' @ fields ! i\<rparr>) c)
                       else fail (Msg ''index out of range'')) })"

definition AskToken :: "bool \<Rightarrow> asker" where
  "AskToken server c =
     (if Token (EDGI c) \<noteq> [] then ok c
      else check (if server then PromptOptional ''Token or cluster secret (optional): '' []
                  else Prompt ''Token or cluster secret: '' [])
             (\<lambda>t. ok (set_edgi (\<lambda>e. e\<lparr>Token := t\<rparr>) c)))"

definition isServer :: "CloudConfig \<Rightarrow> bool result io" where
  "isServer c =
     check (mode_Get []) (\<lambda>mo.
       if mo = ''live-server'' then ok True
       else if mo = ''live-agent'' \<or> (ServerURL (EDGI c) \<noteq> [] \<and> Token (EDGI c) \<noteq> []) then ok False
       else check (PromptFormattedOptions ''Run as server or agent?'' 0 [''server'', ''agent''])
              (\<lambda>i. ok (i = 0)))"

definition AskServerAgent :: asker where
  "AskServerAgent c =
     (if ServerURL (EDGI c) \<noteq> [] then ok c
      else check (isServer c) (\<lambda>server.
        if server then AskToken True c
        else check (Prompt ''URL of server: '' []) (\<lambda>url.
               AskToken False (set_edgi (\<lambda>e. e\<lparr>ServerURL := url\<rparr>) c))))"

subsection \<open>The password\<close>

text \<open>Until both inputs agree; every round consumes input.\<close>

function password_run :: "world \<Rightarrow> string result \<times> world" where
  "password_run w =
     (case run_state PromptPassword w of
        (Inl e, w') \<Rightarrow> (Inl e, w')
      | (Inr (pass, agree), w') \<Rightarrow> if agree then (Inr pass, w') else password_run w')"
  by pat_completeness auto
termination
  by (relation "measure stdin_size") (auto dest: PromptPassword_size [OF sym])

declare password_run.simps [simp del]

definition shadow_password :: "string list \<Rightarrow> string option" where
  "shadow_password lines =
     map_option (\<lambda>fs. fs ! 1)
       (find (\<lambda>fs. length fs > 1 \<and> hd fs = ''edgi'') (map (\<lambda>l. Split l CHR '':'') lines))"

text \<open>As root the password is hashed by \<^verbatim>\<open>chpasswd\<close>, read from the shadow file, and the file restored.\<close>

definition hash_password :: "string \<Rightarrow> CloudConfig \<Rightarrow> CloudConfig result io" where
  "hash_password pass c =
     check (ioutil_ReadFile ''/etc/shadow'') (\<lambda>oldShadow.
       defer_after
         (check (run_with_stderr ((exec_Command [''chpasswd''])\<lparr>c_stdin := ''edgi:'' @ pass\<rparr>)) (\<lambda>_.
          check (os_Open ''/etc/shadow'') (\<lambda>f.
            defer_after
              (do {
                sc \<leftarrow> scan_file f;
                case shadow_password (fst sc) of
                  Some p \<Rightarrow> ok (set_edgi (\<lambda>e. e\<lparr>Password := p\<rparr>) c)
                | None \<Rightarrow> (case snd sc of Inl e \<Rightarrow> fail e | Inr _ \<Rightarrow> ok c) })
              (fd_Close f))))
         (ioutil_WriteFile ''/etc/shadow'' oldShadow 0x1A0))"

definition AskPassword :: asker where
  "AskPassword c =
     (if SSHAuthorizedKeys c \<noteq> [] \<or> Password (EDGI c) \<noteq> [] then ok c
      else check (State password_run) (\<lambda>pass. do {
        u \<leftarrow> os_Getuid;
        if u \<noteq> 0 then ok (set_edgi (\<lambda>e. e\<lparr>Password := pass\<rparr>) c)
        else hash_password pass c }))"

subsection \<open>Networks, users, the configuration's location\<close>

text \<open>One round of the loop asks for a network and whether another follows.\<close>

definition ask_network :: "(wifi \<times> bool) result io" where
  "ask_network =
     check (Prompt ''WiFi Name: '' []) (\<lambda>name.
     check (Prompt ''WiFi Passphrase: '' []) (\<lambda>pass.
     check (PromptBool ''Configure another WiFi network?'' False) (\<lambda>again.
       ok (\<lparr>wifi_Name = name, wifi_Passphrase = pass\<rparr>, again))))"

lemma bool_run_size: "bool_run msg dflt w = (Inr b, w') \<Longrightarrow> stdin_size w' < stdin_size w"
proof (induction msg dflt w rule: bool_run.induct)
  case (1 msg dflt w)
  obtain r v where r: "prompt_run msg dflt w = (r, v)" by fastforce
  then show ?case
    using "1.prems" [unfolded bool_run.simps [of msg dflt w]] "1.IH" [OF r [symmetric]]
    by (cases r) (fastforce split: if_splits dest: prompt_run_size)+
qed

lemma ask_network_size: "run_state ask_network w = (Inr x, w') \<Longrightarrow> stdin_size w' < stdin_size w"
proof -
  have p: "wp (Prompt m d) (\<lambda>r w'. (\<exists>a. r = Inr a) \<longrightarrow> stdin_size w' < n) v" if "stdin_size v \<le> n" for m d v n
    using that by (auto simp: wp_def Prompt_def split: prod.split dest!: prompt_run_size)
  have b: "wp (PromptBool m d) (\<lambda>r w'. (\<exists>a. r = Inr a) \<longrightarrow> stdin_size w' < n) v" if "stdin_size v \<le> n" for m d v n
    using that by (auto simp: wp_def PromptBool_def split: prod.split dest!: bool_run_size)
  have "wp ask_network (\<lambda>r w'. (\<exists>x. r = Inr x) \<longrightarrow> stdin_size w' < stdin_size w) w"
    unfolding ask_network_def wp_check
    by (rule wp_mono [OF p [where n = "stdin_size w"]])
      (auto split: sum.split intro!: wp_mono [OF p [where n = "stdin_size w"]] wp_mono [OF b [where n = "stdin_size w"]])
  then show "run_state ask_network w = (Inr x, w') \<Longrightarrow> ?thesis" by (auto dest: wpD)
qed

function networks_run :: "wifi list \<Rightarrow> world \<Rightarrow> wifi list result \<times> world" where
  "networks_run ws w =
     (case run_state ask_network w of
        (Inl e, w') \<Rightarrow> (Inl e, w')
      | (Inr (x, again), w') \<Rightarrow>
          if again then networks_run (ws @ [x]) w' else (Inr (ws @ [x]), w'))"
  by pat_completeness auto
termination
  by (relation "measure (\<lambda>(ws, w). stdin_size w)") (auto dest: ask_network_size [OF sym])

declare networks_run.simps [simp del]

definition AskWifi :: asker where
  "AskWifi c =
     (if Wifi (EDGI c) \<noteq> [] then ok c
      else check (PromptBool ''Configure WiFi?'' False) (\<lambda>y.
        if \<not> y then ok c
        else check (State (networks_run (Wifi (EDGI c)))) (\<lambda>ws.
          ok (set_edgi (\<lambda>e. e\<lparr>Wifi := ws\<rparr>) c))))"

definition AskGithub :: asker where
  "AskGithub c =
     (if SSHAuthorizedKeys c \<noteq> [] \<or> Password (EDGI c) \<noteq> [] then ok c
      else check (PromptBool ''Authorize GitHub users to SSH?'' False) (\<lambda>y.
        if \<not> y then ok c
        else check (Prompt ''Comma separated list of GitHub users to authorize: '' []) (\<lambda>str.
          ok (c\<lparr>SSHAuthorizedKeys :=
                 SSHAuthorizedKeys c @ map (\<lambda>s. ''github:'' @ TrimSpace s) (Split str CHR '','')\<rparr>))))"

definition AskConfigURL :: asker where
  "AskConfigURL c =
     (if ConfigURL (the_install c) \<noteq> [] then ok c
      else check (PromptBool ''Config system with cloud-init file?'' False) (\<lambda>y.
        if \<not> y then ok c
        else check (Prompt ''cloud-init file location (file path or http URL): '' []) (\<lambda>str.
          ok (set_install (\<lambda>x. x\<lparr>ConfigURL := str\<rparr>) c))))"

definition AskInstall :: asker where
  "AskInstall c =
     (if Silent (the_install c) then ok c
      else check (AskInstallDevice c) (\<lambda>c.
           check (AskConfigURL c) (\<lambda>c.
             if ConfigURL (the_install c) \<noteq> [] then ok c
             else check (AskGithub c) (\<lambda>c.
                  check (AskPassword c) (\<lambda>c.
                  check (AskWifi c) (\<lambda>c.
                  AskServerAgent c))))))"

definition Ask :: "CloudConfig \<Rightarrow> (bool \<times> CloudConfig) result io" where
  "Ask c =
     check isInstall (\<lambda>yes.
       if yes then check (AskInstall c) (\<lambda>c. ok (True, c))
       else check (AskServerAgent c) (\<lambda>c. ok (False, c)))"

subsection \<open>The installation\<close>

text \<open>The parameters are \<^verbatim>\<open>yaml.Marshal\<close> of a map, and of the configuration itself.\<close>

definition install_confirmation :: "bytes \<Rightarrow> string" where
  "install_confirmation b =
     [NL] @ ''Configuration'' @ [NL] @ ''-------------'' @ [NL, NL] @ b @ [NL] @
     ''Your disk will be formatted and EDGI will be installed with the above configuration.'' @ [NL] @ ''Continue?''"

definition run_installer :: "string list \<Rightarrow> unit result io" where
  "run_installer ev = do {
     env \<leftarrow> os_Environ;
     cmd_Run ((exec_Command [''/usr/libexec/edgi/install''])\<lparr>c_env := env @ ev\<rparr>) }"

definition runInstall ::
  "(gmap \<Rightarrow> bytes result) \<Rightarrow> (CloudConfig \<Rightarrow> bytes result) \<Rightarrow> CloudConfig \<Rightarrow> unit result io" where
  "runInstall marshal marshal_config c =
     check (State_Monad.return (PrintInstall marshal c)) (\<lambda>installBytes.
     check (if Silent (the_install c) then ok True else PromptBool (install_confirmation installBytes) False) (\<lambda>go.
       if \<not> go then ok ()
       else if ConfigURL (the_install c) \<noteq> [] then run_installer (ToEnv c)
       else check (ioutil_TempFile ''/tmp'' ''edgi.XXXXXXXX'') (\<lambda>(name, h).
         let c' = set_install (\<lambda>x. x\<lparr>ConfigURL := name\<rparr>) c
         in defer_after
              (case marshal_config (set_edgi (\<lambda>e. e\<lparr>Install := None\<rparr>) c') of
                 Inl e \<Rightarrow> fail e
               | Inr b \<Rightarrow>
                   check (fd_Write h b) (\<lambda>_.
                   check (fd_Close h) (\<lambda>_.
                     defer_after (run_installer (ToEnv c')) (os_Remove name))))
              (fd_Close h))))"

definition runCCApply :: "unit result io" where
  "runCCApply = do {
     a \<leftarrow> os_Args;
     cmd_Run (exec_Command [hd (a @ [[]]), ''config'', ''--install'']) }"

text \<open>The configuration goes to the system's file or, when that cannot be created, the local one.\<close>

definition save_config :: "bytes \<Rightarrow> unit result io" where
  "save_config b = do {
     s \<leftarrow> os_OpenFile SystemConfig O_create 0x1B6;
     check (case s of Inr h \<Rightarrow> ok h | Inl _ \<Rightarrow> os_OpenFile LocalConfig O_create 0x1B6) (\<lambda>f. do {
       r \<leftarrow> fd_Write f b;
       _ \<leftarrow> fd_Close f;
       case r of Inl e \<Rightarrow> fail e | Inr _ \<Rightarrow> runCCApply }) }"

definition cliinstall_Run ::
  "(bytes \<Rightarrow> gmap result) \<Rightarrow> (gmap \<Rightarrow> bytes result) \<Rightarrow> (CloudConfig \<Rightarrow> bytes result) \<Rightarrow> unit result io" where
  "cliinstall_Run unmarshal marshal marshal_config = do {
     print_out ([NL] @ ''Running EDGI configuration'' @ [NL]);
     check (ReadConfig unmarshal) (\<lambda>c.
     check (Ask c) (\<lambda>(inst, c).
       if inst then runInstall marshal marshal_config c
       else check (State_Monad.return (config_ToBytes marshal c)) save_config)) }"

end
