(* ===== verification/Installer.thy ===== *)
theory Installer
  imports CliInstall Traces Demo
begin

text \<open>
  What \<^verbatim>\<open>pkg/cliinstall\<close> promises the person in front of it: the questions fill in what the configuration
  leaves open and change nothing else, and the install script, which formats the disk, runs only after a yes.
\<close>

subsection \<open>Answers\<close>

text \<open>\<open>answers P m\<close>: in every world a result of \<open>m\<close> satisfies \<open>P\<close>; errors are free.\<close>

definition answers :: "('a \<Rightarrow> bool) \<Rightarrow> 'a result io \<Rightarrow> bool" where
  "answers P m \<longleftrightarrow> (\<forall>w. wp m (\<lambda>r _. case r of Inl _ \<Rightarrow> True | Inr a \<Rightarrow> P a) w)"

lemma answers_ok [simp]: "answers P (ok a) = P a"
  by (simp add: answers_def)

lemma answers_fail [simp]: "answers P (fail e)"
  by (simp add: answers_def)

lemma answers_any [simp]: "answers (\<lambda>_. True) m"
  by (simp add: answers_def wp_def split: prod.split sum.split)

lemma answers_mono: "answers P m \<Longrightarrow> (\<And>a. P a \<Longrightarrow> Q a) \<Longrightarrow> answers Q m"
  unfolding answers_def by (auto intro: wp_mono split: sum.splits)

lemma answers_check: "answers P m \<Longrightarrow> (\<And>a. P a \<Longrightarrow> answers Q (f a)) \<Longrightarrow> answers Q (check m f)"
  unfolding answers_def by (auto intro!: wp_checkI split: sum.splits)

lemma answers_bind: "(\<And>a. answers P (f a)) \<Longrightarrow> answers P (State_Monad.bind m f)"
  unfolding answers_def by (auto intro: wp_mono [OF wp_True])

lemma answers_defer: "answers P m \<Longrightarrow> answers P (defer_after m c)"
  unfolding answers_def wp_defer by (auto intro: wp_mono [OF _ wp_mono [OF wp_True]])

lemmas answers_ask = answers_check [OF answers_any]

lemma prompt_run_nonempty: "prompt_run msg d w = (Inr a, u) \<Longrightarrow> a \<noteq> []"
proof (induction msg d w rule: prompt_run.induct)
  case (1 msg d w)
  obtain r v where r: "read_line 0 [] (print_term msg w) = (r, v)" by fastforce
  then show ?case
    using "1.prems" [unfolded prompt_run.simps [of msg d w]] "1.IH" [OF r [symmetric]]
    by (cases r) (fastforce split: if_splits)+
qed

lemma answers_Prompt: "answers (\<lambda>a. a \<noteq> []) (Prompt msg d)"
  unfolding answers_def Prompt_def wp_def by (auto dest: prompt_run_nonempty split: prod.split sum.split)

subsection \<open>The questions only fill in\<close>

text \<open>The fields that are asked for, and the configuration without them.\<close>

definition blanked :: "CloudConfig \<Rightarrow> CloudConfig" where
  "blanked c = set_install (\<lambda>i. i\<lparr>Device := [], ConfigURL := []\<rparr>)
     (set_edgi (\<lambda>e. e\<lparr>Wifi := [], Password := [], ServerURL := [], Token := []\<rparr>) (c\<lparr>SSHAuthorizedKeys := []\<rparr>))"

definition kept :: "'a list \<Rightarrow> 'a list \<Rightarrow> bool" where
  "kept x y \<longleftrightarrow> x = [] \<or> y = x"

lemma kept_simps [simp]: "kept x x" "kept [] y"
  by (simp_all add: kept_def)

lemma kept_trans: "kept x y \<Longrightarrow> kept y z \<Longrightarrow> kept x z"
  by (auto simp: kept_def)

definition fills_in :: "CloudConfig \<Rightarrow> CloudConfig \<Rightarrow> bool" where
  "fills_in c c' \<longleftrightarrow> blanked c' = blanked c \<and>
     kept (Device (the_install c)) (Device (the_install c')) \<and> kept (ConfigURL (the_install c)) (ConfigURL (the_install c')) \<and>
     kept (Wifi (EDGI c)) (Wifi (EDGI c')) \<and> kept (Password (EDGI c)) (Password (EDGI c')) \<and>
     kept (ServerURL (EDGI c)) (ServerURL (EDGI c')) \<and> kept (Token (EDGI c)) (Token (EDGI c')) \<and>
     kept (SSHAuthorizedKeys c) (SSHAuthorizedKeys c')"

lemma fills_in_refl [simp]: "fills_in c c"
  by (simp add: fills_in_def)

lemma fills_in_trans: "fills_in c c' \<Longrightarrow> fills_in c' c'' \<Longrightarrow> fills_in c c''"
  unfolding fills_in_def by (auto intro: kept_trans)

lemma config_selectors [simp]:
  "the_install (set_install f c) = f (the_install c)" "EDGI (set_edgi g c) = g (EDGI c)"
  "SSHAuthorizedKeys (set_install f c) = SSHAuthorizedKeys c" "SSHAuthorizedKeys (set_edgi g c) = SSHAuthorizedKeys c"
  "Wifi (EDGI (set_install f c)) = Wifi (EDGI c)" "Password (EDGI (set_install f c)) = Password (EDGI c)"
  "ServerURL (EDGI (set_install f c)) = ServerURL (EDGI c)" "Token (EDGI (set_install f c)) = Token (EDGI c)"
  "the_install (c\<lparr>SSHAuthorizedKeys := ks\<rparr>) = the_install c"
  by (simp_all add: set_install_def set_edgi_def the_install_def)

lemma the_install_edgi [simp]:
  "the_install (set_edgi (\<lambda>e. e\<lparr>Wifi := ws\<rparr>) c) = the_install c" "the_install (set_edgi (\<lambda>e. e\<lparr>Password := p\<rparr>) c) = the_install c"
  "the_install (set_edgi (\<lambda>e. e\<lparr>ServerURL := u\<rparr>) c) = the_install c" "the_install (set_edgi (\<lambda>e. e\<lparr>Token := t\<rparr>) c) = the_install c"
  by (simp_all add: set_edgi_def the_install_def)

lemmas config_parts = set_install_def set_edgi_def the_install_def blanked_def

lemma fills_in_set:
  "Device (the_install c) = [] \<Longrightarrow> fills_in c (set_install (\<lambda>x. x\<lparr>Device := d\<rparr>) c)"
  "ConfigURL (the_install c) = [] \<Longrightarrow> fills_in c (set_install (\<lambda>x. x\<lparr>ConfigURL := u\<rparr>) c)"
  "Wifi (EDGI c) = [] \<Longrightarrow> fills_in c (set_edgi (\<lambda>e. e\<lparr>Wifi := ws\<rparr>) c)"
  "Password (EDGI c) = [] \<Longrightarrow> fills_in c (set_edgi (\<lambda>e. e\<lparr>Password := p\<rparr>) c)"
  "ServerURL (EDGI c) = [] \<Longrightarrow> fills_in c (set_edgi (\<lambda>e. e\<lparr>ServerURL := s\<rparr>) c)"
  "Token (EDGI c) = [] \<Longrightarrow> fills_in c (set_edgi (\<lambda>e. e\<lparr>Token := t\<rparr>) c)"
  "SSHAuthorizedKeys c = [] \<Longrightarrow> fills_in c (c\<lparr>SSHAuthorizedKeys := ks\<rparr>)"
  by (simp_all add: fills_in_def config_parts)

text \<open>What a server or an agent needs: a server address that was asked for comes with a token.\<close>

definition joined :: "CloudConfig \<Rightarrow> CloudConfig \<Rightarrow> bool" where
  "joined c c' \<longleftrightarrow> (ServerURL (EDGI c) = [] \<and> ServerURL (EDGI c') \<noteq> [] \<longrightarrow> Token (EDGI c') \<noteq> [])"

text \<open>Credentials are asked for only where there are none, and not both kinds.\<close>

definition credentials :: "CloudConfig \<Rightarrow> CloudConfig \<Rightarrow> bool" where
  "credentials c c' \<longleftrightarrow>
     (SSHAuthorizedKeys c \<noteq> [] \<or> Password (EDGI c) \<noteq> [] \<longrightarrow>
        SSHAuthorizedKeys c' = SSHAuthorizedKeys c \<and> Password (EDGI c') = Password (EDGI c)) \<and>
     (SSHAuthorizedKeys c = [] \<and> Password (EDGI c) = [] \<longrightarrow> SSHAuthorizedKeys c' = [] \<or> Password (EDGI c') = [])"

lemma AskInstallDevice_fills: "answers (\<lambda>c'. fills_in c c' \<and> Device (the_install c') \<noteq> [] \<and>
    SSHAuthorizedKeys c' = SSHAuthorizedKeys c \<and> Password (EDGI c') = Password (EDGI c) \<and>
    ServerURL (EDGI c') = ServerURL (EDGI c)) (AskInstallDevice c)"
  unfolding AskInstallDevice_def
  by (auto intro!: answers_bind answers_ask fills_in_set simp: Let_def split: sum.split)

lemma AskConfigURL_fills: "answers (\<lambda>c'. fills_in c c' \<and> Device (the_install c') = Device (the_install c) \<and>
    SSHAuthorizedKeys c' = SSHAuthorizedKeys c \<and> Password (EDGI c') = Password (EDGI c) \<and>
    ServerURL (EDGI c') = ServerURL (EDGI c)) (AskConfigURL c)"
  unfolding AskConfigURL_def by (auto intro!: answers_ask fills_in_set)

lemma AskGithub_fills: "answers (\<lambda>c'. fills_in c c' \<and> Device (the_install c') = Device (the_install c) \<and>
    Password (EDGI c') = Password (EDGI c) \<and> ServerURL (EDGI c') = ServerURL (EDGI c) \<and>
    (SSHAuthorizedKeys c \<noteq> [] \<or> Password (EDGI c) \<noteq> [] \<longrightarrow> c' = c)) (AskGithub c)"
  unfolding AskGithub_def by (auto intro!: answers_ask fills_in_set)

lemma hash_password_fills: "Password (EDGI c) = [] \<Longrightarrow>
    answers (\<lambda>c'. \<exists>p. c' = c \<or> c' = set_edgi (\<lambda>e. e\<lparr>Password := p\<rparr>) c) (hash_password pass c)"
  unfolding hash_password_def
  by (auto intro!: answers_ask answers_defer answers_bind split: option.split sum.split)

lemma AskPassword_fills: "answers (\<lambda>c'. fills_in c c' \<and> Device (the_install c') = Device (the_install c) \<and>
    SSHAuthorizedKeys c' = SSHAuthorizedKeys c \<and> ServerURL (EDGI c') = ServerURL (EDGI c) \<and>
    (SSHAuthorizedKeys c \<noteq> [] \<or> Password (EDGI c) \<noteq> [] \<longrightarrow> c' = c)) (AskPassword c)"
proof (cases "SSHAuthorizedKeys c \<noteq> [] \<or> Password (EDGI c) \<noteq> []")
  case False
  have "answers (\<lambda>c'. fills_in c c' \<and> Device (the_install c') = Device (the_install c) \<and>
      SSHAuthorizedKeys c' = SSHAuthorizedKeys c \<and> ServerURL (EDGI c') = ServerURL (EDGI c)) (hash_password p c)" for p
    by (rule answers_mono [OF hash_password_fills]) (use False in \<open>auto intro: fills_in_set\<close>)
  then show ?thesis
    unfolding AskPassword_def using False by (auto intro!: answers_ask answers_bind fills_in_set)
qed (simp add: AskPassword_def)

lemma AskWifi_fills: "answers (\<lambda>c'. fills_in c c' \<and> Device (the_install c') = Device (the_install c) \<and>
    SSHAuthorizedKeys c' = SSHAuthorizedKeys c \<and> Password (EDGI c') = Password (EDGI c) \<and>
    ServerURL (EDGI c') = ServerURL (EDGI c)) (AskWifi c)"
  unfolding AskWifi_def by (auto intro!: answers_ask fills_in_set)

lemma AskToken_fills: "answers (\<lambda>c'. fills_in c c' \<and> Device (the_install c') = Device (the_install c) \<and>
    SSHAuthorizedKeys c' = SSHAuthorizedKeys c \<and> Password (EDGI c') = Password (EDGI c) \<and>
    ServerURL (EDGI c') = ServerURL (EDGI c) \<and> (\<not> server \<longrightarrow> Token (EDGI c') \<noteq> [])) (AskToken server c)"
proof (cases server)
  case False
  then show ?thesis
    unfolding AskToken_def by (auto intro!: answers_check [OF answers_Prompt] fills_in_set)
qed (auto simp: AskToken_def intro!: answers_ask fills_in_set)

lemma AskServerAgent_fills: "answers (\<lambda>c'. fills_in c c' \<and> Device (the_install c') = Device (the_install c) \<and>
    SSHAuthorizedKeys c' = SSHAuthorizedKeys c \<and> Password (EDGI c') = Password (EDGI c) \<and> joined c c') (AskServerAgent c)"
proof (cases "ServerURL (EDGI c) = []")
  case True
  have agent: "answers (\<lambda>c'. fills_in c c' \<and> Device (the_install c') = Device (the_install c) \<and>
      SSHAuthorizedKeys c' = SSHAuthorizedKeys c \<and> Password (EDGI c') = Password (EDGI c) \<and> joined c c')
      (AskToken False (set_edgi (\<lambda>e. e\<lparr>ServerURL := url\<rparr>) c))" for url
    by (rule answers_mono [OF AskToken_fills])
      (auto simp: joined_def intro: fills_in_trans [OF fills_in_set(5) [OF True]])
  have "answers (\<lambda>c'. fills_in c c' \<and> Device (the_install c') = Device (the_install c) \<and>
      SSHAuthorizedKeys c' = SSHAuthorizedKeys c \<and> Password (EDGI c') = Password (EDGI c) \<and> joined c c') (AskToken True c)"
    by (rule answers_mono [OF AskToken_fills]) (auto simp: joined_def)
  then show ?thesis
    unfolding AskServerAgent_def using agent True by (auto intro!: answers_ask)
qed (simp add: AskServerAgent_def joined_def)


definition filled_in :: "CloudConfig \<Rightarrow> CloudConfig \<Rightarrow> bool" where
  "filled_in c c' \<longleftrightarrow> fills_in c c' \<and> credentials c c' \<and> joined c c'"

lemma AskInstall_fills: "answers (\<lambda>c'. filled_in c c' \<and> (Silent (the_install c) \<or> Device (the_install c') \<noteq> [])) (AskInstall c)"
proof (cases "Silent (the_install c)")
  case True
  then show ?thesis by (auto simp: AskInstall_def filled_in_def credentials_def joined_def)
next
  case False
  show ?thesis
    unfolding AskInstall_def if_not_P [OF False]
  proof (rule answers_check [OF AskInstallDevice_fills], rule answers_check [OF AskConfigURL_fills], elim conjE)
    fix c1 c2
    assume 1: "fills_in c c1" "fills_in c1 c2" "Device (the_install c1) \<noteq> []" "Device (the_install c2) = Device (the_install c1)"
      "SSHAuthorizedKeys c1 = SSHAuthorizedKeys c" "SSHAuthorizedKeys c2 = SSHAuthorizedKeys c1"
      "Password (EDGI c1) = Password (EDGI c)" "Password (EDGI c2) = Password (EDGI c1)"
      "ServerURL (EDGI c1) = ServerURL (EDGI c)" "ServerURL (EDGI c2) = ServerURL (EDGI c1)"
    have 2: "fills_in c c2" using fills_in_trans 1(1,2) .
    let ?P = "\<lambda>c'. filled_in c c' \<and> (Silent (the_install c) \<or> Device (the_install c') \<noteq> [])"
    have "answers ?P (check (AskGithub c2) (\<lambda>c. check (AskPassword c) (\<lambda>c. check (AskWifi c) AskServerAgent)))"
    proof (rule answers_check [OF AskGithub_fills], rule answers_check [OF AskPassword_fills],
        rule answers_check [OF AskWifi_fills], rule answers_mono [OF AskServerAgent_fills], elim conjE)
      fix c3 c4 c5 c6
      assume f: "fills_in c2 c3" "fills_in c3 c4" "fills_in c4 c5" "fills_in c5 c6"
        and d: "Device (the_install c3) = Device (the_install c2)" "Device (the_install c4) = Device (the_install c3)"
          "Device (the_install c5) = Device (the_install c4)" "Device (the_install c6) = Device (the_install c5)"
        and p: "Password (EDGI c3) = Password (EDGI c2)" "Password (EDGI c5) = Password (EDGI c4)" "Password (EDGI c6) = Password (EDGI c5)"
        and k: "SSHAuthorizedKeys c4 = SSHAuthorizedKeys c3" "SSHAuthorizedKeys c5 = SSHAuthorizedKeys c4" "SSHAuthorizedKeys c6 = SSHAuthorizedKeys c5"
        and u: "ServerURL (EDGI c3) = ServerURL (EDGI c2)" "ServerURL (EDGI c4) = ServerURL (EDGI c3)" "ServerURL (EDGI c5) = ServerURL (EDGI c4)"
        and q: "SSHAuthorizedKeys c2 \<noteq> [] \<or> Password (EDGI c2) \<noteq> [] \<longrightarrow> c3 = c2"
          "SSHAuthorizedKeys c3 \<noteq> [] \<or> Password (EDGI c3) \<noteq> [] \<longrightarrow> c4 = c3"
        and j: "joined c5 c6"
      have "fills_in c c6" by (intro fills_in_trans [OF 2] fills_in_trans [OF f(1)] fills_in_trans [OF f(2)] fills_in_trans [OF f(3)] f(4))
      moreover have "credentials c c6" unfolding credentials_def using 1 p k q by (metis (no_types))
      moreover have "joined c c6" using j u 1 by (simp add: joined_def)
      ultimately show "?P c6" using d 1(3,4) by (simp add: filled_in_def)
    qed
    then show "answers ?P (if ConfigURL (the_install c2) \<noteq> [] then ok c2
        else check (AskGithub c2) (\<lambda>c. check (AskPassword c) (\<lambda>c. check (AskWifi c) AskServerAgent)))"
      using 1 2 by (auto simp: filled_in_def credentials_def joined_def)
  qed
qed

lemma Ask_fills:
  "answers (\<lambda>(inst, c'). filled_in c c' \<and> (inst \<and> \<not> Silent (the_install c) \<longrightarrow> Device (the_install c') \<noteq> [])) (Ask c)"
proof -
  have s: "answers (\<lambda>c'. filled_in c c') (AskServerAgent c)"
    by (rule answers_mono [OF AskServerAgent_fills]) (auto simp: filled_in_def credentials_def)
  show ?thesis
    unfolding Ask_def
    by (auto intro!: answers_ask answers_check [OF AskInstall_fills] answers_check [OF s])
qed

subsection \<open>The disk is formatted only after a yes\<close>

text \<open>Questions are printed; nothing else happens while they are asked.\<close>

fun asking :: "event \<Rightarrow> bool" where
  "asking (EvPrint _) = True"
| "asking (EvOther _ _) = True"
| "asking _ = False"

definition only_asks :: "world \<Rightarrow> world \<Rightarrow> bool" where
  "only_asks w w' \<longleftrightarrow> files w' = files w \<and> environ w' = environ w \<and> adds asking w w'"

interpretation ask: step_order only_asks
  by unfold_locales (auto simp: only_asks_def)

lemma read_line_asks: "read_line b acc w = (r, w') \<Longrightarrow> only_asks w w'"
proof (induction b acc w rule: read_line.induct)
  case (1 b acc w)
  obtain x v where x: "stdin_read (bufio_size - b mod bufio_size) w = (x, v)" by fastforce
  have q: "only_asks w v" using x by (auto simp: stdin_read_def only_asks_def split: list.splits if_splits)
  show ?case
    using "1.prems" [unfolded read_line.simps [of b acc w]] "1.IH" [OF x [symmetric]] x q
    by (cases x) (auto intro: ask.trans split: if_splits)
qed

lemma print_asks: "only_asks w (print_term m w)"
  by (auto simp: only_asks_def print_term_def)

lemma prompt_run_only_asks: "prompt_run msg d w = (r, w') \<Longrightarrow> only_asks w w'"
proof (induction msg d w rule: prompt_run.induct)
  case (1 msg d w)
  obtain x v where x: "read_line 0 [] (print_term msg w) = (x, v)" by fastforce
  have q: "only_asks w v" by (rule ask.trans [OF print_asks read_line_asks [OF x]])
  show ?case
    using "1.prems" [unfolded prompt_run.simps [of msg d w]] "1.IH" [OF x [symmetric]] x q
    by (cases x) (auto intro: ask.trans split: if_splits)
qed

lemma bool_run_asks: "bool_run msg d w = (r, w') \<Longrightarrow> only_asks w w'"
proof (induction msg d w rule: bool_run.induct)
  case (1 msg d w)
  obtain x v where x: "prompt_run msg d w = (x, v)" by fastforce
  let ?v = "v\<lparr>trace := trace v @ [EvPrint (''Enter y or n'' @ [NL])]\<rparr>"
  have q: "only_asks w v" by (rule prompt_run_only_asks [OF x])
  have q': "only_asks w ?v" by (rule ask.trans [OF q]) (auto simp: only_asks_def)
  show ?case
    using "1.prems" [unfolded bool_run.simps [of msg d w]] "1.IH" [OF x [symmetric]] x q ask.trans [OF q']
    by (cases x) (auto split: if_splits)
qed

lemma wp_PromptBool: "wp (PromptBool m d) (\<lambda>r u. only_asks w u \<and> r = fst (run_state (PromptBool m d) w)) w"
  by (auto simp: wp_def PromptBool_def split: prod.split dest: bool_run_asks)

text \<open>Files are made and written without a trace, and without changing the variables.\<close>

definition still :: "world \<Rightarrow> world \<Rightarrow> bool" where
  "still w w' \<longleftrightarrow> trace w' = trace w \<and> environ w' = environ w"

interpretation st: step_order still
  by unfold_locales (auto simp: still_def)

lemma still_sysc: "(\<And>w a w'. f w = Inr (a, w') \<Longrightarrow> still w w') \<Longrightarrow> within still (sysc op s f)"
  by (rule withinI) (fastforce simp: sysc_def still_def split: option.splits sum.splits)

lemma still_calls: "within still (os_OpenFile p fl mo)" "within still (fd_Close h)" "within still (fd_Write h b)"
  "within still (sys_unlink p)" "within still (sys_rmdir p)"
proof -
  have at: "within still (at_path op s fl f)" if "\<And>p n w a w'. f p n w = Inr (a, w') \<Longrightarrow> still w w'" for op s fl f
    unfolding at_path_def by (rule still_sysc) (use that in \<open>auto split: sum.splits\<close>)
  show "within still (os_OpenFile p fl mo)" "within still (sys_unlink p)" "within still (sys_rmdir p)"
    unfolding os_OpenFile_def sys_unlink_def sys_rmdir_def
    by (rule at; auto simp: still_def split: option.splits if_splits node.splits)+
  show "within still (fd_Close h)" unfolding fd_Close_def by (rule still_sysc) (auto simp: still_def)
  show "within still (fd_Write h b)"
    by (rule withinI) (auto simp: fd_Write_def still_def split: option.splits)
qed

lemma still_wp: "within still m \<Longrightarrow> wp m (\<lambda>_. still w) w"
  by (simp add: within_wp)

lemma still_TempFile: "within still (ioutil_TempFile dir pat)"
proof -
  have "within still (temp_file_try k pre suf)" for k pre suf
    by (induction k) (auto intro!: st.within_intros still_calls simp: Let_def)
  then show ?thesis by (auto simp: ioutil_TempFile_def intro!: st.within_intros)
qed

lemma still_Remove: "within still (os_Remove p)"
  unfolding os_Remove_def by (intro st.within_intros still_calls)

definition confirmed :: "(gmap \<Rightarrow> bytes result) \<Rightarrow> CloudConfig \<Rightarrow> world \<Rightarrow> bool" where
  "confirmed marshal c w \<longleftrightarrow>
     (case PrintInstall marshal c of
        Inl _ \<Rightarrow> False
      | Inr b \<Rightarrow> Silent (the_install c) \<or> fst (run_state (PromptBool (install_confirmation b) False) w) = Inr True)"

text \<open>The install script with the variables of \<open>w\<close> and of the configuration, which is at \<open>url\<close>.\<close>

definition installer :: "world \<Rightarrow> CloudConfig \<Rightarrow> string \<Rightarrow> command" where
  "installer w c url = (exec_Command [''/usr/libexec/edgi/install''])\<lparr>
     c_env := map (\<lambda>(k, v). k @ ''='' @ v) (environ w) @ ToEnv (set_install (\<lambda>i. i\<lparr>ConfigURL := url\<rparr>) c)\<rparr>"


lemma wp_run_installer:
  "wp (run_installer ev) (\<lambda>_ u. trace u = trace w @ [EvExec ((exec_Command [''/usr/libexec/edgi/install''])\<lparr>
     c_env := map (\<lambda>(k, v). k @ ''='' @ v) (environ w) @ ev\<rparr>)]) w"
  by (simp add: run_installer_def os_Environ_def cmd_Run_def cmd_CombinedOutput_def wp_def split: prod.split)

text \<open>What is seen of an installation: questions, then at most one run of the script.\<close>

definition install_events :: "world \<Rightarrow> CloudConfig \<Rightarrow> world \<Rightarrow> bool" where
  "install_events w c u \<longleftrightarrow> (\<exists>asked acts url. trace u = trace w @ asked @ acts \<and> list_all asking asked \<and>
     kept (ConfigURL (the_install c)) url \<and> (acts = [] \<or> acts = [EvExec (installer w c url)]))"

lemma install_events_asked: "only_asks w u \<Longrightarrow> install_events w c u"
  unfolding install_events_def only_asks_def by (metis append_Nil2 kept_simps(1))

lemma install_events_still: "install_events w c u \<Longrightarrow> still u v \<Longrightarrow> install_events w c v"
  by (simp add: install_events_def still_def)

lemma install_events_run:
  assumes u: "only_asks w v" "still v u" and url: "kept (ConfigURL (the_install c)) url"
  shows "wp (run_installer (ToEnv (set_install (\<lambda>i. i\<lparr>ConfigURL := url\<rparr>) c))) (\<lambda>_. install_events w c) u"
proof (rule wp_mono [OF wp_run_installer])
  fix r and v' :: world assume t: "trace v' = trace u @ [EvExec ((exec_Command [''/usr/libexec/edgi/install''])\<lparr>
     c_env := map (\<lambda>(k, v). k @ ''='' @ v) (environ u) @ ToEnv (set_install (\<lambda>i. i\<lparr>ConfigURL := url\<rparr>) c)\<rparr>)]"
  obtain evs where "trace u = trace w @ evs" "list_all asking evs" "environ u = environ w"
    using u by (auto simp: only_asks_def still_def)
  then show "install_events w c v'"
    unfolding install_events_def
    using t url by (intro exI [of _ evs] exI [of _ "[EvExec (installer w c url)]"] exI [of _ url]) (simp add: installer_def)
qed

text \<open>The part behind the confirmation.\<close>

lemma install_events_later:
  "within still m \<Longrightarrow> install_events w c u \<Longrightarrow> wp m (\<lambda>_. install_events w c) u"
  by (rule wp_mono [OF still_wp]) (auto intro: install_events_still)

lemma install_written:
  assumes v: "only_asks w v" and c: "ConfigURL (the_install c) = []" and u: "still v u"
  shows "wp (check (fd_Write h b) (\<lambda>_. check (fd_Close h) (\<lambda>_.
      defer_after (run_installer (ToEnv (set_install (\<lambda>x. x\<lparr>ConfigURL := name\<rparr>) c))) (os_Remove name)))) (\<lambda>_. install_events w c) u"
proof (rule wp_checkI [OF still_wp [OF still_calls(3)]], goal_cases)
  case (1 e u1)
  then show ?case by (rule install_events_still [OF install_events_asked [OF v] st.trans [OF u]])
next
  case (2 n u1)
  show ?case
  proof (rule wp_checkI [OF still_wp [OF still_calls(2)]], goal_cases)
    case (1 e u2)
    then show ?case by (rule install_events_still [OF install_events_asked [OF v] st.trans [OF u st.trans [OF 2]]])
  next
    case (2 x u2)
    have "still v u2" by (rule st.trans [OF u st.trans [OF \<open>still u u1\<close> 2]])
    then show ?case
      by (intro wp_deferI [OF install_events_run [OF v]] install_events_later [OF still_Remove]) (simp_all add: c)
  qed
qed

lemma install_temp:
  assumes v: "only_asks w v" and c: "ConfigURL (the_install c) = []"
  shows "wp (check (ioutil_TempFile ''/tmp'' ''edgi.XXXXXXXX'') (\<lambda>(name, h).
         let c' = set_install (\<lambda>x. x\<lparr>ConfigURL := name\<rparr>) c
         in defer_after
              (case mc (set_edgi (\<lambda>e. e\<lparr>Install := None\<rparr>) c') of
                 Inl e \<Rightarrow> fail e
               | Inr b \<Rightarrow>
                   check (fd_Write h b) (\<lambda>_.
                   check (fd_Close h) (\<lambda>_.
                     defer_after (run_installer (ToEnv c')) (os_Remove name))))
              (fd_Close h))) (\<lambda>_. install_events w c) v"
proof (rule wp_checkI [OF still_wp [OF still_TempFile]], goal_cases)
  case (2 a u)
  obtain name h where a: "a = (name, h)" by (cases a)
  show ?case
    unfolding a prod.case Let_def
  proof (rule wp_deferI [where R = "\<lambda>_. install_events w c"])
    show "wp (case mc (set_edgi (\<lambda>e. e\<lparr>Install := None\<rparr>) (set_install (\<lambda>x. x\<lparr>ConfigURL := name\<rparr>) c)) of
        Inl e \<Rightarrow> fail e
      | Inr b \<Rightarrow> check (fd_Write h b) (\<lambda>_. check (fd_Close h) (\<lambda>_.
          defer_after (run_installer (ToEnv (set_install (\<lambda>x. x\<lparr>ConfigURL := name\<rparr>) c))) (os_Remove name))))
        (\<lambda>_. install_events w c) u"
      using install_written [OF v c 2] install_events_still [OF install_events_asked [OF v] 2] by (auto simp del: wp_check split: sum.split)
  qed (rule install_events_later [OF still_calls(2)])
qed (rule install_events_still [OF install_events_asked [OF v]])

lemma set_install_same: "ConfigURL (the_install c) \<noteq> [] \<Longrightarrow> set_install (\<lambda>i. i\<lparr>ConfigURL := ConfigURL (the_install c)\<rparr>) c = c"
  by (auto simp: set_install_def set_edgi_def the_install_def empty_install_def split: option.splits)

text \<open>C21: The disk is formatted only after a yes. An installation asks, and then runs the install script at most once; without a yes, or a
  configuration that says to install silently, nothing runs and no file changes. The script gets the configuration that was shown,
  with the place where it lies: the one given, or a temporary file.\<close>

theorem runInstall_confirmed:
  "wp (runInstall marshal marshal_config c) (\<lambda>_ u. install_events w c u \<and> (confirmed marshal c w \<or> only_asks w u)) w"
proof (cases "PrintInstall marshal c")
  case (Inl e)
  then show ?thesis by (simp add: runInstall_def install_events_asked [OF ask.refl] ask.refl)
next
  case (Inr b)
  let ?go = "if Silent (the_install c) then ok True else PromptBool (install_confirmation b) False"
  have go: "wp ?go (\<lambda>r u. only_asks w u \<and> (r = Inr True \<longrightarrow> confirmed marshal c w)) w"
    by (auto simp: confirmed_def Inr ask.refl intro: wp_mono [OF wp_PromptBool])
  have go_on: "wp (if ConfigURL (the_install c) \<noteq> [] then run_installer (ToEnv c)
      else check (ioutil_TempFile ''/tmp'' ''edgi.XXXXXXXX'') (\<lambda>(name, h).
         let c' = set_install (\<lambda>x. x\<lparr>ConfigURL := name\<rparr>) c
         in defer_after
              (case marshal_config (set_edgi (\<lambda>e. e\<lparr>Install := None\<rparr>) c') of
                 Inl e \<Rightarrow> fail e
               | Inr b \<Rightarrow>
                   check (fd_Write h b) (\<lambda>_.
                   check (fd_Close h) (\<lambda>_.
                     defer_after (run_installer (ToEnv c')) (os_Remove name))))
              (fd_Close h))) (\<lambda>_ u. install_events w c u) v" if "only_asks w v" for v
    using install_events_run [OF that st.refl, of c "ConfigURL (the_install c)"] install_temp [OF that, of c marshal_config]
      set_install_same [of c] by (cases "ConfigURL (the_install c) = []") (simp_all del: wp_check)
  show ?thesis
    unfolding runInstall_def Inr
  proof (simp only: wp_check [of "State_Monad.return _"] wp_return sum.case, rule wp_checkI [OF go], goal_cases)
    case (1 e u)
    then show ?case by (auto intro: install_events_asked)
  next
    case (2 a u)
    then show ?case
      using wp_mono [OF go_on] by (cases a) (auto intro: install_events_asked simp del: wp_check wp_if)
  qed
qed

text \<open>C26: The questions fill in what is missing. Whatever is answered, the configuration that comes back has every value the
  old one had; only the device, the location of a configuration, networks, credentials, server and token are
  filled in. Credentials are asked for only where there are none, never both kinds; a server address that was asked
  for comes with a token; and an installation has a device.\<close>

theorem Ask_fills_in:
  "wp (Ask c) (\<lambda>r _. case r of Inl _ \<Rightarrow> True
     | Inr (inst, c') \<Rightarrow> filled_in c c' \<and> (inst \<longrightarrow> Silent (the_install c) \<or> Device (the_install c') \<noteq> [])) w"
  by (rule wp_mono [OF Ask_fills [unfolded answers_def, rule_format]]) (auto split: sum.splits)

text \<open>A live agent, and what is typed there.\<close>

definition agent_demo :: world where
  "agent_demo = (demo_world (([''run''], Dir demo_meta) # ([''run'', ''edgi''], Dir demo_meta) #
      ([''run'', ''edgi'', ''mode''], Reg demo_meta ''live-agent'') # demo_files) (\<lambda>_. None))
    \<lparr>stdin := [''https://s'' @ [NL], ''secret'' @ [NL]]\<rparr>"

lemma agent_mode:
  assumes "files w = files agent_demo" "calm w"
  shows "wp (mode_Get []) (\<lambda>r u. r = Inr ''live-agent'' \<and> u = tick w) w"
proof -
  have p: "''/run/edgi/mode'' = abs_string ([''run'', ''edgi''] @ [''mode''])" by (simp add: abs_string_def)
  have d: "real_dirs (files w) [''run'', ''edgi'']" "look (files w) ([''run'', ''edgi''] @ [''mode'']) = Some (Reg demo_meta ''live-agent'')"
    using assms(1) by (simp_all add: agent_demo_def demo_defs real_dirs_def dir_at_iff)
  have t: "TrimSpace ''live-agent'' = ''live-agent''" by (rule TrimSpace_wordy) (simp add: less_char_def)
  show ?thesis
    unfolding mode_Get_def mode_path wp_bind ioutil_ReadFile_def p
    by (rule wp_at_path_fair [OF resolve_notlink [OF d(1)]]) (use assms(2) d in \<open>simp_all add: plain_name_def t\<close>)
qed

theorem Ask_fills_in_witness:
  "\<exists>c'. fst (run_state (Ask empty_config) agent_demo) = Inr (False, c') \<and> filled_in empty_config c' \<and>
     ServerURL (EDGI c') = ''https://s'' \<and> Token (EDGI c') = ''secret''"
proof -
  let ?c = "set_edgi (\<lambda>e. e\<lparr>Token := ''secret''\<rparr>) (set_edgi (\<lambda>e. e\<lparr>ServerURL := ''https://s''\<rparr>) empty_config)"
  have calm: "calm agent_demo" by (simp add: agent_demo_def demo_defs calm_def)
  have 1: "wordy ''https://s''" "wordy ''secret''" by (simp_all add: wordy_def less_char_def)
  have u: "prompt_run m [] v = (Inr ''https://s'', (print_term m v)\<lparr>stdin := [''secret'' @ [NL]]\<rparr>)"
    if "stdin v = stdin agent_demo" for m v
    by (rule prompt_answer) (use that 1 in \<open>simp_all add: agent_demo_def bufio_size_def\<close>)
  have t: "prompt_run m [] v = (Inr ''secret'', (print_term m v)\<lparr>stdin := []\<rparr>)" if "stdin v = [''secret'' @ [NL]]" for m v
    by (rule prompt_answer) (use that 1 in \<open>simp_all add: bufio_size_def\<close>)
  have e: "ServerURL (EDGI empty_config) = []" "Token (EDGI empty_config) = []"
    by (simp_all add: empty_config_def empty_edgi_def)
  have s: "stdin (tick v) = stdin v" for v by (simp add: tick_def)
  have 2: "wp (AskServerAgent empty_config) (\<lambda>r _. r = Inr ?c) v" if "files v = files agent_demo" "calm v" "stdin v = stdin agent_demo" for v
    unfolding AskServerAgent_def isServer_def AskToken_def
    by (auto simp: e that(3) u t s Prompt_def wp_def[of "State _"] intro!: wp_mono [OF agent_mode [OF that(1,2)]])
  have "wp (Ask empty_config) (\<lambda>r _. r = Inr (False, ?c)) agent_demo"
    unfolding Ask_def isInstall_def
    by (auto simp: s intro!: wp_mono [OF agent_mode [OF HOL.refl calm]] wp_mono [OF 2] calm)
  with Ask_fills_in [of empty_config agent_demo] show ?thesis
    by (auto simp: wp_def split: prod.splits)
qed

end
