(* ===== verification/EnterChroot.thy ===== *)
theory EnterChroot
  imports Upgrade
begin

text \<open>
  \<^verbatim>\<open>pkg/enterchroot\<close>: entering the root of the system. \<open>Mount\<close> finds the image (an
  environment variable, a file beside the program, or the program's own tail after a magic
  string), attaches it to a loop device and starts the program again as \<^verbatim>\<open>enter-root\<close>; that
  runs \<open>Enter\<close>, which mounts the image below the data directory, pivots into it and becomes
  \<^verbatim>\<open>/usr/init\<close>. The level of the log is the argument \<open>debug\<close>; the goroutine that marks the
  loop device for automatic release three seconds later is left out.
\<close>

subsection \<open>Device nodes\<close>

text \<open>\<^verbatim>\<open>int((major << 8) | (minor & 0xff) | ((minor & 0xfff00) << 12))\<close>, in 64 bits.\<close>

definition loop_dev :: "64 word \<Rightarrow> 64 word \<Rightarrow> 64 word" where
  "loop_dev major minor = push_bit 8 major OR (minor AND 0xFF) OR push_bit 12 (minor AND 0xFFF00)"

definition enter_mknod :: "string \<Rightarrow> mode \<Rightarrow> 64 word \<Rightarrow> 64 word \<Rightarrow> unit result io" where
  "enter_mknod p mo major minor = do {
     s \<leftarrow> os_Stat p;
     case s of Inr _ \<Rightarrow> ok () | Inl _ \<Rightarrow> unix_Mknod p mo (sint (loop_dev major minor)) }"

subsection \<open>The pseudo file systems\<close>

definition mountProc :: "unit result io" where
  "mountProc = do {
     m \<leftarrow> mount_Mounted ''/proc'';
     if m = Inr True then ok ()
     else check (os_MkdirAll ''/proc'' 0x1ED) (\<lambda>_. mount_ForceMount ''proc'' ''/proc'' ''proc'' []) }"

definition mountDev :: "unit result io" where
  "mountDev = do {
     l \<leftarrow> ioutil_ReadDir ''/dev'';
     if (case l of Inr fs \<Rightarrow> length fs > 2 | Inl _ \<Rightarrow> False) then ok ()
     else check (os_MkdirAll ''/dev'' 0x1ED) (\<lambda>_. mount_ForceMount ''none'' ''/dev'' ''devtmpfs'' []) }"

definition wrap_result :: "string \<Rightarrow> 'a result io \<Rightarrow> 'a result io" where
  "wrap_result s m = do {
     r \<leftarrow> m;
     State_Monad.return (case r of Inl e \<Rightarrow> Inl (Wrapped s e) | Inr a \<Rightarrow> Inr a) }"

definition ensureloop :: "unit result io" where
  "ensureloop =
     check (wrap_result ''failed to mount proc'' mountProc) (\<lambda>_.
     check (wrap_result ''failed to mount dev'' mountDev) (\<lambda>_. do {
       _ \<leftarrow> cmd_Run (exec_Command [''modprobe'', ''loop'']);
       check (enter_mknod ''/dev/loop-control'' (0x1C0 OR S_IFCHR) 10 237) (\<lambda>_.
         for_check [0..<7] (\<lambda>i. enter_mknod (''/dev/loop'' @ Itoa (int i)) (0x1C0 OR S_IFBLK) 7 (word_of_nat i))) }))"

subsection \<open>The image in the program's own file\<close>

definition magic :: string where "magic = ''_SQMAGIC_''"

text \<open>The inner loop, over the bytes of a buffer: the state is \<open>found\<close> and \<open>offset\<close>; \<open>Inl\<close> is the
  position returned.\<close>

fun scan_magic :: "bytes \<Rightarrow> bytes \<Rightarrow> nat \<times> nat \<Rightarrow> nat + (nat \<times> nat)" where
  "scan_magic test [] st = Inr st"
| "scan_magic test (b # bs) (found, offset) =
     (if found < length test \<and> b = test ! found
      then if Suc found = length test then Inl (offset + 1)
           else scan_magic test bs (Suc found, offset + 1)
      else scan_magic test bs (0, offset + 1))"

text \<open>A read of at most \<open>n\<close> bytes of an open file at its position.\<close>

definition fd_Read :: "path \<Rightarrow> nat \<Rightarrow> nat \<Rightarrow> bytes result io" where
  "fd_Read h off n = sysc ''read'' (abs_string h) (\<lambda>w.
     let data = (case look (files w) h of Some (Reg _ c) \<Rightarrow> c | _ \<Rightarrow> [])
     in Inr (take n (drop off data), w))"

definition reexec_Self :: string where "reexec_Self = ''/proc/self/exe''"

text \<open>The outer loop: the read at the end of the file returns no byte and \<^verbatim>\<open>io.EOF\<close>. The loop has
  \<open>k\<close> rounds; \<open>inFile\<close> gives it more than the file has buffers.\<close>

fun inFile_loop :: "nat \<Rightarrow> path \<Rightarrow> nat \<Rightarrow> bytes \<Rightarrow> nat \<times> nat \<Rightarrow> (string \<times> nat) result io" where
  "inFile_loop 0 h pos test st = fail (Sys ''read'' (abs_string h) EINVAL)"
| "inFile_loop (Suc k) h pos test st =
     check (fd_Read h pos 8192) (\<lambda>buf.
       if buf = [] then do {
         args \<leftarrow> os_Args;
         fail (Msg (''failed to find image in file '' @ hd (args @ [[]]))) }
       else (case scan_magic test buf st of
               Inl off \<Rightarrow> ok (reexec_Self, off)
             | Inr st' \<Rightarrow> inFile_loop k h (pos + length buf) test st'))"

definition inFile :: "(string \<times> nat) result io" where
  "inFile =
     check (os_Open reexec_Self) (\<lambda>h. do {
       w \<leftarrow> State_Monad.get;
       let data = (case look (files w) h of Some (Reg _ c) \<Rightarrow> c | _ \<Rightarrow> []);
       defer_after (inFile_loop (length data div 8192 + 2) h 0 (ToLower magic) (0, 0)) (fd_Close h) })"

fun find_beside :: "string \<Rightarrow> string list \<Rightarrow> string option io" where
  "find_beside prog [] = State_Monad.return None"
| "find_beside prog (suf # sufs) = do {
     s \<leftarrow> os_Stat (prog @ suf);
     case s of Inr _ \<Rightarrow> State_Monad.return (Some (prog @ suf)) | Inl _ \<Rightarrow> find_beside prog sufs }"

definition findRoot :: "(string \<times> nat) result io" where
  "findRoot = do {
     root \<leftarrow> os_Getenv ''ENTER_ROOT'';
     if root \<noteq> [] then ok (root, 0)
     else do {
       args \<leftarrow> os_Args;
       t \<leftarrow> find_beside (hd (args @ [[]])) [''.root'', ''.squashfs''];
       case t of Some p \<Rightarrow> ok (p, 0) | None \<Rightarrow> inFile } }"

subsection \<open>Starting \<^verbatim>\<open>enter-root\<close>\<close>

definition isDebug :: "string \<Rightarrow> bool io" where
  "isDebug debugCmdline = do {
     d \<leftarrow> os_Getenv ''ENTER_DEBUG'';
     if d = ''true'' then State_Monad.return True
     else if debugCmdline = [] then State_Monad.return False
     else do {
       r \<leftarrow> ioutil_ReadFile ''/proc/cmdline'';
       State_Monad.return (case r of Inl _ \<Rightarrow> False | Inr b \<Rightarrow> debugCmdline \<in> set (Fields b)) } }"

text \<open>\<^verbatim>\<open>losetup.Attach\<close> read-only: the backing file must open; which device is free is the
  kernel's choice.\<close>

definition losetup_Attach :: "string \<Rightarrow> nat \<Rightarrow> string result io" where
  "losetup_Attach backing offset =
     check (os_Open backing) (\<lambda>h.
       sysc ''loop'' backing (\<lambda>w.
         let dev = ''/dev/loop'' @ Itoa (uint (rnd w (clock w)))
         in Inr (dev, w\<lparr>trace := trace w @ [EvOther ''loop-attach'' [dev, backing, Itoa (int offset)]]\<rparr>)))"

definition losetup_Detach :: "string \<Rightarrow> unit io" where
  "losetup_Detach dev = emit (EvOther ''loop-detach'' [dev])"

definition enter_command :: "string list \<Rightarrow> string list \<Rightarrow> string list \<Rightarrow> command" where
  "enter_command progArgs args env =
     \<lparr>c_path = hd (progArgs @ [[]]), c_args = ''enter-root'' # tl args, c_env = env, c_stdin = []\<rparr>"

text \<open>The value says whether the new program took this one's place: then nothing after the call
  runs, deferred calls included.\<close>

definition enter_start :: "string list \<Rightarrow> bool result io" where
  "enter_start args = do {
     progArgs \<leftarrow> os_Args;
     pid \<leftarrow> os_Getpid;
     env \<leftarrow> os_Environ;
     let cmd = enter_command progArgs args env;
     if pid = 1
     then do {
       e \<leftarrow> syscall_Exec cmd;
       State_Monad.return (case e of Inl e \<Rightarrow> Inl (Wrapped ''failed to exec enter-root'' e) | Inr _ \<Rightarrow> Inr True) }
     else check (cmd_Run cmd) (\<lambda>_. ok False) }"

definition defer_unless_replaced :: "bool result io \<Rightarrow> unit io \<Rightarrow> bool result io" where
  "defer_unless_replaced m c = do {
     r \<leftarrow> m;
     if r = Inr True then State_Monad.return r else do { c; State_Monad.return r } }"

definition enter_Mount :: "string \<Rightarrow> bool \<Rightarrow> string \<Rightarrow> string list \<Rightarrow> bool result io" where
  "enter_Mount debugCmdline debug dataDir args =
     check ensureloop (\<lambda>_. do {
       d \<leftarrow> isDebug debugCmdline;
       (if debug \<or> d then os_Setenv ''ENTER_DEBUG'' ''true'' else skip);
       check findRoot (\<lambda>(root, offset). do {
         os_Setenv ''ENTER_DATA'' dataDir;
         os_Setenv ''ENTER_ROOT'' root;
         check (wrap_result (''failed to find '' @ root) (os_Stat root)) (\<lambda>stat.
           if fi_IsDir stat then enter_start args
           else check (wrap_result ''creating loopback device'' (losetup_Attach root offset)) (\<lambda>dev. do {
                  os_Setenv ''ENTER_DEVICE'' dev;
                  defer_unless_replaced (enter_start args) (losetup_Detach dev) })) }) })"

subsection \<open>Inside the new root\<close>

definition inProcFS :: "bool io" where
  "inProcFS = do {
     r \<leftarrow> ioutil_ReadFile ''/proc/filesystems'';
     case r of
       Inl _ \<Rightarrow> do { emit (EvLog LError); State_Monad.return False }
     | Inr b \<Rightarrow> State_Monad.return (Contains b ''squashfs'') }"

definition checkSquashfs :: "goerr option io" where
  "checkSquashfs = do {
     a \<leftarrow> inProcFS;
     (if \<not> a then do { _ \<leftarrow> cmd_Run (exec_Command [''modprobe'', ''squashfs'']); skip } else skip);
     b \<leftarrow> inProcFS;
     State_Monad.return
       (if b then None
        else Some (Msg (''This kernel does not support squashfs, please enable. On Fedora you may '' @
               ''need to run '' @ [DQ] @ ''dnf install kernel-modules-$(uname -r)'' @ [DQ]))) }"

definition symlinks :: "string list" where "symlinks = [''lib'', ''bin'', ''sbin'']"

definition link_usr :: "string \<Rightarrow> unit result io" where
  "link_usr p = do {
     r \<leftarrow> os_Lstat p;
     if (case r of Inl e \<Rightarrow> IsNotExist e | Inr _ \<Rightarrow> False)
     then wrap_result (''failed to symlink '' @ p) (os_Symlink (PathJoin [''usr'', p]) p)
     else ok () }"

definition mount_image :: "string \<Rightarrow> string \<Rightarrow> string \<Rightarrow> unit result io" where
  "mount_image root device usr =
     (if device = [] then do {
        m \<leftarrow> mount_Mount root usr ''none'' ''bind'';
        State_Monad.return (case m of Inl _ \<Rightarrow> Inl (Msg ''failed to bind mount'') | Inr _ \<Rightarrow> Inr ()) }
      else do {
        squashErr \<leftarrow> checkSquashfs;
        m \<leftarrow> mount_Mount device usr ''squashfs'' ''ro'';
        State_Monad.return
          (case m of
             Inr _ \<Rightarrow> Inr ()
           | Inl e \<Rightarrow>
               let e1 = Wrapped ''mounting squashfs'' e
               in Inl (case squashErr of
                         Some (Msg s) \<Rightarrow> Wrapped s e1 | Some x \<Rightarrow> Wrapped [] e1 | None \<Rightarrow> e1)) })"

definition become_init :: "unit result io" where
  "become_init = do {
     os_Unsetenv ''ENTER_ROOT'';
     os_Unsetenv ''ENTER_DATA'';
     os_Unsetenv ''ENTER_DEVICE'';
     args \<leftarrow> os_Args;
     env \<leftarrow> os_Environ;
     syscall_Exec \<lparr>c_path = ''/usr/init'', c_args = args, c_env = env, c_stdin = []\<rparr> }"

definition enter_pivot :: "string \<Rightarrow> unit result io" where
  "enter_pivot data =
     check (os_Chdir data) (\<lambda>_.
     check (for_check symlinks link_usr) (\<lambda>_.
     check (wrap_result ''pivot_root failed'' (syscall_PivotRoot ''.'' ''.base'')) (\<lambda>_.
     check (wrap_result (''making . private '' @ data) (mount_ForceMount [] ''.'' ''none'' ''rprivate'')) (\<lambda>_.
     check (unix_Chroot ''/'') (\<lambda>_.
     check (os_Chdir ''/'') (\<lambda>_.
     check (wrap_result ''failed to find /usr/init'' (os_Stat ''/usr/init'')) (\<lambda>_.
       become_init)))))))"

definition enter_run :: "string \<Rightarrow> unit result io" where
  "enter_run data =
     check (wrap_result (''checking '' @ data @ '' mounted'') (mount_Mounted data)) (\<lambda>mounted.
     check (if mounted then ok ()
            else check (wrap_result (''mkdir '' @ data) (os_MkdirAll data 0x1ED)) (\<lambda>_.
                 wrap_result (''remounting data '' @ data) (mount_Mount data data ''none'' ''rbind''))) (\<lambda>_. do {
       root \<leftarrow> os_Getenv ''ENTER_ROOT'';
       device \<leftarrow> os_Getenv ''ENTER_DEVICE'';
       let usr = PathJoin [data, ''usr''];
       check (for_check [usr, PathJoin [data, ''.base'']] (\<lambda>d.
                wrap_result (''failed to make dir '' @ data) (os_MkdirAll d 0x1ED))) (\<lambda>_.
       check (mount_image root device usr) (\<lambda>_. enter_pivot data)) }))"

definition setResourceLimit :: "string \<Rightarrow> 64 word \<Rightarrow> 64 word \<Rightarrow> unit io" where
  "setResourceLimit resource cur mx = do {
     r \<leftarrow> sysc ''setrlimit'' resource (\<lambda>w. Inr ((), w\<lparr>trace := trace w @
            [EvOther ''rlimit'' [resource, Itoa (uint cur), Itoa (uint mx)]]\<rparr>));
     case r of Inl _ \<Rightarrow> emit (EvLog LInfo) | Inr _ \<Rightarrow> skip }"

text \<open>\<^verbatim>\<open>logrus.Fatal\<close> ends the process with status 1.\<close>

definition Enter :: "unit exits io" where
  "Enter = do {
     setResourceLimit ''NOFILE'' 1048576 1048576;
     setResourceLimit ''NPROC'' (- 1) (- 1);
     setResourceLimit ''MEMLOCK'' 67108864 67108864;
     data \<leftarrow> os_Getenv ''ENTER_DATA'';
     fatal_check (enter_run data) ok }"

subsection \<open>What the scan finds\<close>

lemma scan_magic_append:
  "scan_magic t (a @ b) st = (case scan_magic t a st of Inl off \<Rightarrow> Inl off | Inr st' \<Rightarrow> scan_magic t b st')"
  by (induction t a st rule: scan_magic.induct) auto

lemma scan_magic_sound:
  assumes "scan_magic t s (found, off) = Inl n" "found < length t" "pre = q @ take found t" "length pre = off"
  shows "\<exists>p. prefix (p @ t) (pre @ s) \<and> n = length (p @ t)"
  using assms
proof (induction t s "(found, off)" arbitrary: found off pre q rule: scan_magic.induct)
  case (2 t b bs found off)
  show ?case
  proof (cases "b = t ! found")
    case True
    show ?thesis
    proof (cases "Suc found = length t")
      case last: True
      have "t = take found t @ [b]" using True last by (metis lessI take_Suc_conv_app_nth take_all order_refl)
      then have "pre @ b # bs = (q @ t) @ bs" using "2.prems"(3) by (metis append.assoc append_Cons append_Nil)
      moreover have "n = length (q @ t)" using 2 True last by auto
      ultimately show ?thesis by (metis prefixI)
    next
      case False
      have "pre @ [b] = q @ take (Suc found) t"
        using True "2.prems"(2,3) by (simp add: take_Suc_conv_app_nth)
      moreover have "length (pre @ [b]) = Suc off" using "2.prems"(4) by simp
      moreover have "scan_magic t bs (Suc found, Suc off) = Inl n" using 2 True False by simp
      ultimately have "\<exists>p. prefix (p @ t) ((pre @ [b]) @ bs) \<and> n = length (p @ t)"
        using "2.hyps"(1) [of "pre @ [b]" q] 2 True False by simp
      then show ?thesis by simp
    qed
  next
    case False
    have "\<exists>p. prefix (p @ t) ((pre @ [b]) @ bs) \<and> n = length (p @ t)"
      by (rule "2.hyps"(2) [of "pre @ [b]" "pre @ [b]"]) (use 2 False in auto)
    then show ?thesis by simp
  qed
qed simp

lemma scan_magic_offset:
  "scan_magic t s (found, off) = (case scan_magic t s (found, 0) of Inl n \<Rightarrow> Inl (off + n) | Inr (f, n) \<Rightarrow> Inr (f, off + n))"
proof (induction s arbitrary: found off)
  case (Cons b s)
  show ?case
    using Cons [of "Suc found" "off + 1"] Cons [of "Suc found" 1] Cons [of 0 "off + 1"] Cons [of 0 1]
    by (auto split: sum.split prod.split)
qed simp

text \<open>The buffered search of a file is the search of its whole content, and the rounds it is given
  are enough.\<close>

definition whole_scan :: "bytes \<Rightarrow> (string \<times> nat) result" where
  "whole_scan data =
     (case scan_magic (ToLower magic) data (0, 0) of
        Inl off \<Rightarrow> Inr (reexec_Self, off)
      | Inr _ \<Rightarrow> Inl (Msg []))"

definition same_search :: "(string \<times> nat) result \<Rightarrow> nat + (nat \<times> nat) \<Rightarrow> bool" where
  "same_search r x \<longleftrightarrow> (case x of Inl off \<Rightarrow> r = Inr (reexec_Self, off) | Inr _ \<Rightarrow> (\<exists>s. r = Inl (Msg s)))"

lemma rounds_step:
  assumes "drop pos data \<noteq> []" "(length (drop pos data) + 8191) div 8192 + 1 \<le> Suc k"
  shows "(length (drop (pos + length (take 8192 (drop pos data))) data) + 8191) div 8192 + 1 \<le> k"
proof -
  define n where "n = length (drop pos data)"
  have n: "0 < n" "(n + 8191) div 8192 \<le> k" using assms by (simp_all add: n_def)
  have "length (drop (pos + length (take 8192 (drop pos data))) data) = n - min n 8192"
    by (simp add: n_def)
  moreover have "(n - min n 8192 + 8191) div 8192 + 1 \<le> k"
    using n by (cases "n \<le> 8192") (simp_all add: le_div_geq)
  ultimately show ?thesis by simp
qed

declare inFile_loop.simps [simp del]

lemma inFile_loop_scan:
  assumes "calm w" "look (files w) h = Some (Reg m data)" "(length (drop pos data) + 8191) div 8192 + 1 \<le> k"
  shows "wp (inFile_loop k h pos t st) (\<lambda>r u. same_search r (scan_magic t (drop pos data) st) \<and> files u = files w \<and> calm u) w"
  using assms
proof (induction k h pos t st arbitrary: w rule: inFile_loop.induct)
  case (2 k h pos t st)
  let ?buf = "take 8192 (drop pos data)"
  have rd: "run_state (fd_Read h pos 8192) w = (Inr ?buf, tick w)"
    using 2(2,3) by (simp add: fd_Read_def sysc_def calm_def)
  show ?case
  proof (cases "?buf = []")
    case True
    then have "drop pos data = []" by simp
    then show ?thesis using 2(2) by (simp add: inFile_loop.simps wp_def rd same_search_def os_Args_def run_check)
  next
    case False
    have split: "drop pos data = ?buf @ drop (pos + length ?buf) data"
      using append_take_drop_id [of 8192 "drop pos data", symmetric]
      by (cases "length (drop pos data) \<le> 8192") (simp_all add: add.commute)
    show ?thesis
    proof (cases "scan_magic t ?buf st")
      case (Inl off)
      then show ?thesis
        using False 2(2) scan_magic_append [of t ?buf "drop (pos + length ?buf) data" st] split
        by (simp add: inFile_loop.simps wp_def rd run_check same_search_def)
    next
      case (Inr st')
      have "wp (inFile_loop k h (pos + length ?buf) t st')
          (\<lambda>r u. same_search r (scan_magic t (drop (pos + length ?buf) data) st') \<and> files u = files (tick w) \<and> calm u) (tick w)"
      proof (rule "2.IH" [OF False Inr])
        show "calm (tick w)" "look (files (tick w)) h = Some (Reg m data)" using 2 by simp_all
        show "(length (drop (pos + length ?buf) data) + 8191) div 8192 + 1 \<le> k"
          by (rule rounds_step [OF _ "2.prems"(3)]) (use False in simp)
      qed
      moreover have "scan_magic t (drop pos data) st = scan_magic t (drop (pos + length ?buf) data) st'"
        by (subst split, subst scan_magic_append) (simp only: Inr sum.case)
      ultimately show ?thesis using False Inr by (simp add: inFile_loop.simps wp_def rd run_check)
    qed
  qed
qed simp

lemma inFile_scan:
  assumes "calm w" "resolve True w reexec_Self = Inr h" "look (files w) h = Some (Reg m data)"
  shows "wp inFile (\<lambda>r u. same_search r (scan_magic (ToLower magic) data (0, 0)) \<and> files u = files w) w"
proof -
  have op: "run_state (os_Open reexec_Self) w = (Inr h, tick w)"
    using assms by (simp add: os_Open_def os_OpenFile_def at_path_def sysc_def calm_def)
  have fuel: "(length data + 8191) div 8192 + 1 \<le> length data div 8192 + 2" by simp
  have "wp (inFile_loop (length data div 8192 + 2) h 0 (ToLower magic) (0, 0))
      (\<lambda>r u. same_search r (scan_magic (ToLower magic) (drop 0 data) (0, 0)) \<and> files u = files (tick w) \<and> calm u) (tick w)"
    by (rule inFile_loop_scan) (use assms fuel in simp_all)
  then have "wp (inFile_loop (length data div 8192 + 2) h 0 (ToLower magic) (0, 0))
     (\<lambda>r u. wp (fd_Close h) (\<lambda>_ u'. same_search r (scan_magic (ToLower magic) data (0, 0)) \<and> files u' = files w) u) (tick w)"
    by (rule wp_mono) (auto simp: wp_Close split: option.split)
  moreover have "(case look (files (tick w)) h of Some (Reg m c) \<Rightarrow> c | _ \<Rightarrow> []) = data" using assms(3) by simp
  ultimately show ?thesis
    unfolding inFile_def wp_check wp_run [OF op] sum.case wp_bind wp_get Let_def wp_defer by (simp only:)
qed

text \<open>C19: The search for the image in the program's own file: reading it in buffers of 8192 bytes gives what one pass over the whole
  content gives, the rounds of the loop are enough, a position that is returned lies right behind the magic string, and the error is returned
  when the pass finds none.\<close>

theorem inFile_searches_all:
  assumes "calm w" "resolve True w reexec_Self = Inr h" "look (files w) h = Some (Reg m data)"
  shows "wp inFile (\<lambda>r u. files u = files w \<and>
     (case scan_magic (ToLower magic) data (0, 0) of
        Inl off \<Rightarrow> r = Inr (reexec_Self, off) \<and> (\<exists>p. prefix (p @ ToLower magic) data \<and> off = length (p @ ToLower magic))
      | Inr _ \<Rightarrow> \<exists>s. r = Inl (Msg s))) w"
proof -
  have "\<exists>p. prefix (p @ ToLower magic) data \<and> off = length (p @ ToLower magic)"
    if "scan_magic (ToLower magic) data (0, 0) = Inl off" for off
    using scan_magic_sound [OF that, of "[]" "[]"] by (simp add: magic_def ToLower_def)
  then show ?thesis
    by (intro wp_mono [OF inFile_scan [OF assms]]) (auto simp: same_search_def split: sum.split)
qed

text \<open>The search does not go back: after a stray underscore right before the magic string the match is missed.\<close>

theorem scan_misses_overlap:
  "\<exists>st. scan_magic (ToLower magic) (''_'' @ ToLower magic) (0, 0) = Inr st"
  by (simp add: magic_def ToLower_def to_lower_def is_upper_def less_eq_char_def)

end
