(* ===== verification/Entering.thy ===== *)
theory Entering
  imports EnterChroot Traces
begin

text \<open>
  What \<^verbatim>\<open>enterchroot.Enter\<close> does to the machine, in order: limits, mounts and at most a \<^verbatim>\<open>modprobe\<close>; then, with the
  image mounted, the pivot, the propagation of the new root, the change of the root and \<^verbatim>\<open>/usr/init\<close>.
\<close>

subsection \<open>Preparing\<close>

fun preparing :: "event \<Rightarrow> bool" where
  "preparing (EvLog _) = True"
| "preparing (EvMount _ _ _ _ _) = True"
| "preparing (EvOther _ _) = True"
| "preparing (EvExec c) = (c = exec_Command [''modprobe'', ''squashfs''])"
| "preparing _ = False"

text \<open>What is left alone on the way: the variables and the arguments; mount points are only added.\<close>

definition same_vars :: "world \<Rightarrow> world \<Rightarrow> bool" where
  "same_vars w w' \<longleftrightarrow> environ w' = environ w \<and> proc_args w' = proc_args w \<and> set (mounts w) \<subseteq> set (mounts w')"

definition silent :: "world \<Rightarrow> world \<Rightarrow> bool" where
  "silent w w' \<longleftrightarrow> same_vars w w' \<and> trace w' = trace w"

definition prepared :: "world \<Rightarrow> world \<Rightarrow> bool" where
  "prepared w w' \<longleftrightarrow> same_vars w w' \<and> adds preparing w w'"

interpretation sil: step_order silent
  by unfold_locales (auto simp: silent_def same_vars_def)

interpretation prep: step_order prepared
  by unfold_locales (force simp: prepared_def same_vars_def)+

lemma same_vars_simps [simp]:
  "same_vars w w" "same_vars w (tick u) = same_vars w u" "same_vars (tick w) u = same_vars w u"
  "same_vars w (u\<lparr>trace := x\<rparr>) = same_vars w u" "same_vars w (u\<lparr>files := fs\<rparr>) = same_vars w u"
  "same_vars w (u\<lparr>cwd := p\<rparr>) = same_vars w u"
  by (auto simp: same_vars_def)

lemma same_vars_trans: "same_vars w u \<Longrightarrow> same_vars u v \<Longrightarrow> same_vars w v"
  by (auto simp: same_vars_def)

lemma silent_prepared: "silent w w' \<Longrightarrow> prepared w w'"
  by (auto simp: silent_def prepared_def)

lemma prepared_silent: "within silent m \<Longrightarrow> within prepared m"
  by (erule within_mono) (rule silent_prepared)

lemma silent_at_path:
  assumes "\<And>p n w a w'. f p n w = Inr (a, w') \<Longrightarrow> silent w w'"
  shows "within silent (at_path op s fl f)"
proof (rule withinI)
  fix w r w' assume "run_state (at_path op s fl f) w = (r, w')"
  moreover have "silent w w'" if "f p n (tick w) = Inr (a, w')" for p n a
    using assms [OF that] by (simp add: silent_def)
  ultimately show "silent w w'"
    by (fastforce simp: at_path_def sysc_def silent_def split: option.splits sum.splits)
qed

lemma silent_calls: "within silent (os_Stat p)" "within silent (os_Lstat p)" "within silent (ioutil_ReadFile p)"
  "within silent (os_Symlink t p)" "within silent (os_Mkdir p mo)" "within silent (os_Chdir p)"
  unfolding os_Stat_def os_Lstat_def ioutil_ReadFile_def os_Symlink_def os_Mkdir_def os_Chdir_def
  by (rule silent_at_path; auto simp: silent_def split: option.splits if_splits node.splits)+

lemma silent_MkdirAll: "within silent (os_MkdirAll p mo)"
proof (induction p mo rule: os_MkdirAll.induct)
  case (1 p mo)
  show ?case
    by (subst os_MkdirAll.simps) (auto intro!: sil.within_intros silent_calls 1)
qed

lemma silent_Mounted: "within silent (mount_Mounted p)"
  unfolding mount_Mounted_def by (rule withinI) (auto simp: sysc_def silent_def split: option.splits)

lemma silent_wrap: "within silent m \<Longrightarrow> within silent (wrap_result s m)"
  unfolding wrap_result_def by (intro sil.within_intros)

lemma silent_links: "within silent (for_check symlinks link_usr)"
  unfolding link_usr_def by (intro sil.within_intros silent_wrap silent_calls)

text \<open>A mount shows itself, and where it does not happen there is a mount already.\<close>

definition mounted_at :: "string \<Rightarrow> event list \<Rightarrow> world \<Rightarrow> bool" where
  "mounted_at p evs u \<longleftrightarrow> p \<in> set (mounts u) \<or> (\<exists>s t fl d. EvMount s p t fl d \<in> set evs)"

definition preparation :: "string \<Rightarrow> world \<Rightarrow> 'a result \<Rightarrow> world \<Rightarrow> bool" where
  "preparation p w r u \<longleftrightarrow> same_vars w u \<and>
     (\<exists>evs. trace u = trace w @ evs \<and> list_all preparing evs \<and> (isl r \<or> mounted_at p evs u))"

lemma wp_unix_Mount: "wp (unix_Mount a p t fl d) (\<lambda>r u. same_vars w u \<and>
    trace u = trace w @ (if isl r then [] else [EvMount a p t fl d])) w"
  unfolding unix_Mount_def
  by (rule wp_at_path_any) (auto simp: Let_def same_vars_def split: option.split)

lemma wp_ForceMount: "wp (mount_ForceMount a p t o') (preparation p w) w"
proof -
  obtain fl d where o': "mount_parseOptions o' = (fl, d)" by fastforce
  have second: "wp (if c then unix_Mount a p t fl' d else ok ()) (preparation p w) u"
    if w: "same_vars w u" "trace u = trace w @ [EvMount a p t fl d]" for c fl' and u :: world
  proof -
    have "preparation p w r v" if v: "same_vars u v \<and> trace v = trace u @ (if isl r then [] else [EvMount a p t fl' d])"
      for r :: "unit result" and v
    proof -
      have "same_vars w v" using w(1) v same_vars_trans by blast
      moreover have "trace v = trace w @ EvMount a p t fl d # (if isl r then [] else [EvMount a p t fl' d])" using v w(2) by simp
      ultimately show ?thesis
        unfolding preparation_def mounted_at_def
        by (intro conjI exI [of _ "EvMount a p t fl d # (if isl r then [] else [EvMount a p t fl' d])"]) auto
    qed
    moreover have "preparation p w (Inr ()) u" using w by (auto simp: preparation_def mounted_at_def)
    ultimately show ?thesis by (auto intro: wp_mono [OF wp_unix_Mount])
  qed
  show ?thesis
    unfolding mount_ForceMount_def o' prod.case
    by (rule wp_checkI [OF wp_unix_Mount]) (use second in \<open>auto simp: preparation_def simp del: wp_if\<close>)
qed

lemma wp_mount_Mount: "wp (mount_Mount a p t o') (preparation p w) w"
proof -
  have "wp (check (mount_Mounted p) (\<lambda>m. if m then ok () else mount_ForceMount a p t o')) (preparation p w) w"
    unfolding mount_Mounted_def wp_check wp_sysc
    using wp_ForceMount [of a p t o' "tick w"]
    by (auto simp: preparation_def mounted_at_def split: option.split elim!: wp_mono)
  then show ?thesis unfolding mount_Mount_def using wp_ForceMount by (simp del: wp_check)
qed

lemma prepared_Mount: "within prepared (mount_Mount a p t o')"
  unfolding within_wp by (intro allI wp_mono [OF wp_mount_Mount]) (auto simp: preparation_def prepared_def)


subsection \<open>The order\<close>

text \<open>What is seen of the way from the mounted image to \<^verbatim>\<open>/usr/init\<close>.\<close>

definition init_command :: "world \<Rightarrow> command" where
  "init_command w = \<lparr>c_path = ''/usr/init'', c_args = proc_args w,
     c_env = map (\<lambda>(k, v). k @ ''='' @ v)
       (filter (\<lambda>(k, _). k \<notin> {''ENTER_ROOT'', ''ENTER_DATA'', ''ENTER_DEVICE''}) (environ w)), c_stdin = []\<rparr>"

definition enter_steps :: "world \<Rightarrow> event list" where
  "enter_steps w = [EvPivotRoot ''.'' ''.base'', EvMount [] ''.'' ''none'' 0x44000 [], EvChroot ''/'', EvReplace (init_command w)]"

text \<open>\<open>trail usr w k u\<close>: the image is mounted, and the first \<open>k\<close> steps were made; \<open>staged\<close>: and the variables
  are still those of \<open>w\<close>.\<close>

definition trail :: "string \<Rightarrow> world \<Rightarrow> nat \<Rightarrow> world \<Rightarrow> bool" where
  "trail usr w k u \<longleftrightarrow>
     (\<exists>prep. trace u = trace w @ prep @ take k (enter_steps w) \<and> list_all preparing prep \<and> mounted_at usr prep u)"

definition staged :: "string \<Rightarrow> world \<Rightarrow> nat \<Rightarrow> world \<Rightarrow> bool" where
  "staged usr w k u \<longleftrightarrow> same_vars w u \<and> trail usr w k u"

lemma trail_step:
  assumes u: "trail usr w k u" and v: "set (mounts u) \<subseteq> set (mounts v)" "trace v = trace u @ [enter_steps w ! k]" and k: "k < 4"
  shows "trail usr w (Suc k) v"
proof -
  obtain prep where p: "trace u = trace w @ prep @ take k (enter_steps w)" "list_all preparing prep" "mounted_at usr prep u"
    using u by (auto simp: trail_def)
  have "take (Suc k) (enter_steps w) = take k (enter_steps w) @ [enter_steps w ! k]"
    by (rule take_Suc_conv_app_nth) (use k in \<open>simp add: enter_steps_def\<close>)
  moreover have "mounted_at usr prep v" using p(3) v(1) by (auto simp: mounted_at_def)
  ultimately show ?thesis
    unfolding trail_def using p v by auto
qed

lemma trail_quiet: "trail usr w k u \<Longrightarrow> set (mounts u) \<subseteq> set (mounts v) \<Longrightarrow> trace v = trace u \<Longrightarrow> trail usr w k v"
  by (fastforce simp: trail_def mounted_at_def)

lemma staged_silent: "staged usr w k u \<Longrightarrow> silent u v \<Longrightarrow> staged usr w k v"
  unfolding staged_def silent_def by (auto simp: same_vars_def intro: trail_quiet)

lemma staged_step:
  "staged usr w k u \<Longrightarrow> same_vars u v \<Longrightarrow> trace v = trace u @ [enter_steps w ! k] \<Longrightarrow> k < 4 \<Longrightarrow> staged usr w (Suc k) v"
  unfolding staged_def by (auto simp: same_vars_def intro: trail_step)

text \<open>A call that shows exactly the next event, and a call that shows nothing; with either, the run ends
  or goes on.\<close>

definition goes_on :: "string \<Rightarrow> world \<Rightarrow> nat \<Rightarrow> nat \<Rightarrow> 'a result \<Rightarrow> world \<Rightarrow> bool" where
  "goes_on usr w j k r u \<longleftrightarrow> staged usr w (if isl r then j else k) u"

lemma wp_step:
  assumes u: "staged usr w k u" and k: "k < 4"
    and f: "\<And>p n v a v'. f p n v = Inr (a, v') \<Longrightarrow> same_vars v v' \<and> trace v' = trace v @ [enter_steps w ! k]"
  shows "wp (at_path op s fl f) (goes_on usr w k (Suc k)) u"
proof -
  have stay: "staged usr w k (tick u)" by (rule staged_silent [OF u]) (simp add: silent_def)
  have step: "staged usr w (Suc k) v" if "f p n (tick u) = Inr (a, v)" for p n a v
    by (rule staged_step [OF stay _ _ k]) (use f [OF that] in simp_all)
  show ?thesis
    by (rule wp_at_path_any) (auto simp: goes_on_def stay step split: sum.split)
qed

lemma wp_silent_step: "within silent m \<Longrightarrow> staged usr w k u \<Longrightarrow> wp m (goes_on usr w k k) u"
  unfolding within_wp by (drule spec, erule wp_mono) (auto simp: goes_on_def intro: staged_silent)

lemma wp_wrapped: "wp m (goes_on usr w j k) u \<Longrightarrow> wp (wrap_result s m) (goes_on usr w j k) u"
  unfolding wrap_result_def wp_bind by (erule wp_mono) (auto simp: goes_on_def split: sum.split)

text \<open>\<open>ends\<close>: how the sequence of steps may end, an error after any of them or after all four.\<close>

definition ends :: "string \<Rightarrow> world \<Rightarrow> unit result \<Rightarrow> world \<Rightarrow> bool" where
  "ends usr w r u \<longleftrightarrow> (\<exists>k. k \<le> 4 \<and> trail usr w k u \<and> (isl r \<longleftrightarrow> k < 4))"

lemma wp_next:
  assumes "wp m (goes_on usr w j k) u" "j < 4" "\<And>a v. staged usr w k v \<Longrightarrow> wp (f a) (ends usr w) v"
  shows "wp (check m f) (ends usr w) u"
  by (rule wp_checkI [OF assms(1)])
    (use assms(2,3) in \<open>auto simp: goes_on_def ends_def staged_def intro!: exI [of _ j]\<close>)

lemma ends_failed: "trail usr w k u \<Longrightarrow> k < 4 \<Longrightarrow> ends usr w (Inl e) u"
  unfolding ends_def by (rule exI [of _ k]) simp

lemma ends_done: "trail usr w 4 u \<Longrightarrow> ends usr w (Inr x) u"
  by (auto simp: ends_def)

lemma wp_become_init:
  assumes u: "staged usr w 3 u"
  shows "wp become_init (ends usr w) u"
proof -
  let ?env = "filter (\<lambda>(k, _). k \<notin> {''ENTER_ROOT'', ''ENTER_DATA'', ''ENTER_DEVICE''}) (environ w)"
  let ?u = "u\<lparr>environ := ?env\<rparr>"
  have v: "environ u = environ w" "proc_args u = proc_args w" "trail usr w 3 u"
    using u by (simp_all add: staged_def same_vars_def)
  have env: "filter (\<lambda>(k, _). k \<noteq> ''ENTER_DEVICE'') (filter (\<lambda>(k, _). k \<noteq> ''ENTER_DATA'')
      (filter (\<lambda>(k, _). k \<noteq> ''ENTER_ROOT'') (environ w))) = ?env"
    unfolding filter_filter by (rule filter_cong) auto
  have t: "trail usr w 3 (tick ?u)" by (rule trail_quiet [OF v(3)]) simp_all
  have "wp (syscall_Exec (init_command w)) (ends usr w) ?u"
    unfolding syscall_Exec_def wp_sysc
    using t trail_step [OF t, of "(tick ?u)\<lparr>trace := trace u @ [EvReplace (init_command w)]\<rparr>"]
    by (auto simp: enter_steps_def split: option.split intro: ends_failed ends_done)
  then show ?thesis
    by (simp add: become_init_def os_Unsetenv_def os_Args_def os_Environ_def wp_def v env init_command_def del: filter_filter)
qed


lemma rprivate: "mount_parseOptions ''rprivate'' = (0x44000, [])"
  by (simp add: mount_parseOptions_def mount_flag_table_def)

lemma wp_pivot: "staged usr w 0 u \<Longrightarrow> wp (syscall_PivotRoot ''.'' ''.base'') (goes_on usr w 0 1) u"
  unfolding syscall_PivotRoot_def One_nat_def
  by (rule wp_step) (auto simp: enter_steps_def same_vars_def split: option.splits node.splits)

lemma wp_private:
  assumes "staged usr w 1 u"
  shows "wp (mount_ForceMount [] ''.'' ''none'' ''rprivate'') (goes_on usr w 1 2) u"
proof -
  have "wp (unix_Mount [] ''.'' ''none'' 0x44000 []) (goes_on usr w 1 (Suc 1)) u"
    unfolding unix_Mount_def
    by (rule wp_step [OF assms]) (auto simp: Let_def same_vars_def enter_steps_def split: option.splits if_splits)
  then show ?thesis
    unfolding mount_ForceMount_def rprivate prod.case
    by (rule wp_checkI) (simp_all add: goes_on_def MS_defs numeral_2_eq_2)
qed

lemma wp_chroot:
  assumes "staged usr w 2 u"
  shows "wp (unix_Chroot ''/'') (goes_on usr w 2 3) u"
proof -
  have "wp (unix_Chroot ''/'') (goes_on usr w 2 (Suc 2)) u"
    unfolding unix_Chroot_def
    by (rule wp_step [OF assms]) (auto simp: enter_steps_def same_vars_def split: option.splits node.splits)
  then show ?thesis by (simp add: numeral_3_eq_3 numeral_2_eq_2)
qed

lemma wp_enter_pivot:
  assumes "staged usr w 0 u"
  shows "wp (enter_pivot data) (ends usr w) u"
  unfolding enter_pivot_def
  by (rule wp_next [OF wp_silent_step [OF silent_calls(6) assms]], simp,
      rule wp_next [OF wp_silent_step [OF silent_links]], assumption, simp,
      rule wp_next [OF wp_wrapped [OF wp_pivot]], assumption, simp,
      rule wp_next [OF wp_wrapped [OF wp_private]], assumption, simp,
      rule wp_next [OF wp_chroot], assumption, simp,
      rule wp_next [OF wp_silent_step [OF silent_calls(6)]], assumption, simp,
      rule wp_next [OF wp_silent_step [OF silent_wrap [OF silent_calls(1)]]], assumption, simp,
      rule wp_become_init)

text \<open>The way to the mounted image.\<close>

lemma prepared_checkSquashfs: "within prepared checkSquashfs"
proof -
  have p: "within prepared inProcFS"
    unfolding inProcFS_def
    by (intro prep.within_intros prepared_silent silent_calls withinI)
      (auto simp: emit_def prepared_def)
  have "within prepared (cmd_Run (exec_Command [''modprobe'', ''squashfs'']))"
    by (rule withinI) (auto simp: cmd_Run_def cmd_CombinedOutput_def prepared_def split: prod.splits)
  then show ?thesis
    unfolding checkSquashfs_def by (intro prep.within_intros p)
qed

lemma staged_first:
  assumes p: "prepared w u" and m: "preparation usr u (Inr x) v"
  shows "staged usr w 0 v"
proof -
  obtain a b where ab: "trace u = trace w @ a" "list_all preparing a" "trace v = trace u @ b" "list_all preparing b" "mounted_at usr b v"
    "same_vars w u" "same_vars u v"
    using p m by (auto simp: prepared_def preparation_def)
  have "trail usr w 0 v"
    unfolding trail_def using ab by (intro exI [of _ "a @ b"]) (auto simp: mounted_at_def)
  then show ?thesis using same_vars_trans ab(6,7) by (simp add: staged_def)
qed

text \<open>After the image's mount: mounted, or an error before any step.\<close>

definition imaged :: "string \<Rightarrow> world \<Rightarrow> unit result \<Rightarrow> world \<Rightarrow> bool" where
  "imaged usr w r u \<longleftrightarrow> (if isl r then prepared w u else staged usr w 0 u)"

lemma imaged_cong: "imaged usr w r u \<Longrightarrow> isl r' = isl r \<Longrightarrow> imaged usr w r' u"
  by (simp add: imaged_def)

lemma wp_image_mount:
  assumes "prepared w u"
  shows "wp (mount_Mount a usr t o') (imaged usr w) u"
proof (rule wp_mono [OF wp_mount_Mount])
  fix r :: "unit result" and v assume p: "preparation usr u r v"
  show "imaged usr w r v"
  proof (cases r)
    case (Inl e)
    have "prepared u v" using p by (auto simp: preparation_def prepared_def)
    then show ?thesis using Inl prep.trans [OF assms] by (simp add: imaged_def)
  next
    case (Inr x)
    then show ?thesis using staged_first [OF assms] p by (simp add: imaged_def)
  qed
qed

lemma wp_mount_image:
  assumes u: "prepared w u"
  shows "wp (mount_image root device usr) (imaged usr w) u"
proof (cases "device = []")
  case True
  show ?thesis
    unfolding mount_image_def if_P [OF True]
    by (rule wp_bindI [OF wp_image_mount [OF u]]) (auto elim!: imaged_cong split: sum.split)
next
  case False
  have "wp checkSquashfs (\<lambda>_. prepared w) u"
    by (rule wp_mono [OF prepared_checkSquashfs [unfolded within_wp, rule_format]]) (rule prep.trans [OF u])
  then show ?thesis
    unfolding mount_image_def if_not_P [OF False]
    by (rule wp_bindI, intro wp_bindI [OF wp_image_mount]) (auto elim!: imaged_cong simp: Let_def split: sum.split)
qed

text \<open>How a run may end: before the image was mounted, or as \<open>ends\<close> says.\<close>

definition enters :: "string \<Rightarrow> world \<Rightarrow> unit result \<Rightarrow> world \<Rightarrow> bool" where
  "enters usr w r u \<longleftrightarrow> isl r \<and> prepared w u \<or> ends usr w r u"

lemma wp_prepare:
  assumes "within prepared m" "prepared w u" "\<And>a v. prepared w v \<Longrightarrow> wp (f a) (enters usr w) v"
  shows "wp (check m f) (enters usr w) u"
proof (rule wp_checkI [where R = "\<lambda>_. prepared w"])
  show "wp m (\<lambda>_. prepared w) u"
    by (rule wp_mono [OF assms(1) [unfolded within_wp, rule_format]]) (rule prep.trans [OF assms(2)])
qed (use assms(3) in \<open>auto simp: enters_def\<close>)

definition getenv :: "world \<Rightarrow> string \<Rightarrow> string" where
  "getenv w k = (case map_of (environ w) k of None \<Rightarrow> [] | Some v \<Rightarrow> v)"

lemma prepared_wrap: "within prepared m \<Longrightarrow> within prepared (wrap_result s m)"
  unfolding wrap_result_def by (intro prep.within_intros)

lemma wp_enter_run:
  assumes u: "prepared w u"
  shows "wp (enter_run data) (enters (PathJoin [data, ''usr'']) w) u"
proof -
  let ?usr = "PathJoin [data, ''usr'']"
  have data: "within prepared (if mounted then ok () else check (wrap_result (''mkdir '' @ data) (os_MkdirAll data 0x1ED)) (\<lambda>_.
      wrap_result (''remounting data '' @ data) (mount_Mount data data ''none'' ''rbind'')))" for mounted
    by (intro prep.within_intros prepared_wrap prepared_silent [OF silent_MkdirAll] prepared_Mount)
  have dirs: "within prepared (for_check [?usr, PathJoin [data, ''.base'']] (\<lambda>d. wrap_result (''failed to make dir '' @ data) (os_MkdirAll d 0x1ED)))"
    by (intro prep.within_intros prepared_wrap prepared_silent [OF silent_MkdirAll])
  have image: "wp (check (mount_image root device ?usr) (\<lambda>_. enter_pivot data)) (enters ?usr w) v" if "prepared w v" for v root device
  proof (rule wp_checkI [OF wp_mount_image [OF that]])
    show "enters ?usr w (Inl e) v" if "imaged ?usr w (Inl e) v" for e v using that by (simp add: imaged_def enters_def)
    show "wp (enter_pivot data) (enters ?usr w) v" if "imaged ?usr w (Inr a) v" for a v
      by (rule wp_mono [OF wp_enter_pivot]) (use that in \<open>auto simp: imaged_def enters_def\<close>)
  qed
  show ?thesis
    unfolding enter_run_def
  proof (rule wp_prepare [OF prepared_wrap [OF prepared_silent [OF silent_Mounted]] u], rule wp_prepare [OF data], assumption)
    fix a :: bool and b and v :: world assume v: "prepared w v"
    have "wp (check (for_check [?usr, PathJoin [data, ''.base'']] (\<lambda>d. wrap_result (''failed to make dir '' @ data) (os_MkdirAll d 0x1ED)))
        (\<lambda>_. check (mount_image root device ?usr) (\<lambda>_. enter_pivot data))) (enters ?usr w) v" for root device
      by (rule wp_prepare [OF dirs v]) (rule image)
    then show "wp (do { root \<leftarrow> os_Getenv ''ENTER_ROOT''; device \<leftarrow> os_Getenv ''ENTER_DEVICE'';
         let usr = ?usr;
         check (for_check [usr, PathJoin [data, ''.base'']] (\<lambda>d. wrap_result (''failed to make dir '' @ data) (os_MkdirAll d 0x1ED)))
           (\<lambda>_. check (mount_image root device usr) (\<lambda>_. enter_pivot data)) }) (enters ?usr w) v"
      by (simp add: Let_def os_Getenv_def wp_def)
  qed
qed

lemma prepared_limit: "within prepared (setResourceLimit resource a b)"
proof -
  have "within prepared (sysc ''setrlimit'' resource (\<lambda>w. Inr ((), w\<lparr>trace := trace w @ [EvOther ''rlimit'' x]\<rparr>)))" for x
    by (rule withinI) (auto simp: sysc_def prepared_def same_vars_def split: option.splits)
  moreover have "within prepared (emit (EvLog l))" for l
    by (rule withinI) (auto simp: emit_def prepared_def)
  ultimately show ?thesis
    unfolding setResourceLimit_def by (intro prep.within_intros)
qed

definition entered :: "world \<Rightarrow> unit exits \<Rightarrow> world \<Rightarrow> bool" where
  "entered w r u \<longleftrightarrow> (\<exists>prep k. k \<le> 4 \<and>
     trace u = trace w @ prep @ take k (enter_steps w) @ (if k = 4 then [] else [EvLog LFatal]) \<and>
     list_all preparing prep \<and> (k = 0 \<or> mounted_at (PathJoin [getenv w ''ENTER_DATA'', ''usr'']) prep u) \<and>
     r = (if k = 4 then Inr () else Inl 1))"

lemma entered_failed:
  assumes "enters (PathJoin [getenv w ''ENTER_DATA'', ''usr'']) w (Inl e) u"
  shows "entered w (Inl 1) (u\<lparr>trace := trace u @ [EvLog LFatal]\<rparr>)"
proof (cases "prepared w u")
  case True
  then obtain prep where "trace u = trace w @ prep" "list_all preparing prep" by (auto simp: prepared_def)
  then show ?thesis unfolding entered_def by (intro exI [of _ prep] exI [of _ 0]) simp
next
  case False
  then obtain k prep where "k < 4" "trace u = trace w @ prep @ take k (enter_steps w)" "list_all preparing prep"
    "mounted_at (PathJoin [getenv w ''ENTER_DATA'', ''usr'']) prep u"
    using assms by (auto simp: enters_def ends_def trail_def)
  then show ?thesis unfolding entered_def by (intro exI [of _ prep] exI [of _ k]) (simp add: mounted_at_def)
qed

lemma entered_done: "enters (PathJoin [getenv w ''ENTER_DATA'', ''usr'']) w (Inr x) u \<Longrightarrow> entered w (Inr ()) u"
proof -
  assume "enters (PathJoin [getenv w ''ENTER_DATA'', ''usr'']) w (Inr x) u"
  then obtain prep where "trace u = trace w @ prep @ take 4 (enter_steps w)" "list_all preparing prep"
    "mounted_at (PathJoin [getenv w ''ENTER_DATA'', ''usr'']) prep u"
    by (auto simp: enters_def ends_def trail_def not_less dest: le_antisym)
  then show ?thesis unfolding entered_def by (intro exI [of _ prep] exI [of _ 4]) simp
qed

lemma wp_Enter: "wp Enter (entered w) w"
proof -
  have limit: "wp (setResourceLimit r a b) (\<lambda>_. prepared w) u" if "prepared w u" for r a b u
    by (rule wp_mono [OF prepared_limit [unfolded within_wp, rule_format]]) (rule prep.trans [OF that])
  have run: "wp (do { data \<leftarrow> os_Getenv ''ENTER_DATA''; fatal_check (enter_run data) ok }) (entered w) u" if u: "prepared w u" for u
  proof -
    have e: "environ u = environ w" using u by (simp add: prepared_def same_vars_def)
    have "wp (fatal_check (enter_run (getenv w ''ENTER_DATA'')) ok) (entered w) u"
      unfolding wp_fatal_check
      by (rule wp_mono [OF wp_enter_run [OF u]]) (auto split: sum.split intro: entered_failed [unfolded One_nat_def] entered_done)
    then show ?thesis by (simp add: os_Getenv_def wp_def getenv_def e)
  qed
  show ?thesis
    unfolding Enter_def
    by (rule wp_bindI [OF limit [OF prep.refl]], rule wp_bindI [OF limit], assumption, rule wp_bindI [OF limit], assumption, rule run)
qed

text \<open>C20: The way into the root. Whatever fails, what is seen of \<^verbatim>\<open>Enter\<close> is limits, messages, mounts and at most \<^verbatim>\<open>modprobe\<close>, and
  then a beginning of: pivot into the data directory, make it private, change the root, become \<^verbatim>\<open>/usr/init\<close>. None of these
  happens before the image is mounted; the run ends well exactly when it has become \<^verbatim>\<open>init\<close>, with the arguments and variables of the
  program but those that say how to enter, and otherwise with a message and status 1.\<close>

theorem Enter_ordered:
  "wp Enter (\<lambda>r u. \<exists>prep k. k \<le> 4 \<and>
     trace u = trace w @ prep @ take k (enter_steps w) @ (if k = 4 then [] else [EvLog LFatal]) \<and>
     list_all preparing prep \<and> (k = 0 \<or> mounted_at (PathJoin [getenv w ''ENTER_DATA'', ''usr'']) prep u) \<and>
     r = (if k = 4 then Inr () else Inl 1)) w"
  using wp_Enter [of w] by (simp add: entered_def [abs_def])

end
