(* ===== verification/Quote.thy ===== *)
theory Quote
  imports GoStrconv
begin

text \<open>
  \<^verbatim>\<open>strconv.Quote\<close> and \<^verbatim>\<open>strconv.Unquote\<close>, with which \<^verbatim>\<open>ApplyEnvironment\<close> reads and writes
  \<^verbatim>\<open>/etc/environment\<close>. Strings are bytes; text that is not ASCII is taken to be valid UTF-8 of
  printable characters, which \<^verbatim>\<open>Quote\<close> copies.
\<close>

definition hex_digit :: "nat \<Rightarrow> char" where
  "hex_digit n = ''0123456789abcdef'' ! n"

definition hex_value :: "char \<Rightarrow> nat option" where
  "hex_value c =
     (let n = of_char c :: nat
      in if 48 \<le> n \<and> n \<le> 57 then Some (n - 48)
         else if 97 \<le> n \<and> n \<le> 102 then Some (n - 87)
         else if 65 \<le> n \<and> n \<le> 70 then Some (n - 55)
         else None)"

text \<open>The escapes with a letter.\<close>

definition letter_escapes :: "(char \<times> char) list" where
  "letter_escapes =
     [(CHR 0x07, CHR ''a''), (CHR 0x08, CHR ''b''), (CHR 0x0C, CHR ''f''), (CHR 0x0A, CHR ''n''),
      (CHR 0x0D, CHR ''r''), (CHR 0x09, CHR ''t''), (CHR 0x0B, CHR ''v'')]"

definition quote_char :: "char \<Rightarrow> string" where
  "quote_char c =
     (let n = of_char c :: nat
      in if c = DQ \<or> c = BSL then [BSL, c]
         else if n \<ge> 128 \<or> (32 \<le> n \<and> n < 127) then [c]
         else case map_of letter_escapes c of
                Some l \<Rightarrow> [BSL, l]
              | None \<Rightarrow> [BSL, CHR ''x'', hex_digit (n div 16), hex_digit (n mod 16)])"

definition Quote :: "string \<Rightarrow> string" where
  "Quote s = [DQ] @ concat (map quote_char s) @ [DQ]"

text \<open>The UTF-8 encoding of a code point.\<close>

definition utf8 :: "nat \<Rightarrow> string" where
  "utf8 n =
     (if n < 0x80 then [char_of n]
      else if n < 0x800 then [char_of (0xC0 + n div 64), char_of (0x80 + n mod 64)]
      else if n < 0x10000
      then [char_of (0xE0 + n div 4096), char_of (0x80 + n div 64 mod 64), char_of (0x80 + n mod 64)]
      else [char_of (0xF0 + n div 262144), char_of (0x80 + n div 4096 mod 64),
            char_of (0x80 + n div 64 mod 64), char_of (0x80 + n mod 64)])"

fun hex_number :: "nat \<Rightarrow> string \<Rightarrow> nat option" where
  "hex_number acc [] = Some acc"
| "hex_number acc (c # s) =
     (case hex_value c of None \<Rightarrow> None | Some d \<Rightarrow> hex_number (16 * acc + d) s)"

definition take_exact :: "nat \<Rightarrow> string \<Rightarrow> string option" where
  "take_exact n s = (if length s < n then None else Some (take n s))"

definition octal_value :: "char \<Rightarrow> nat option" where
  "octal_value c = (let n = of_char c :: nat in if 48 \<le> n \<and> n \<le> 55 then Some (n - 48) else None)"

text \<open>\<^verbatim>\<open>UnquoteChar\<close>: the bytes of one character of a literal and what follows it.\<close>

definition unquote_escape :: "char \<Rightarrow> string \<Rightarrow> (string \<times> string) option" where
  "unquote_escape q s =
     (case s of
        [] \<Rightarrow> None
      | c # t \<Rightarrow>
          (case map_of (map (\<lambda>(a, b). (b, a)) letter_escapes) c of
             Some a \<Rightarrow> Some ([a], t)
           | None \<Rightarrow>
               if c = CHR ''x'' then
                 (case Option.bind (take_exact 2 t) (hex_number 0) of
                    None \<Rightarrow> None | Some n \<Rightarrow> Some ([char_of n], drop 2 t))
               else if c = CHR ''u'' \<or> c = CHR ''U'' then
                 (let k = (if c = CHR ''u'' then 4 else 8)
                  in case Option.bind (take_exact k t) (hex_number 0) of
                       None \<Rightarrow> None
                     | Some n \<Rightarrow> if n > 0x10FFFF then None else Some (utf8 n, drop k t))
               else if octal_value c \<noteq> None then
                 (case (octal_value c, map octal_value (take 2 t)) of
                    (Some x, [Some y, Some z]) \<Rightarrow>
                      if x * 64 + y * 8 + z > 255 then None
                      else Some ([char_of (x * 64 + y * 8 + z)], drop 2 t)
                  | _ \<Rightarrow> None)
               else if c = BSL then Some ([BSL], t)
               else if c = DQ \<or> c = CHR 0x27 then (if c = q then Some ([c], t) else None)
               else None))"

definition unquote_char :: "char \<Rightarrow> string \<Rightarrow> (string \<times> string) option" where
  "unquote_char q s =
     (case s of
        [] \<Rightarrow> None
      | c # t \<Rightarrow>
          if c = q then None
          else if c = BSL then unquote_escape q t
          else Some ([c], t))"

text \<open>The loop, with the length of the rest as fuel: every round consumes at least one byte.\<close>

fun unquote_chars :: "nat \<Rightarrow> char \<Rightarrow> string \<Rightarrow> string option" where
  "unquote_chars k q [] = Some []"
| "unquote_chars 0 q (c # s) = None"
| "unquote_chars (Suc k) q (c # s) =
     (case unquote_char q (c # s) of
        None \<Rightarrow> None
      | Some (a, t) \<Rightarrow> map_option (\<lambda>r. a @ r) (unquote_chars k q t))"

text \<open>A literal in single quotes is one character: its bytes up to 127, or one UTF-8 sequence.\<close>

definition one_rune :: "string \<Rightarrow> bool" where
  "one_rune s \<longleftrightarrow>
     (case s of
        [] \<Rightarrow> False
      | c # t \<Rightarrow>
          (let n = of_char c :: nat
           in length t = (if n < 0x80 then 0 else if n < 0xE0 then 1 else if n < 0xF0 then 2 else 3)))"

definition Unquote :: "string \<Rightarrow> string option" where
  "Unquote s =
     (if length s < 2 \<or> hd s \<noteq> last s then None
      else let q = hd s; body = butlast (tl s)
           in if q = CHR 0x60 then
                (if CHR 0x60 \<in> set body then None else Some (filter (\<lambda>c. c \<noteq> CR) body))
              else if q \<noteq> DQ \<and> q \<noteq> CHR 0x27 then None
              else if NL \<in> set body then None
              else case unquote_chars (length body) q body of
                     None \<Rightarrow> None
                   | Some r \<Rightarrow> if q = CHR 0x27 \<and> \<not> one_rune r then None else Some r)"

subsection \<open>Quoting and unquoting\<close>

lemma hex_digit_value [simp]: "n < 16 \<Longrightarrow> hex_value (hex_digit n) = Some n"
proof -
  have "list_all (\<lambda>n. hex_value (hex_digit n) = Some n) [0..<16]" by code_simp
  then show "n < 16 \<Longrightarrow> ?thesis" by (simp add: list_all_iff)
qed

lemma letter_escapes_inverse:
  "map_of letter_escapes c = Some l \<Longrightarrow> map_of (map (\<lambda>(a, b). (b, a)) letter_escapes) l = Some c"
  by (auto simp: letter_escapes_def split: if_splits)

lemma letter_escapes_char: "map_of letter_escapes c = Some l \<Longrightarrow> l \<noteq> NL"
  by (auto simp: letter_escapes_def split: if_splits)

lemma unquote_quote_char: "unquote_char DQ (quote_char c @ t) = Some ([c], t)"
proof -
  have n: "of_char c < (256 :: nat)" by simp
  have swap: "map_of (map (\<lambda>(a, b). (b, a)) letter_escapes) x = None" if "x \<in> {DQ, BSL, CHR ''x''}" for x
    using that by (auto simp: letter_escapes_def)
  have hex: "hex_number 0 [hex_digit (of_char c div 16), hex_digit (of_char c mod 16)] = Some (of_char c)"
    using n less_mult_imp_div_less [of "of_char c" 16 "16::nat"] by simp
  have oct: "octal_value DQ = None" "octal_value BSL = None" by (simp_all add: octal_value_def)
  consider "c = DQ \<or> c = BSL" | "c \<noteq> DQ" "c \<noteq> BSL" "of_char c \<ge> (128::nat) \<or> (32 \<le> (of_char c :: nat) \<and> of_char c < (127::nat))"
    | l where "c \<noteq> DQ" "c \<noteq> BSL" "\<not> (of_char c \<ge> (128::nat) \<or> (32 \<le> (of_char c :: nat) \<and> of_char c < (127::nat)))" "map_of letter_escapes c = Some l"
    | "c \<noteq> DQ" "c \<noteq> BSL" "\<not> (of_char c \<ge> (128::nat) \<or> (32 \<le> (of_char c :: nat) \<and> of_char c < (127::nat)))" "map_of letter_escapes c = None"
    by fastforce
  then show ?thesis
  proof cases
    case 1
    then show ?thesis
      using swap oct by (auto simp: quote_char_def unquote_char_def unquote_escape_def)
  next
    case 2
    then show ?thesis by (auto simp: quote_char_def unquote_char_def)
  next
    case 3
    then have "quote_char c = [BSL, l]" by (auto simp: quote_char_def Let_def)
    then show ?thesis using letter_escapes_inverse [OF 3(4)] by (simp add: unquote_char_def unquote_escape_def)
  next
    case 4
    then have q: "quote_char c = [BSL, CHR ''x'', hex_digit (of_char c div 16), hex_digit (of_char c mod 16)]"
      by (auto simp: quote_char_def Let_def)
    show ?thesis
      using hex swap unfolding q
      by (simp add: unquote_char_def unquote_escape_def take_exact_def del: hex_number.simps)
  qed
qed

lemma quote_char_nonempty: "quote_char c \<noteq> []"
  by (auto simp: quote_char_def Let_def split: option.split)

lemma unquote_chars_quote:
  "length (concat (map quote_char s)) \<le> k \<Longrightarrow> unquote_chars k DQ (concat (map quote_char s)) = Some s"
proof (induction s arbitrary: k)
  case (Cons c s)
  obtain x y where xy: "quote_char c = x # y" using quote_char_nonempty [of c] by (cases "quote_char c") auto
  with Cons.prems obtain k' where k: "k = Suc k'" by (cases k) auto
  have "unquote_chars k' DQ (concat (map quote_char s)) = Some s"
    using Cons xy k by auto
  then show ?case
    using unquote_quote_char [of c "concat (map quote_char s)"] xy by (simp add: k)
qed simp

lemma quote_char_line: "NL \<notin> set (quote_char c)"
proof -
  have "NL \<noteq> hex_digit n" if "n < 16" for n
  proof
    assume "NL = hex_digit n"
    then have "hex_value NL = Some n" using hex_digit_value [OF that] by simp
    then show False by (simp add: hex_value_def)
  qed
  moreover have "of_char c div 16 < (16::nat)" by (simp add: less_mult_imp_div_less)
  ultimately show ?thesis by (auto simp: quote_char_def Let_def dest: letter_escapes_char split: option.split)
qed

lemma Unquote_Quote: "Unquote (Quote s) = Some s"
  using unquote_chars_quote [of s "length (concat (map quote_char s))"] quote_char_line
  by (auto simp: Unquote_def Quote_def butlast_append Let_def)

text \<open>C0: \<^verbatim>\<open>strconv.Unquote\<close> takes back what \<^verbatim>\<open>strconv.Quote\<close> made, for every string, and the quoted text has no line break.\<close>

theorem Unquote_Quote_inverse: "Unquote (Quote s) = Some s \<and> NL \<notin> set (Quote s)"
  using Unquote_Quote [of s] quote_char_line by (auto simp: Quote_def)

end
