(* ===== verification/CC.thy ===== *)
theory CC
  imports Ssh Quote "HOL-Library.Multiset"
begin

text \<open>
  \<^verbatim>\<open>pkg/cc\<close>: the appliers of a configuration, and the phases that run them.
\<close>

subsection \<open>Phases\<close>

type_synonym applier = "CloudConfig \<Rightarrow> unit result io"

text \<open>Every applier runs; the errors are collected.\<close>

fun run_each :: "CloudConfig \<Rightarrow> applier list \<Rightarrow> goerr list \<Rightarrow> goerr list io" where
  "run_each c [] errs = State_Monad.return errs"
| "run_each c (a # as) errs = do {
     r \<leftarrow> a c;
     run_each c as (case r of Inl e \<Rightarrow> errs @ [e] | Inr _ \<Rightarrow> errs) }"

definition runApplies :: "CloudConfig \<Rightarrow> applier list \<Rightarrow> unit result io" where
  "runApplies c as = do {
     errs \<leftarrow> run_each c as [];
     if errs \<noteq> [] then fail (MultiError errs) else ok () }"

subsection \<open>k3s\<close>

definition version_Version :: string where "version_Version = ''HEAD''"

definition k3s_exists :: "string \<Rightarrow> bool io" where
  "k3s_exists p = do { r \<leftarrow> os_Stat p; State_Monad.return (case r of Inr _ \<Rightarrow> True | Inl _ \<Rightarrow> False) }"

text \<open>The variables of the install script: \<open>None\<close> when there is nothing to run.\<close>

definition k3s_vars :: "edgi \<Rightarrow> bool \<Rightarrow> bool \<Rightarrow> bool \<Rightarrow> bool \<Rightarrow> string list option" where
  "k3s_vars e k3sExists k3sLocalExists restart inst =
     (if \<not> k3sExists \<and> \<not> restart then None
      else if \<not> k3sExists \<and> \<not> k3sLocalExists \<and> \<not> inst then None
      else Some
        ([''INSTALL_K3S_NAME=service''] @
         (if k3sExists
          then [''INSTALL_K3S_SKIP_DOWNLOAD=true'', ''INSTALL_K3S_BIN_DIR=/sbin'',
                ''INSTALL_K3S_BIN_DIR_READ_ONLY=true'']
          else if k3sLocalExists then [''INSTALL_K3S_SKIP_DOWNLOAD=true'']
          else []) @
         (if \<not> restart then [''INSTALL_K3S_SKIP_START=true''] else []) @
         (if ServerURL e = [] then [] else [''K3S_URL='' @ ServerURL e]) @
         (if HasPrefix (Token e) ''K10'' then [''K3S_TOKEN='' @ Token e]
          else if Token e \<noteq> [] then [''K3S_CLUSTER_SECRET='' @ Token e]
          else [])))"

definition k3s_labels :: "edgi \<Rightarrow> string \<Rightarrow> string list" where
  "k3s_labels e mo =
     sort (map (\<lambda>(k, v). k @ ''='' @ v) (Labels e) @
           (if mo \<noteq> [] then [''edgi.io/edgi-os/mode='' @ mo] else []) @
           [''edgi.io/edgi-os/version='' @ version_Version])"

definition k3s_args :: "edgi \<Rightarrow> string \<Rightarrow> string list" where
  "k3s_args e mo =
     (if K3sArgs e \<noteq> [] then K3sArgs e else if ServerURL e = [] then [''server''] else [''agent'']) @
     concat (map (\<lambda>l. [''--node-label'', l]) (k3s_labels e mo)) @
     concat (map (\<lambda>t. [''--kubelet-arg'', ''register-with-taints='' @ t]) (Taints e))"

definition ApplyK3S :: "bool \<Rightarrow> bool \<Rightarrow> applier" where
  "ApplyK3S restart inst c =
     check (mode_Get []) (\<lambda>mo.
       if mo = ''install'' then ok ()
       else do {
         k3sExists \<leftarrow> k3s_exists ''/sbin/k3s'';
         k3sLocalExists \<leftarrow> k3s_exists ''/usr/local/bin/k3s'';
         case k3s_vars (EDGI c) k3sExists k3sLocalExists restart inst of
           None \<Rightarrow> ok ()
         | Some vars \<Rightarrow> do {
             env \<leftarrow> os_Environ;
             cmd_Run ((exec_Command (''/usr/libexec/edgi/k3s-install.sh'' # k3s_args (EDGI c) mo))
                      \<lparr>c_env := env @ vars\<rparr>) } })"

definition ApplyInstall :: applier where
  "ApplyInstall c =
     check (mode_Get []) (\<lambda>mo.
       if mo \<noteq> ''install'' then ok () else cmd_Run (exec_Command [''edgi'', ''install'']))"

subsection \<open>Network\<close>

definition wrap_error :: "string \<Rightarrow> 'a result io \<Rightarrow> 'a result io" where
  "wrap_error msg m = do { r \<leftarrow> m; State_Monad.return (case r of Inl e \<Rightarrow> Inl (Wrapped msg e) | Inr a \<Rightarrow> Inr a) }"

definition dns_config :: "edgi \<Rightarrow> string" where
  "dns_config e =
     ''[General]'' @ [NL] @ ''NetworkInterfaceBlacklist=veth'' @ [NL] @
     ''PreferredTechnologies=ethernet,wifi'' @ [NL] @
     (if DNSNameservers e \<noteq> [] then ''FallbackNameservers='' @ Join (DNSNameservers e) '','' @ [NL]
      else ''FallbackNameservers=8.8.8.8'' @ [NL]) @
     (if NTPServers e \<noteq> [] then ''FallbackTimeservers='' @ Join (NTPServers e) '','' @ [NL] else [])"

definition ApplyDNS :: applier where
  "ApplyDNS c =
     wrap_error ''failed to write /etc/connman/main.conf''
       (ioutil_WriteFile ''/etc/connman/main.conf'' (dns_config (EDGI c)) 0x1A4)"

definition wifi_settings :: string where
  "wifi_settings = ''[WiFi]'' @ [NL] @ ''Enable=true'' @ [NL] @ ''Tethering=false'' @ [NL]"

definition wifi_service :: "nat \<Rightarrow> wifi \<Rightarrow> string" where
  "wifi_service i x =
     ''[service_wifi'' @ Itoa (int i) @ '']'' @ [NL] @ ''Type=wifi'' @ [NL] @
     ''Passphrase='' @ wifi_Passphrase x @ [NL] @ ''Name='' @ wifi_Name x @ [NL]"

definition wifi_config :: "wifi list \<Rightarrow> string" where
  "wifi_config ws =
     ''[global]'' @ [NL] @ ''Name=cloud-config'' @ [NL] @
     ''Description=Services defined in the cloud-config'' @ [NL] @
     concat (map (\<lambda>(i, x). wifi_service i x) (zip [0..<length ws] ws))"

definition ApplyWifi :: applier where
  "ApplyWifi c =
     (if Wifi (EDGI c) = [] then ok ()
      else check (wrap_error ''failed to mkdir /var/lib/connman'' (os_MkdirAll ''/var/lib/connman'' 0x1ED)) (\<lambda>_.
           check (wrap_error ''failed to write to /var/lib/connman/settings''
                    (ioutil_WriteFile ''/var/lib/connman/settings'' wifi_settings 0x1A4)) (\<lambda>_.
             ioutil_WriteFile ''/var/lib/connman/cloud-config.config'' (wifi_config (Wifi (EDGI c))) 0x1A4)))"

definition ApplyDataSource :: applier where
  "ApplyDataSource c =
     (if DataSources (EDGI c) = [] then ok ()
      else wrap_error ''failed to write to /etc/conf.d/cloud-config''
             (ioutil_WriteFile ''/etc/conf.d/cloud-config''
                (''command_args='' @ [DQ] @ Join (DataSources (EDGI c)) '' '' @ [DQ, NL]) 0x1A4))"

subsection \<open>The environment\<close>

text \<open>One line of \<^verbatim>\<open>/etc/environment\<close>.\<close>

definition env_line :: "string \<Rightarrow> (string \<times> string) list \<Rightarrow> (string \<times> string) list" where
  "env_line l env =
     (let line = TrimSpace l
      in if HasPrefix line ''#'' then env
         else let line = TrimSpace (TrimPrefix line ''export'')
              in if length line > 1 then
                   (let parts = SplitN2 line CHR ''='';
                        v = (case parts of
                               _ # p # _ \<Rightarrow> (case Unquote p of None \<Rightarrow> p | Some u \<Rightarrow> u)
                             | _ \<Rightarrow> [])
                    in AList.update (hd parts) v env)
                 else env)"

definition parse_environment :: "bytes \<Rightarrow> (string \<times> string) list" where
  "parse_environment b = fold env_line (fst (scan_lines b)) []"

definition merge_environment :: "(string \<times> string) list \<Rightarrow> (string \<times> string) list \<Rightarrow> (string \<times> string) list" where
  "merge_environment new env = fold (\<lambda>(k, v). AList.update k v) new env"

definition render_environment :: "(string \<times> string) list \<Rightarrow> string" where
  "render_environment env = concat (map (\<lambda>(k, v). k @ ''='' @ Quote v @ [NL]) env)"

text \<open>\<open>iter\<close> is the order in which the run visits the map it writes.\<close>

definition ApplyEnvironment :: "((string \<times> string) list \<Rightarrow> (string \<times> string) list) \<Rightarrow> applier" where
  "ApplyEnvironment iter c =
     (if Environment (EDGI c) = [] then ok ()
      else do {
        r \<leftarrow> ioutil_ReadFile ''/etc/environment'';
        let env = (case r of Inl _ \<Rightarrow> [] | Inr b \<Rightarrow> parse_environment b);
        wrap_error ''failed to write to /etc/environment''
          (ioutil_WriteFile ''/etc/environment''
             (render_environment (iter (merge_environment (Environment (EDGI c)) env))) 0x1A4) })"

subsection \<open>The lists of appliers\<close>

definition ApplyWriteFiles :: "(bytes \<Rightarrow> bytes option) \<Rightarrow> applier" where
  "ApplyWriteFiles gunzip c = do { WriteFiles_run gunzip c; ok () }"

text \<open>What lies outside the sources: decompression, the rest of a URL, the order of map iterations.\<close>

record externals =
  x_gunzip :: "bytes \<Rightarrow> bytes option"
  x_url_ok :: "string \<Rightarrow> bool"
  x_iter :: "(string \<times> string) list \<Rightarrow> (string \<times> string) list"

definition ApplyModules :: applier where "ApplyModules = LoadModules"
definition ApplySysctls :: applier where "ApplySysctls = ConfigureSysctl"
definition ApplyHostname :: applier where "ApplyHostname = SetHostname"
definition ApplyPassword :: applier where "ApplyPassword c = SetPassword (Password (EDGI c))"
definition ApplyRuncmd :: applier where "ApplyRuncmd c = ExecuteCommand (Runcmd c)"
definition ApplyBootcmd :: applier where "ApplyBootcmd c = ExecuteCommand (Bootcmd c)"
definition ApplyInitcmd :: applier where "ApplyInitcmd c = ExecuteCommand (Initcmd c)"

definition ApplySSHKeys :: "externals \<Rightarrow> applier" where
  "ApplySSHKeys x c = SetAuthorizedKeys (x_url_ok x) c False"

definition ApplySSHKeysWithNet :: "externals \<Rightarrow> applier" where
  "ApplySSHKeysWithNet x c = SetAuthorizedKeys (x_url_ok x) c True"

definition ApplyK3SWithRestart :: applier where "ApplyK3SWithRestart = ApplyK3S True False"
definition ApplyK3SInstall :: applier where "ApplyK3SInstall = ApplyK3S True True"
definition ApplyK3SNoRestart :: applier where "ApplyK3SNoRestart = ApplyK3S False False"

definition run_appliers :: "externals \<Rightarrow> applier list" where
  "run_appliers x =
     [ApplyModules, ApplySysctls, ApplyHostname, ApplyDNS, ApplyWifi, ApplyPassword,
      ApplySSHKeysWithNet x, ApplyWriteFiles (x_gunzip x), ApplyEnvironment (x_iter x), ApplyRuncmd,
      ApplyInstall, ApplyK3SInstall]"

definition RunApply :: "externals \<Rightarrow> applier" where
  "RunApply x c = runApplies c (run_appliers x)"

definition InstallApply :: applier where
  "InstallApply c = runApplies c [ApplyK3SWithRestart]"

definition boot_appliers :: "externals \<Rightarrow> applier list" where
  "boot_appliers x =
     [ApplyDataSource, ApplyModules, ApplySysctls, ApplyHostname, ApplyDNS, ApplyWifi, ApplyPassword,
      ApplySSHKeys x, ApplyK3SNoRestart, ApplyWriteFiles (x_gunzip x), ApplyEnvironment (x_iter x),
      ApplyBootcmd]"

definition BootApply :: "externals \<Rightarrow> applier" where
  "BootApply x c = runApplies c (boot_appliers x)"

definition init_appliers :: "externals \<Rightarrow> applier list" where
  "init_appliers x =
     [ApplyModules, ApplySysctls, ApplyHostname, ApplyWriteFiles (x_gunzip x),
      ApplyEnvironment (x_iter x), ApplyInitcmd]"

definition InitApply :: "externals \<Rightarrow> applier" where
  "InitApply x c = runApplies c (init_appliers x)"

subsection \<open>Every applier runs\<close>

fun run_all :: "CloudConfig \<Rightarrow> applier list \<Rightarrow> world \<Rightarrow> unit result list \<times> world" where
  "run_all c [] w = ([], w)"
| "run_all c (a # as) w =
     (case run_state (a c) w of (r, u) \<Rightarrow> (case run_all c as u of (rs, v) \<Rightarrow> (r # rs, v)))"

definition errors :: "unit result list \<Rightarrow> goerr list" where
  "errors rs = concat (map (\<lambda>r. case r of Inl e \<Rightarrow> [e] | Inr _ \<Rightarrow> []) rs)"

lemma run_each_all:
  "run_state (run_each c as errs) w = (case run_all c as w of (rs, u) \<Rightarrow> (errs @ errors rs, u))"
  by (induction as arbitrary: errs w) (auto simp: errors_def split: prod.split sum.split)

lemma runApplies_all:
  "run_state (runApplies c as) w =
     (case run_all c as w of (rs, u) \<Rightarrow> (if errors rs = [] then Inr () else Inl (MultiError (errors rs)), u))"
  by (simp add: runApplies_def run_each_all split: prod.split)

subsection \<open>The installation of k3s\<close>

lemma k3s_labels_order:
  assumes "mset (Labels e) = mset (Labels e')"
  shows "k3s_labels e mo = k3s_labels e' mo" "sorted (k3s_labels e mo)"
proof -
  show "k3s_labels e mo = k3s_labels e' mo"
    unfolding k3s_labels_def using assms
    by (intro properties_for_sort) simp_all
qed (simp add: k3s_labels_def)

lemma k3s_vars_spec:
  assumes "k3s_vars e ex lo restart inst = Some vs"
  shows "(ex \<or> restart \<and> (lo \<or> inst)) \<and>
    (''INSTALL_K3S_SKIP_DOWNLOAD=true'' \<in> set vs \<longleftrightarrow> ex \<or> lo) \<and>
    (''INSTALL_K3S_SKIP_START=true'' \<in> set vs \<longleftrightarrow> \<not> restart) \<and>
    (\<forall>t. ''K3S_TOKEN='' @ t \<in> set vs \<longrightarrow> t = Token e \<and> HasPrefix t ''K10'') \<and>
    (\<forall>t. ''K3S_CLUSTER_SECRET='' @ t \<in> set vs \<longrightarrow> t = Token e \<and> \<not> HasPrefix t ''K10'')"
  using assms unfolding k3s_vars_def by (auto split: if_splits)

subsection \<open>The file of the environment\<close>

lemma TrimSpace_ends:
  assumes "s = c # t" "s = u @ [d]" "CHR 0x20 < c" "c < CHR 0x7F" "CHR 0x20 < d" "d < CHR 0x7F"
  shows "TrimSpace s = s"
proof -
  have "TrimLeftSpace s = s" using assms(3,4) by (subst TrimLeftSpace.simps) (simp add: assms(1) space_len_wordy)
  moreover have "TrimRightSpace s = s"
    using assms(5,6) by (subst TrimRightSpace.simps) (simp add: assms(2) space_len_end_wordy)
  ultimately show ?thesis by (simp add: TrimSpace_def)
qed

definition env_key :: "string \<Rightarrow> bool" where
  "env_key k \<longleftrightarrow> k \<noteq> [] \<and> wordy k \<and> CHR ''='' \<notin> set k \<and> \<not> HasPrefix k ''#'' \<and> \<not> HasPrefix k ''export''"

abbreviation env_text :: "string \<times> string \<Rightarrow> string" where
  "env_text e \<equiv> fst e @ ''='' @ Quote (snd e)"

lemma no_export: "env_key k \<Longrightarrow> \<not> HasPrefix (k @ CHR ''='' # s) ''export''"
proof
  assume k: "env_key k" "HasPrefix (k @ CHR ''='' # s) ''export''"
  then have "prefix ''export'' k \<or> prefix k ''export''"
    unfolding HasPrefix_def by (meson append_prefixD prefix_def prefix_same_cases)
  then show False
  proof
    assume "prefix k ''export''"
    then obtain z where z: "''export'' = k @ z" by (auto simp: prefix_def)
    with k(2) have "prefix z (CHR ''='' # s)" by (simp add: HasPrefix_def)
    moreover have "CHR ''='' \<notin> set (k @ z)" unfolding z [symmetric] by simp
    ultimately have "z = []" by (cases z) simp_all
    with z k(1) show False by (simp add: env_key_def HasPrefix_def)
  qed (use k in \<open>simp add: env_key_def HasPrefix_def\<close>)
qed

lemma env_line_text:
  assumes "env_key (fst e)"
  shows "env_line (env_text e) env = AList.update (fst e) (snd e) env"
proof -
  obtain k v where e: "e = (k, v)" by (cases e)
  obtain c t where k: "k = c # t" using assms e by (cases k) (auto simp: env_key_def)
  have u: "env_text e = (k @ ''='' @ DQ # concat (map quote_char v)) @ [DQ]" by (simp add: e Quote_def)
  have c: "CHR 0x20 < c" "c < CHR 0x7F" using assms e k by (auto simp: env_key_def)
  have "env_text e = c # (t @ ''='' @ Quote v)" by (simp add: e k)
  from TrimSpace_ends [OF this u c] have trim: "TrimSpace (env_text e) = env_text e" by (simp add: less_char_def)
  have h: "\<not> HasPrefix (env_text e) ''#''" using assms by (auto simp: e k env_key_def HasPrefix_def)
  have x: "TrimPrefix (env_text e) ''export'' = env_text e"
    using no_export [OF assms] by (simp add: TrimPrefix_def e)
  have l: "1 < length (env_text e)" by (simp add: e k)
  have sp: "SplitN2 (env_text e) CHR ''='' = [k, Quote v]"
    using SplitN2_sep [of "CHR ''=''" k "Quote v"] assms e by (simp add: env_key_def)
  show ?thesis
    unfolding env_line_def Let_def trim x sp using h l by (simp add: Unquote_Quote e)
qed

lemma scan_raw_lines:
  assumes "\<forall>l \<in> set ls. length l < MaxScanTokenSize \<and> dropCR l = l"
  shows "scan_raw (ls @ [[]]) = (ls, False)"
  using assms
proof (induction ls)
  case (Cons l ls)
  then show ?case by (cases "ls @ [[]]") (auto simp: not_le [symmetric])
qed (simp add: MaxScanTokenSize_def)

lemma scan_lines_concat:
  assumes "\<forall>l \<in> set ls. length l < MaxScanTokenSize \<and> dropCR l = l \<and> NL \<notin> set l"
  shows "scan_lines (concat (map (\<lambda>l. l @ [NL]) ls)) = (ls, False)"
proof -
  have "Split (concat (map (\<lambda>l. l @ [NL]) ls)) NL = ls @ [[]]"
    using assms by (induction ls) (auto simp: Split_append_sep)
  then show ?thesis using scan_raw_lines assms by (simp add: scan_lines_def)
qed

lemma env_text_line:
  assumes "env_key (fst e)"
  shows "dropCR (env_text e) = env_text e" "NL \<notin> set (env_text e)"
proof -
  show "dropCR (env_text e) = env_text e" by (simp add: dropCR_def Quote_def)
  have "NL \<notin> set (fst e)" using assms by (auto simp: env_key_def wordy_def less_char_def)
  then show "NL \<notin> set (env_text e)" using quote_char_line by (auto simp: Quote_def)
qed

lemma parse_render_environment:
  assumes "\<forall>e \<in> set env. env_key (fst e) \<and> length (env_text e) < MaxScanTokenSize"
  shows "parse_environment (render_environment env) = merge_environment env []"
proof -
  have "render_environment env = concat (map (\<lambda>l. l @ [NL]) (map env_text env))"
    by (simp add: render_environment_def case_prod_unfold comp_def)
  moreover have "fst (scan_lines (concat (map (\<lambda>l. l @ [NL]) (map env_text env)))) = map env_text env"
    using assms env_text_line by (subst scan_lines_concat) auto
  moreover have "fold env_line (map env_text env) acc = merge_environment env acc" for acc
    using assms
    by (induction env arbitrary: acc) (auto simp: merge_environment_def env_line_text simp del: append.simps append_Cons)
  ultimately show ?thesis by (simp add: parse_environment_def)
qed

lemma merge_environment_new:
  "distinct (map fst env) \<Longrightarrow> set (map fst env) \<inter> set (map fst acc) = {} \<Longrightarrow> merge_environment env acc = acc @ env"
proof (induction env arbitrary: acc)
  case (Cons e env)
  obtain k v where e: "e = (k, v)" by (cases e)
  have "AList.update k v acc = acc @ [(k, v)]"
    using Cons.prems by (induction acc) (auto simp: e)
  then show ?case using Cons by (simp add: merge_environment_def e)
qed (simp add: merge_environment_def)

lemma merge_environment_lookup:
  "distinct (map fst new) \<Longrightarrow> map_of (merge_environment new env) k = (case map_of new k of Some v \<Rightarrow> Some v | None \<Rightarrow> map_of env k)"
proof (induction new arbitrary: env)
  case (Cons e new)
  have "map_of new (fst e) = None" using Cons.prems by (simp add: map_of_eq_None_iff)
  with Cons show ?case
    by (cases e) (auto simp: merge_environment_def update_conv' split: option.split)
qed (simp add: merge_environment_def)

text \<open>C25: A phase runs all its appliers in order, each in the state the one before left, and fails if one failed, with the errors of all
  that did, in order: an early failure never keeps a later applier from running.\<close>

theorem runApplies_runs_all:
  "run_state (runApplies c as) w =
     (case run_all c as w of (rs, u) \<Rightarrow> (if errors rs = [] then Inr () else Inl (MultiError (errors rs)), u))
   \<and> length (fst (run_all c as w)) = length as"
proof -
  have "length (fst (run_all c as w)) = length as" for w
    by (induction as arbitrary: w) (simp_all add: case_prod_unfold)
  then show ?thesis using runApplies_all by blast
qed





text \<open>C17: \<^verbatim>\<open>/etc/environment\<close> as \<^verbatim>\<open>ApplyEnvironment\<close> writes it is read back by the next run as it was, for every value, quotes, blanks, control
  characters and line breaks included, as long as the names are ordinary and a line fits the scanner's buffer; and new variables win over
  old ones.\<close>

theorem environment_roundtrip:
  assumes "\<forall>e \<in> set env. env_key (fst e) \<and> length (fst e @ ''='' @ Quote (snd e)) < MaxScanTokenSize" "distinct (map fst env)"
  shows "parse_environment (render_environment env) = env \<and>
    (\<forall>k. map_of (merge_environment env old) k = (case map_of env k of Some v \<Rightarrow> Some v | None \<Rightarrow> map_of old k))"
  using parse_render_environment [OF assms(1)] merge_environment_new [of env "[]"] merge_environment_lookup [of env old] assms(2)
  by simp

theorem environment_roundtrip_witness:
  "parse_environment (render_environment [(''A'', ''x y''), (''B'', [DQ, NL, BSL])]) = [(''A'', ''x y''), (''B'', [DQ, NL, BSL])]"
  using environment_roundtrip [of "[(''A'', ''x y''), (''B'', [DQ, NL, BSL])]" "[]"]
  by (simp add: env_key_def HasPrefix_def Quote_def quote_char_def letter_escapes_def MaxScanTokenSize_def less_char_def)

end
