(* ===== verification/RC.thy ===== *)
theory RC
  imports Upgrade
begin

text \<open>
  \<^verbatim>\<open>pkg/cli/rc/rc.go\<close>: the early set-up of a booted system. There is nobody to report an error
  to, so every operation logs and goes on.
\<close>

definition log_failure :: "unit result io \<Rightarrow> unit io" where
  "log_failure m = do {
     r \<leftarrow> m;
     case r of Inl _ \<Rightarrow> emit (EvLog LInfo) | Inr _ \<Rightarrow> skip }"

definition ignore :: "'a io \<Rightarrow> unit io" where
  "ignore m = do { _ \<leftarrow> m; skip }"

subsection \<open>Helpers\<close>

definition rc_mkdir :: "string \<Rightarrow> mode \<Rightarrow> unit io" where
  "rc_mkdir p perm = log_failure (os_MkdirAll p perm)"

definition rc_mountSilent :: "string \<Rightarrow> string \<Rightarrow> string \<Rightarrow> mflags \<Rightarrow> string \<Rightarrow> unit io" where
  "rc_mountSilent source target fstype flags data = ignore (unix_Mount source target fstype flags data)"

definition rc_mount :: "string \<Rightarrow> string \<Rightarrow> string \<Rightarrow> mflags \<Rightarrow> string \<Rightarrow> unit io" where
  "rc_mount source target fstype flags data = do {
     rc_mkdir target 0x1ED;
     log_failure (unix_Mount source target fstype flags data) }"

text \<open>\<^verbatim>\<open>unix.Mkdev\<close>: 32-bit arguments, a 64-bit device number.\<close>

definition unix_Mkdev :: "32 word \<Rightarrow> 32 word \<Rightarrow> 64 word" where
  "unix_Mkdev major minor =
     (let ma = ucast major :: 64 word; mi = ucast minor :: 64 word
      in push_bit 8 (ma AND 0xFFF) OR push_bit 32 (ma AND 0xFFFFF000)
         OR (mi AND 0xFF) OR push_bit 12 (mi AND 0xFFFFFF00))"

definition unix_Major :: "64 word \<Rightarrow> 32 word" where
  "unix_Major dev = ucast (drop_bit 8 (dev AND 0xFFF00)) OR ucast (drop_bit 32 (dev AND 0xFFFFF00000000000))"

definition unix_Minor :: "64 word \<Rightarrow> 32 word" where
  "unix_Minor dev = ucast (dev AND 0xFF) OR ucast (drop_bit 12 (dev AND 0xFFFFFF00000))"

text \<open>That the file exists already is no failure.\<close>

definition mkchar :: "string \<Rightarrow> mode \<Rightarrow> 32 word \<Rightarrow> 32 word \<Rightarrow> unit io" where
  "mkchar p mo major minor = do {
     r \<leftarrow> unix_Mknod p mo (sint (unix_Mkdev major minor));
     case r of
       Inl e \<Rightarrow> if underlying e = Some EEXIST then skip else emit (EvLog LInfo)
     | Inr _ \<Rightarrow> skip }"

definition rc_symlink :: "string \<Rightarrow> string \<Rightarrow> unit io" where
  "rc_symlink old new = ignore (os_Symlink old new)"

definition rc_write :: "string \<Rightarrow> string \<Rightarrow> unit io" where
  "rc_write p v = log_failure (ioutil_WriteFile p v 0x180)"

definition rc_read :: "string \<Rightarrow> string io" where
  "rc_read p = do {
     r \<leftarrow> ioutil_ReadFile p;
     State_Monad.return (case r of Inl _ \<Rightarrow> [] | Inr d \<Rightarrow> TrimSpace d) }"

definition rc_readdir :: "string \<Rightarrow> string list io" where
  "rc_readdir p = do {
     r \<leftarrow> ioutil_ReadDir p;
     case r of
       Inl _ \<Rightarrow> do { emit (EvLog LInfo); State_Monad.return [] }
     | Inr fs \<Rightarrow> State_Monad.return (map fi_name fs) }"

definition rc_exists :: "string \<Rightarrow> bool io" where
  "rc_exists p = do {
     r \<leftarrow> os_Stat p;
     State_Monad.return (case r of Inl _ \<Rightarrow> False | Inr _ \<Rightarrow> True) }"

subsection \<open>\<^verbatim>\<open>encoding/csv\<close>\<close>

text \<open>The reader with its default options and a given separator. Line ends \<^verbatim>\<open>CR NL\<close> become \<^verbatim>\<open>NL\<close>, and a
  \<^verbatim>\<open>CR\<close> that ends the input is dropped. The state is that of the reader between two bytes; \<open>None\<close>
  is a parse error, \<^verbatim>\<open>ErrBareQuote\<close>, \<^verbatim>\<open>ErrQuote\<close> or a wrong number of fields.\<close>

fun csv_normal :: "string \<Rightarrow> string" where
  "csv_normal [] = []"
| "csv_normal (c # cs) =
     (if c = CR \<and> (case cs of [] \<Rightarrow> True | d # _ \<Rightarrow> d = NL) then csv_normal cs else c # csv_normal cs)"

datatype csv_state = RecordStart | FieldStart | Unquoted | Quoted | QuoteSeen

definition csv_record :: "nat \<Rightarrow> string list \<Rightarrow> string list list option \<Rightarrow> string list list option" where
  "csv_record n r rest = (if length r = n then map_option (\<lambda>rs. r # rs) rest else None)"

fun csv_read :: "char \<Rightarrow> nat \<Rightarrow> csv_state \<Rightarrow> string \<Rightarrow> string list \<Rightarrow> string \<Rightarrow> string list list option" where
  "csv_read comma n st f r [] =
     (case st of
        RecordStart \<Rightarrow> Some []
      | Quoted \<Rightarrow> None
      | _ \<Rightarrow> csv_record n (r @ [f]) (Some []))"
| "csv_read comma n st f r (c # cs) =
     (case st of
        Quoted \<Rightarrow>
          if c = DQ then csv_read comma n QuoteSeen f r cs else csv_read comma n Quoted (f @ [c]) r cs
      | QuoteSeen \<Rightarrow>
          if c = DQ then csv_read comma n Quoted (f @ [c]) r cs
          else if c = comma then csv_read comma n FieldStart [] (r @ [f]) cs
          else if c = NL then csv_record n (r @ [f]) (csv_read comma n RecordStart [] [] cs)
          else None
      | _ \<Rightarrow>
          if st = RecordStart \<and> c = NL then csv_read comma n RecordStart [] [] cs
          else if c = DQ then if st = Unquoted then None else csv_read comma n Quoted [] r cs
          else if c = comma then csv_read comma n FieldStart [] (r @ [f]) cs
          else if c = NL then csv_record n (r @ [f]) (csv_read comma n RecordStart [] [] cs)
          else csv_read comma n Unquoted (f @ [c]) r cs)"

definition csv_ReadAll :: "char \<Rightarrow> nat \<Rightarrow> string \<Rightarrow> string list list option" where
  "csv_ReadAll comma n s = csv_read comma n RecordStart [] [] (csv_normal s)"

text \<open>The control groups the kernel has enabled. A read error is a parse error.\<close>

definition fd_ReadData :: "path \<Rightarrow> bytes result io" where
  "fd_ReadData h = sysc ''read'' (abs_string h) (\<lambda>w.
     Inr (case look (files w) h of Some (Reg _ c) \<Rightarrow> c | _ \<Rightarrow> [], w))"

definition enabled_cgroups :: "string list list \<Rightarrow> string list" where
  "enabled_cgroups rs = map (\<lambda>cg. cg ! 0) (filter (\<lambda>cg. cg ! 3 = ''1'') rs)"

definition cgroupList :: "string list io" where
  "cgroupList = do {
     f \<leftarrow> os_Open ''/proc/cgroups'';
     case f of
       Inl _ \<Rightarrow> do { emit (EvLog LInfo); State_Monad.return [] }
     | Inr h \<Rightarrow> defer_after
         (do {
            d \<leftarrow> fd_ReadData h;
            case (case d of Inl _ \<Rightarrow> None | Inr s \<Rightarrow> csv_ReadAll (CHR 0x09) 4 s) of
              None \<Rightarrow> do { emit (EvLog LInfo); State_Monad.return [] }
            | Some rs \<Rightarrow> State_Monad.return (enabled_cgroups rs) })
         (fd_Close h) }"

subsection \<open>\<^verbatim>\<open>filepath.Glob\<close>\<close>

text \<open>For the patterns the code uses: a component is \<^verbatim>\<open>*\<close> or a plain name. Errors of the file
  system are ignored.\<close>

definition glob_match :: "string \<Rightarrow> string \<Rightarrow> bool" where
  "glob_match pat name \<longleftrightarrow> pat = ''*'' \<or> pat = name"

definition glob_in :: "string \<Rightarrow> string \<Rightarrow> string list io" where
  "glob_in pat dir = do {
     s \<leftarrow> os_Stat dir;
     if (case s of Inr i \<Rightarrow> \<not> fi_IsDir i | Inl _ \<Rightarrow> True) then State_Monad.return []
     else do {
       l \<leftarrow> ioutil_ReadDir dir;
       State_Monad.return
         (case l of Inl _ \<Rightarrow> [] | Inr fs \<Rightarrow> map (\<lambda>i. PathJoin [dir, fi_name i]) (filter (\<lambda>i. glob_match pat (fi_name i)) fs)) } }"

fun collect :: "('a \<Rightarrow> 'b list io) \<Rightarrow> 'a list \<Rightarrow> 'b list io" where
  "collect f [] = State_Monad.return []"
| "collect f (x # xs) = do { a \<leftarrow> f x; b \<leftarrow> collect f xs; State_Monad.return (a @ b) }"

fun glob_from :: "string list \<Rightarrow> string list \<Rightarrow> string list io" where
  "glob_from dirs [] = State_Monad.return dirs"
| "glob_from dirs (pat # pats) = do { ds \<leftarrow> collect (glob_in pat) dirs; glob_from ds pats }"

definition modalias :: "string \<Rightarrow> unit io" where
  "modalias p = do {
     alias \<leftarrow> rc_read p;
     ignore (cmd_Run (exec_Command [''/sbin/modprobe'', ''-abq'', alias])) }"

subsection \<open>The six phases\<close>

abbreviation mount_flags :: mflags where
  "mount_flags \<equiv> MS_NODEV OR MS_NOSUID OR MS_NOEXEC"

definition mount_cgroup :: "string \<Rightarrow> unit io" where
  "mount_cgroup cg = do {
     rc_mkdir (PathJoin [''/sys/fs/cgroup'', cg]) 0x16D;
     rc_mount cg (PathJoin [''/sys/fs/cgroup'', cg]) ''cgroup'' mount_flags cg }"

definition standard_dirs :: "(string \<times> mode) list" where
  "standard_dirs =
     [(''/var/cache'', 0x1ED), (''/var/empty'', 0x16D), (''/var/lib'', 0x1ED), (''/var/local/bin'', 0x1ED),
      (''/var/lock'', 0x1ED), (''/var/log'', 0x1ED), (''/var/opt'', 0x1ED), (''/var/spool'', 0x1ED),
      (''/var/tmp'', 0x3FF), (''/home'', 0x1ED)]"

definition standard_devices :: "(string \<times> mode \<times> 32 word \<times> 32 word) list" where
  "standard_devices =
     [(''/dev/console'', 0x180, 5, 1), (''/dev/tty1'', 0x190, 4, 1), (''/dev/tty'', 0x1B6, 5, 0),
      (''/dev/null'', 0x1B6, 1, 3), (''/dev/kmsg'', 0x1B0, 1, 11)]"

definition standard_links :: "(string \<times> string) list" where
  "standard_links =
     [(''/proc/self/fd'', ''/dev/fd''), (''/proc/self/fd/0'', ''/dev/stdin''), (''/proc/self/fd/1'', ''/dev/stdout''),
      (''/proc/self/fd/2'', ''/dev/stderr''), (''/proc/kcore'', ''/dev/kcore'')]"

definition silent_mounts :: "(string \<times> string \<times> mflags) list" where
  "silent_mounts =
     [(''securityfs'', ''/sys/kernel/security'', mount_flags), (''debugfs'', ''/sys/kernel/debug'', mount_flags),
      (''configfs'', ''/sys/kernel/config'', mount_flags), (''fusectl'', ''/sys/fs/fuse/connections'', mount_flags),
      (''selinuxfs'', ''/sys/fs/selinux'', MS_NOSUID OR MS_NOEXEC), (''pstore'', ''/sys/fs/pstore'', mount_flags),
      (''efivarfs'', ''/sys/firmware/efi/efivars'', mount_flags),
      (''binfmt_misc'', ''/proc/sys/fs/binfmt_misc'', mount_flags)]"

definition doMounts :: "unit io" where
  "doMounts = do {
     rc_mountSilent ''proc'' ''/proc'' ''proc'' (mount_flags OR MS_RELATIME) [];
     rc_mount ''tmpfs'' ''/run'' ''tmpfs'' (mount_flags OR MS_RELATIME) ''size=10%,mode=755'';
     rc_mount ''tmpfs'' ''/tmp'' ''tmpfs'' (mount_flags OR MS_RELATIME) ''size=10%,mode=1777'';
     for_all standard_dirs (\<lambda>(d, perm). rc_mkdir d perm);
     rc_symlink ''/run'' ''/var/run'';
     rc_mount ''dev'' ''/dev'' ''devtmpfs'' (MS_NOSUID OR MS_NOEXEC OR MS_RELATIME) ''size=10m,nr_inodes=248418,mode=755'';
     for_all standard_devices (\<lambda>(d, mo, ma, mi). mkchar d mo ma mi);
     for_all standard_links (\<lambda>(a, b). rc_symlink a b);
     for_all [(''/dev/mqueue'', 0x3FF), (''/dev/shm'', 0x3FF), (''/dev/pts'', 0x1ED)] (\<lambda>(d, perm). rc_mkdir d perm);
     rc_mount ''mqueue'' ''/dev/mqueue'' ''mqueue'' mount_flags [];
     rc_mount ''shm'' ''/dev/shm'' ''tmpfs'' mount_flags ''mode=1777'';
     rc_mount ''devpts'' ''/dev/pts'' ''devpts'' (MS_NOEXEC OR MS_NOSUID) ''gid=5,mode=0620'';
     rc_mount ''sysfs'' ''/sys'' ''sysfs'' mount_flags [];
     for_all silent_mounts (\<lambda>(s, t, fl). rc_mountSilent s t s fl []);
     rc_mount ''cgroup_root'' ''/sys/fs/cgroup'' ''tmpfs'' mount_flags ''mode=755,size=10m'';
     cgs \<leftarrow> cgroupList;
     for_all cgs mount_cgroup;
     rc_write ''/sys/fs/cgroup/memory/memory.use_hierarchy'' ''1'';
     rc_mkdir ''/sys/fs/cgroup/systemd'' 0x16D;
     rc_mount ''cgroup'' ''/sys/fs/cgroup/systemd'' ''cgroup'' 0 ''none,name=systemd'';
     rc_mount [] ''/'' [] (MS_REC OR MS_SHARED) [] }"

definition mdev :: string where "mdev = ''/usr/sbin/mdev''"

definition add_usb :: "string \<Rightarrow> unit io" where
  "add_usb f =
     (if \<not> HasPrefix f ''usb'' then skip
      else do {
        x \<leftarrow> rc_exists (PathJoin [''/sys/devices'', f, ''uevent'']);
        if x then rc_write (PathJoin [''/sys/devices'', f, ''uevent'']) ''add'' else skip })"

definition doHotplug :: "unit io" where
  "doHotplug = do {
     rc_write ''/proc/sys/kernel/hotplug'' mdev;
     fs \<leftarrow> rc_readdir ''/sys/devices'';
     for_all fs add_usb;
     log_failure (cmd_Run (exec_Command [mdev, ''-s'']));
     dfs \<leftarrow> glob_from [''/sys/bus''] [''*'', ''devices'', ''*'', ''modalias''];
     for_all dfs modalias }"

definition doClock :: "unit io" where
  "doClock = log_failure (cmd_Run (exec_Command [''/sbin/hwclock'', ''--hctosys'', ''--utc'']))"

definition doResolvConf :: "unit io" where
  "doResolvConf = do {
     l \<leftarrow> os_Readlink ''/etc/resolv.conf'';
     case l of
       Inl _ \<Rightarrow> skip
     | Inr link \<Rightarrow> do { rc_mkdir (PathDir link) 0x1ED; rc_write link [] } }"

definition doLoopback :: "unit io" where
  "doLoopback = do {
     ignore (cmd_Run (exec_Command [''/sbin/ip'', ''addr'', ''add'', ''127.0.0.1/8'', ''dev'', ''lo'', ''brd'', ''+'', ''scope'', ''host'']));
     ignore (cmd_Run (exec_Command [''/sbin/ip'', ''route'', ''add'', ''127.0.0.0/8'', ''dev'', ''lo'', ''scope'', ''host'']));
     ignore (cmd_Run (exec_Command [''/sbin/ip'', ''link'', ''set'', ''lo'', ''up''])) }"

definition doHostname :: "unit io" where
  "doHostname = do {
     h \<leftarrow> rc_read ''/etc/hostname'';
     (if h \<noteq> [] then log_failure (sys_Sethostname h) else skip);
     r \<leftarrow> os_Hostname;
     case r of
       Inl _ \<Rightarrow> emit (EvLog LInfo)
     | Inr hostname \<Rightarrow>
         if hostname \<noteq> ''(none)'' \<and> hostname \<noteq> [] then skip
         else do {
           mac \<leftarrow> rc_read ''/sys/class/net/eth0/address'';
           if mac = [] then skip
           else log_failure (sys_Sethostname (''edgi-'' @ RemoveAllChar mac CHR '':'')) } }"

definition rc_Action :: "unit io" where
  "rc_Action = do { doMounts; doHotplug; doClock; doLoopback; doHostname; doResolvConf }"

subsection \<open>Device numbers\<close>

lemma dev_masks:
  "(0xFF :: 64 word) = mask 8" "(0xFFF :: 64 word) = mask 12" "(0xFFFFF000 :: 64 word) = push_bit 12 (mask 20)"
  "(0xFFFFFF00 :: 64 word) = push_bit 8 (mask 24)" "(0xFFF00 :: 64 word) = push_bit 8 (mask 12)"
  "(0xFFFFF00000000000 :: 64 word) = push_bit 44 (mask 20)" "(0xFFFFFF00000 :: 64 word) = push_bit 20 (mask 24)"
  by (simp_all add: mask_eq_exp_minus_1 push_bit_eq_mult)

lemma Mkdev_roundtrip: "unix_Major (unix_Mkdev a b) = a" "unix_Minor (unix_Mkdev a b) = b"
  unfolding unix_Major_def unix_Minor_def unix_Mkdev_def Let_def dev_masks
  by (auto intro!: bit_eqI simp: bit_simps)

subsection \<open>Device files\<close>

text \<open>rc: a device node without the bit for character devices is a regular file.\<close>

lemma mkchar_regular:
  assumes "resolve False w s = Inr p" "look (files w) p = None" "calm w" "mo AND S_IFMT = 0"
  shows "wp (mkchar s mo ma mi) (\<lambda>_ u. \<exists>m. look (files u) p = Some (Reg m [])) w"
  unfolding mkchar_def wp_bind
  by (rule wp_Mknod [OF assms(1)]) (use assms in auto)

lemma standard_devices_regular: "list_all (\<lambda>(d, mo, ma, mi). mo AND S_IFMT = 0) standard_devices"
  by (simp add: standard_devices_def S_IFMT_def)

subsection \<open>csv\<close>

definition plain_field :: "char \<Rightarrow> string \<Rightarrow> bool" where
  "plain_field comma f \<longleftrightarrow> f \<noteq> [] \<and> comma \<notin> set f \<and> DQ \<notin> set f \<and> NL \<notin> set f \<and> CR \<notin> set f"

definition csv_line :: "char \<Rightarrow> string list \<Rightarrow> string" where
  "csv_line comma r = Join r [comma] @ [NL]"

lemma csv_normal_id: "CR \<notin> set s \<Longrightarrow> csv_normal s = s"
  by (induction s) auto

lemma csv_field:
  assumes "comma \<notin> set f" "DQ \<notin> set f" "NL \<notin> set f" "st = Unquoted \<or> st = FieldStart \<or> st = RecordStart" "f \<noteq> []"
  shows "csv_read comma n st g r (f @ s) = csv_read comma n Unquoted (g @ f) r s"
  using assms
proof (induction f arbitrary: st g)
  case (Cons c f)
  then show ?case by (cases "f = []") auto
qed simp

lemma csv_record_line:
  assumes "\<forall>f \<in> set fs. plain_field comma f" "fs \<noteq> []" "comma \<noteq> NL" "comma \<noteq> DQ" "st = FieldStart \<or> st = RecordStart"
  shows "csv_read comma n st [] r (Join fs [comma] @ NL # s) = csv_record n (r @ fs) (csv_read comma n RecordStart [] [] s)"
  using assms(1,2,5)
proof (induction fs arbitrary: r st rule: induct_list012)
  case (2 f)
  then show ?case using assms(3) by (auto simp: csv_field plain_field_def)
next
  case (3 f g fs)
  have "csv_read comma n st [] r (f @ comma # Join (g # fs) [comma] @ NL # s) =
      csv_read comma n FieldStart [] (r @ [f]) (Join (g # fs) [comma] @ NL # s)"
    using 3(3,5) assms(3,4) by (subst csv_field) (auto simp: plain_field_def)
  then show ?case using 3 by simp
qed simp

lemma csv_roundtrip:
  assumes "comma \<notin> {NL, DQ, CR}" "n \<noteq> 0" "\<forall>r \<in> set rs. length r = n \<and> (\<forall>f \<in> set r. plain_field comma f)"
  shows "csv_ReadAll comma n (concat (map (csv_line comma) rs)) = Some rs"
proof -
  have "CR \<notin> set (Join fs [comma])" if "\<forall>f \<in> set fs. plain_field comma f" for fs
    using that assms(1) by (induction fs rule: induct_list012) (auto simp: plain_field_def)
  then have "CR \<notin> set (concat (map (csv_line comma) rs))" using assms(3) by (auto simp: csv_line_def)
  moreover have "csv_read comma n RecordStart [] [] (concat (map (csv_line comma) rs)) = Some rs"
    using assms(3)
  proof (induction rs)
    case (Cons r rs)
    have "r \<noteq> []" using Cons.prems assms(2) by auto
    then show ?case
      using Cons csv_record_line [of r comma RecordStart n "[]" "concat (map (csv_line comma) rs)"] assms(1)
      by (simp add: csv_line_def [of comma r] csv_record_def)
  qed simp
  ultimately show ?thesis by (simp add: csv_ReadAll_def csv_normal_id)
qed


lemma cgroupList_enabled:
  assumes "calm w" "resolve True w ''/proc/cgroups'' = Inr h"
    and "look (files w) h = Some (Reg m (concat (map (csv_line CHR 0x09) rs)))"
    and "\<forall>r \<in> set rs. length r = 4 \<and> (\<forall>f \<in> set r. plain_field CHR 0x09 f)"
  shows "wp cgroupList (\<lambda>cgs u. cgs = map (\<lambda>r. r ! 0) (filter (\<lambda>r. r ! 3 = ''1'') rs) \<and> files u = files w \<and> trace u = trace w) w"
proof -
  have op: "run_state (os_Open ''/proc/cgroups'') w = (Inr h, tick w)"
    using assms(1-3) by (simp add: os_Open_def os_OpenFile_def at_path_def sysc_def)
  have rd: "run_state (fd_ReadData h) (tick w) = (Inr (concat (map (csv_line CHR 0x09) rs)), tick (tick w))"
    using assms(1,3) by (simp add: fd_ReadData_def sysc_def)
  have cl: "run_state (fd_Close h) (tick (tick w)) = (Inr (), tick (tick (tick w)))"
    using assms(1) by (simp add: fd_Close_def sysc_def)
  have "csv_ReadAll CHR 0x09 4 (concat (map (csv_line CHR 0x09) rs)) = Some rs"
    by (rule csv_roundtrip) (use assms(4) in auto)
  then show ?thesis
    by (simp add: wp_def cgroupList_def op rd cl run_defer enabled_cgroups_def)
qed

text \<open>C0: Device numbers: the major and minor number of a \<^verbatim>\<open>unix.Mkdev\<close> are the ones it was made of, for all 32-bit arguments.\<close>

theorem Mkdev_inverse: "unix_Major (unix_Mkdev a b) = a \<and> unix_Minor (unix_Mkdev a b) = b"
  using Mkdev_roundtrip by blast

text \<open>C39: None of the devices \<^verbatim>\<open>doMounts\<close> makes is a device: the modes lack the type of a character device, so where the node is
  missing \<^verbatim>\<open>mknod\<close> creates an empty regular file.\<close>

theorem mkchar_makes_regular_files:
  assumes "(d, mo, ma, mi) \<in> set standard_devices" "resolve False w d = Inr p" "look (files w) p = None" "calm w"
  shows "wp (mkchar d mo ma mi) (\<lambda>_ u. \<exists>m. look (files u) p = Some (Reg m [])) w"
  by (rule mkchar_regular) (use assms standard_devices_regular in \<open>auto simp: list_all_iff\<close>)

text \<open>C32: \<^verbatim>\<open>cgroupList\<close> reads the kernel's table: of the lines of four fields separated by tabs, the first fields of those whose last is
  \<^verbatim>\<open>1\<close>, in order; nothing changes.\<close>

theorem cgroupList_reads_table:
  assumes "calm w" "resolve True w ''/proc/cgroups'' = Inr h"
    and "look (files w) h = Some (Reg m (concat (map (csv_line CHR 0x09) rs)))"
    and "\<forall>r \<in> set rs. length r = 4 \<and> (\<forall>f \<in> set r. plain_field CHR 0x09 f)"
  shows "wp cgroupList (\<lambda>cgs u. cgs = map (\<lambda>r. r ! 0) (filter (\<lambda>r. r ! 3 = ''1'') rs) \<and> files u = files w \<and> trace u = trace w) w"
  by (rule cgroupList_enabled [OF assms])

end
