(* ===== verification/TransferRoot.thy ===== *)
theory TransferRoot
  imports EnterChroot
begin

text \<open>
  \<^verbatim>\<open>pkg/transferroot/transferroot.go\<close>: moving the initial ram disk to a fresh \<^verbatim>\<open>tmpfs\<close>. The
  device a file is on and the type of the file system at a path are the kernel's: the
  parameters \<open>dev\<close> (the \<^verbatim>\<open>st_dev\<close> of a path, seen from a world) and \<open>fstype\<close>.
\<close>

subsection \<open>Metadata\<close>

definition times_meta :: "int \<times> int \<Rightarrow> meta \<Rightarrow> meta" where
  "times_meta t m = m\<lparr>m_times := t\<rparr>"

definition unix_UtimesNanoAt :: "string \<Rightarrow> int \<times> int \<Rightarrow> unit result io" where
  "unix_UtimesNanoAt s t = at_path ''utimensat'' s False (\<lambda>p n w.
     case n of
       None \<Rightarrow> Inl ENOENT
     | Some n \<Rightarrow> Inr ((), w\<lparr>files := fs_set p (map_meta (times_meta t) n) (files w)\<rparr>))"

definition copyMetadata :: "finfo \<Rightarrow> string \<Rightarrow> unit result io" where
  "copyMetadata info path =
     (let m = node_meta (fi_node info)
      in check (unix_Lchown path (m_uid m) (m_gid m)) (\<lambda>_.
         check (unix_UtimesNanoAt path (m_times m)) (\<lambda>_.
           if fi_Mode info AND ModeSymlink = 0 then os_Chmod path (fi_Mode info) else ok ())))"

subsection \<open>\<^verbatim>\<open>filepath.Walk\<close>\<close>

text \<open>What a visit returns: \<^verbatim>\<open>nil\<close>, \<^verbatim>\<open>filepath.SkipDir\<close> or another error. The depth of a walk is
  bounded by the length of a path, as in theory \<open>Copy\<close>.\<close>

datatype visit = Continue | SkipDir | Stop goerr

type_synonym visitor = "string \<Rightarrow> goerr + (finfo \<times> int) \<Rightarrow> visit io"

definition lstat_dev :: "(world \<Rightarrow> string \<Rightarrow> int) \<Rightarrow> string \<Rightarrow> (finfo \<times> int) result io" where
  "lstat_dev dev s = do {
     w \<leftarrow> State_Monad.get;
     check (os_Lstat s) (\<lambda>i. ok (i, dev w s)) }"

fun walk :: "(world \<Rightarrow> string \<Rightarrow> int) \<Rightarrow> visitor \<Rightarrow> nat \<Rightarrow> string \<Rightarrow> finfo \<times> int \<Rightarrow> visit io"
  and walk_names :: "(world \<Rightarrow> string \<Rightarrow> int) \<Rightarrow> visitor \<Rightarrow> nat \<Rightarrow> string \<Rightarrow> string list \<Rightarrow> visit io" where
  "walk dev fn n p (info, d) =
     (if \<not> fi_IsDir info then fn p (Inr (info, d))
      else do {
        l \<leftarrow> ioutil_ReadDir p;
        case l of
          Inl e \<Rightarrow> fn p (Inl e)
        | Inr infos \<Rightarrow> do {
            v \<leftarrow> fn p (Inr (info, d));
            if v \<noteq> Continue then State_Monad.return v
            else (case n of
                    0 \<Rightarrow> fn p (Inl (Sys ''lstat'' p (EFault 36)))
                  | Suc n' \<Rightarrow> walk_names dev fn n' p (map fi_name infos)) } })"
| "walk_names dev fn n p [] = State_Monad.return Continue"
| "walk_names dev fn n p (c # cs) = do {
     i \<leftarrow> lstat_dev dev (PathJoin [p, c]);
     case i of
       Inl e \<Rightarrow> do {
         v \<leftarrow> fn (PathJoin [p, c]) (Inl e);
         case v of Stop e' \<Rightarrow> State_Monad.return v | _ \<Rightarrow> walk_names dev fn n p cs }
     | Inr i \<Rightarrow> do {
         v \<leftarrow> walk dev fn n (PathJoin [p, c]) i;
         case v of
           Continue \<Rightarrow> walk_names dev fn n p cs
         | SkipDir \<Rightarrow> if fi_IsDir (fst i) then walk_names dev fn n p cs else State_Monad.return v
         | Stop e \<Rightarrow> State_Monad.return v } }"

definition filepath_Walk :: "(world \<Rightarrow> string \<Rightarrow> int) \<Rightarrow> string \<Rightarrow> visitor \<Rightarrow> unit result io" where
  "filepath_Walk dev root fn = do {
     i \<leftarrow> lstat_dev dev root;
     v \<leftarrow> (case i of Inl e \<Rightarrow> fn root (Inl e) | Inr i \<Rightarrow> walk dev fn 2048 root i);
     State_Monad.return (case v of Stop e \<Rightarrow> Inl e | _ \<Rightarrow> Inr ()) }"

text \<open>A visitor that returns an error it is given, and \<^verbatim>\<open>nil\<close>, \<^verbatim>\<open>SkipDir\<close> or an error otherwise.\<close>

definition visiting :: "(string \<Rightarrow> finfo \<Rightarrow> int \<Rightarrow> visit result io) \<Rightarrow> visitor" where
  "visiting f p i =
     (case i of
        Inl e \<Rightarrow> State_Monad.return (Stop e)
      | Inr (info, d) \<Rightarrow> do {
          r \<leftarrow> f p info d;
          State_Monad.return (case r of Inl e \<Rightarrow> Stop e | Inr v \<Rightarrow> v) })"

subsection \<open>The three passes of \<open>copyFS\<close>\<close>

definition fi_IsRegular :: "finfo \<Rightarrow> bool" where
  "fi_IsRegular i \<longleftrightarrow>
     fi_Mode i AND (ModeDir OR ModeSymlink OR ModeNamedPipe OR ModeSocket OR ModeDevice OR ModeCharDevice) = 0"

definition copy_dir :: "string \<Rightarrow> int \<Rightarrow> string \<Rightarrow> finfo \<Rightarrow> int \<Rightarrow> visit result io" where
  "copy_dir newRoot rootDev path info d =
     (if \<not> fi_IsDir info then ok Continue
      else let dest = PathJoin [newRoot, path]
           in check (if path = ''/'' then os_Chmod newRoot (fi_Mode info) else os_Mkdir dest (fi_Mode info)) (\<lambda>_.
              check (copyMetadata info dest) (\<lambda>_.
                ok (if rootDev \<noteq> d then SkipDir else Continue))))"

text \<open>\<^verbatim>\<open>io.CopyBuffer\<close> into a file that was opened without truncation: it writes over what is there
  from the start. The file a failed write leaves has the bytes that arrived.\<close>

definition overwrite_reg :: "bytes \<Rightarrow> node \<Rightarrow> node" where
  "overwrite_reg d n = (case n of Reg m c \<Rightarrow> Reg m (d @ drop (length d) c) | _ \<Rightarrow> n)"

definition copy_over :: "path \<Rightarrow> path \<Rightarrow> unit result io" where
  "copy_over new old = State (\<lambda>w.
     let data = (case look (files w) old of Some (Reg _ c) \<Rightarrow> c | _ \<Rightarrow> []);
         put = (\<lambda>d. case look (files w) new of
                      None \<Rightarrow> files w | Some n \<Rightarrow> fs_set new (overwrite_reg d n) (files w))
     in case fault w (clock w) of
          Some (n, k) \<Rightarrow> (Inl (Sys ''copy'' (abs_string new) (EFault n)), (tick w)\<lparr>files := put (take k data)\<rparr>)
        | None \<Rightarrow> (Inr (), (tick w)\<lparr>files := put data\<rparr>))"

definition move_regular :: "string \<Rightarrow> string \<Rightarrow> finfo \<Rightarrow> unit result io" where
  "move_regular path dest info =
     check (os_OpenFile dest \<lparr>o_creat = True, o_excl = False, o_trunc = False\<rparr> (fi_Mode info)) (\<lambda>new.
     check (os_Open path) (\<lambda>old.
     check (copy_over new old) (\<lambda>_.
     check (fd_Close old) (\<lambda>_.
     check (fd_Close new) (\<lambda>_. do {
       _ \<leftarrow> os_Remove path;
       ok () })))))"

text \<open>The device number of a node, and the \<^verbatim>\<open>uint32(info.Mode())\<close> that goes to \<^verbatim>\<open>mknod\<close>.\<close>

fun node_rdev :: "node \<Rightarrow> int" where
  "node_rdev (Chr _ d) = d"
| "node_rdev (Blk _ d) = d"
| "node_rdev _ = 0"

definition move_special :: "string \<Rightarrow> string \<Rightarrow> finfo \<Rightarrow> unit result io" where
  "move_special path dest info =
     (if fi_Mode info AND ModeSymlink = ModeSymlink
      then check (os_Readlink path) (\<lambda>link. os_Symlink link dest)
      else if fi_Mode info AND ModeDevice = ModeDevice
      then unix_Mknod dest (fi_Mode info) (node_rdev (fi_node info))
      else if fi_Mode info AND ModeNamedPipe = ModeNamedPipe
      then unix_Mkfifo dest (fi_Mode info)
      else if fi_Mode info AND ModeSocket = ModeSocket
      then fail (Msg ''Unsupported socket on rootfs'')
      else fail (Msg ''Unknown file type''))"

definition move_file :: "string \<Rightarrow> int \<Rightarrow> string \<Rightarrow> finfo \<Rightarrow> int \<Rightarrow> visit result io" where
  "move_file newRoot rootDev path info d =
     (if rootDev \<noteq> d \<and> fi_IsDir info then ok SkipDir
      else if fi_IsDir info then ok Continue
      else let dest = PathJoin [newRoot, path]
           in check (if fi_IsRegular info then move_regular path dest info else move_special path dest info) (\<lambda>_.
              check (copyMetadata info dest) (\<lambda>_. ok Continue)))"

definition delete_old :: "int \<Rightarrow> string \<Rightarrow> finfo \<Rightarrow> int \<Rightarrow> visit result io" where
  "delete_old rootDev path info d =
     (if path = ''/'' then ok Continue
      else if fi_IsDir info
      then if rootDev \<noteq> d then ok SkipDir
           else do { _ \<leftarrow> os_RemoveAll path; ok SkipDir }
      else do { _ \<leftarrow> os_Remove path; ok Continue })"

definition copyFS :: "(world \<Rightarrow> string \<Rightarrow> int) \<Rightarrow> string \<Rightarrow> unit result io" where
  "copyFS dev newRoot = do {
     w0 \<leftarrow> State_Monad.get;
     check (os_Stat ''/'') (\<lambda>_.
       let rootDev = dev w0 ''/''
       in check (unix_Mount ''rootfs'' newRoot ''tmpfs'' 0 []) (\<lambda>_.
          check (filepath_Walk dev ''/'' (visiting (copy_dir newRoot rootDev))) (\<lambda>_.
          check (filepath_Walk dev ''/'' (visiting (move_file newRoot rootDev))) (\<lambda>_.
          check (os_Chdir newRoot) (\<lambda>_.
          check (filepath_Walk dev ''/'' (visiting (delete_old rootDev))) (\<lambda>_.
          check (unix_Mount ''.'' ''/'' [] MS_MOVE []) (\<lambda>_.
          check (unix_Chroot ''.'') (\<lambda>_.
            os_Chdir ''/'')))))))) }"

subsection \<open>\<open>Relocate\<close>\<close>

definition relocated :: string where "relocated = ''EDGI_RELOCATED''"
definition nextInit :: string where "nextInit = ''/init''"
definition ramfsMagic :: int where "ramfsMagic = -2054924042"
definition tmpfsMagic :: int where "tmpfsMagic = 0x01021994"

text \<open>\<open>Inr True\<close>: the program was replaced, nothing after the call runs.\<close>

definition Relocate :: "(world \<Rightarrow> string \<Rightarrow> int) \<Rightarrow> (world \<Rightarrow> string \<Rightarrow> int) \<Rightarrow> bool exits io" where
  "Relocate dev fstype = do {
     v \<leftarrow> os_Getenv relocated;
     if v = ''true'' then do { os_Unsetenv relocated; ok False }
     else do {
       w \<leftarrow> State_Monad.get;
       fatal_check (sysc ''statfs'' ''.'' (\<lambda>w'. Inr (fstype w ''.'', w'))) (\<lambda>t.
         if t \<noteq> ramfsMagic \<and> t \<noteq> tmpfsMagic then ok False
         else fatal_check (os_MkdirAll ''/mnt'' 0x1ED) (\<lambda>_.
              fatal_check (copyFS dev ''/mnt'') (\<lambda>_. do {
                env \<leftarrow> os_Environ;
                fatal_check
                  (syscall_Exec \<lparr>c_path = nextInit, c_args = [nextInit], c_env = env @ [''EDGI_RELOCATED=true''],
                     c_stdin = []\<rparr>) (\<lambda>_. ok True) }))) } }"

subsection \<open>A device becomes a regular file\<close>

lemma move_special_device:
  assumes "resolve False w dest = Inr p" "look (files w) p = None" "calm w"
    and "fi_node info = Chr m d \<or> fi_node info = Blk m d"
  shows "wp (move_special path dest info) (\<lambda>r u. \<exists>m. look (files u) p = Some (Reg m [])) w"
proof -
  have l: "\<not> fi_Mode info AND ModeSymlink = ModeSymlink"
    using fi_Mode_symlink [of info] assms(4) by (auto simp: ModeSymlink_def)
  have "bit (fi_Mode info) 26"
    using assms(4) bit_go_mode [of 26 "fi_node info"] by (auto simp: fi_Mode_def bit_or_iff bit_modes)
  then have d: "fi_Mode info AND ModeDevice = ModeDevice"
    by (intro bit_word_eqI) (auto simp: bit_and_iff bit_modes)
  show ?thesis
    unfolding move_special_def if_not_P [OF l] if_P [OF d]
    by (rule wp_Mknod [OF assms(1)]) (use assms in \<open>auto simp: fi_Mode_def type_bits_high\<close>)
qed

subsection \<open>Relocation happens at most once\<close>

lemma Relocate_done:
  assumes "map_of (environ w) relocated = Some ''true''"
  shows "run_state (Relocate dev fstype) w = (Inr False, w\<lparr>environ := filter (\<lambda>(k, _). k \<noteq> relocated) (environ w)\<rparr>)"
  using assms by (simp add: Relocate_def os_Getenv_def os_Unsetenv_def)

lemma Relocate_marks:
  "wp (Relocate dev fstype) (\<lambda>r u. r = Inr True \<longrightarrow>
     (\<exists>c. last (trace u) = EvReplace c \<and> c_path c = nextInit \<and> last (c_env c) = relocated @ ''=true'')) w"
proof -
  let ?Q = "\<lambda>r (u :: world). r = Inr True \<longrightarrow>
     (\<exists>c. last (trace u) = EvReplace c \<and> c_path c = nextInit \<and> last (c_env c) = relocated @ ''=true'')"
  have ex: "wp (syscall_Exec c) (\<lambda>r u. case r of Inl _ \<Rightarrow> ?Q (Inl 1) (u\<lparr>trace := trace u @ [EvLog LFatal]\<rparr>)
      | Inr a \<Rightarrow> wp (ok True) ?Q u) v"
    if "c_path c = nextInit" "last (c_env c) = relocated @ ''=true''" for c v
    unfolding syscall_Exec_def by (rule wp_sysc_any) (use that in auto)
  have step: "wp (fatal_check m f) ?Q v" if "\<And>a v. wp (f a) ?Q v" for m :: "'x result io" and f v
    unfolding wp_fatal_check by (rule wp_mono [OF wp_True]) (use that in \<open>auto split: sum.split\<close>)
  have tail: "wp (do { env \<leftarrow> os_Environ;
        fatal_check (syscall_Exec \<lparr>c_path = nextInit, c_args = [nextInit], c_env = env @ [''EDGI_RELOCATED=true''], c_stdin = []\<rparr>)
          (\<lambda>_. ok True) }) ?Q v" for v
    unfolding wp_bind wp_fatal_check
    by (rule wp_mono [OF wp_True], rule ex) (simp_all add: relocated_def)
  have un: "wp (do { os_Unsetenv relocated; ok False }) ?Q v" for v
    by (simp add: os_Unsetenv_def wp_def)
  show ?thesis
    unfolding Relocate_def wp_bind [of "os_Getenv _"]
    by (rule wp_mono [OF wp_True]) (auto simp del: wp_bind intro!: step tail un simp: wp_bind [of State_Monad.get])
qed

text \<open>Moving the root to a new file system turns device files into empty regular files: \<^verbatim>\<open>unix.Mknod\<close> is given Go's mode bits, which have
  the type of the file where the kernel does not look.\<close>

theorem move_special_loses_devices:
  assumes "resolve False w dest = Inr p" "look (files w) p = None" "calm w"
    and "fi_node info = Chr m d \<or> fi_node info = Blk m d"
  shows "wp (move_special path dest info) (\<lambda>r u. \<exists>m. look (files u) p = Some (Reg m [])) w"
  by (rule move_special_device [OF assms])


end
