(* ===== verification/CommandLine.thy ===== *)
theory CommandLine
  imports Upgrade Quote "HOL-Library.AList"
begin

text \<open>
  How the command line reaches a sub-command: Go's package \<^verbatim>\<open>flag\<close> and the part of
  \<^verbatim>\<open>vendor/github.com/urfave/cli\<close> that runs between \<^verbatim>\<open>app.Run\<close> and a command's \<^verbatim>\<open>Action\<close>. A flag's \<^verbatim>\<open>Destination\<close> is
  read from the values afterwards; texts of the help are not modelled, only that one is shown.
\<close>

subsection \<open>Flags\<close>

datatype fval = FBool bool | FStr string

record cli_flag =
  flag_Name :: string
  flag_EnvVar :: string
  flag_Required :: bool
  flag_Value :: fval

definition BoolFlag :: "string \<Rightarrow> string \<Rightarrow> cli_flag" where
  "BoolFlag name env = \<lparr>flag_Name = name, flag_EnvVar = env, flag_Required = False, flag_Value = FBool False\<rparr>"

definition StringFlag :: "string \<Rightarrow> string \<Rightarrow> bool \<Rightarrow> string \<Rightarrow> cli_flag" where
  "StringFlag name env req v = \<lparr>flag_Name = name, flag_EnvVar = env, flag_Required = req, flag_Value = FStr v\<rparr>"

definition HelpFlag :: cli_flag where "HelpFlag = BoolFlag ''help, h'' []"
definition VersionFlag :: cli_flag where "VersionFlag = BoolFlag ''version, v'' []"

text \<open>\<^verbatim>\<open>eachName\<close>.\<close>

definition flag_names :: "cli_flag \<Rightarrow> string list" where
  "flag_names f = map (\<lambda>s. Trim s CHR '' '') (Split (flag_Name f) CHR '','')"

definition ParseBool :: "string \<Rightarrow> bool option" where
  "ParseBool s =
     (if s \<in> {''1'', ''t'', ''T'', ''TRUE'', ''true'', ''True''} then Some True
      else if s \<in> {''0'', ''f'', ''F'', ''FALSE'', ''false'', ''False''} then Some False
      else None)"

definition env_lookup :: "world \<Rightarrow> string \<Rightarrow> string option" where
  "env_lookup w e = (if e = [] then None else map_of (environ w) e)"

text \<open>\<^verbatim>\<open>flagFromFileEnv\<close>; no flag of the program names a file.\<close>

fun first_set :: "world \<Rightarrow> string list \<Rightarrow> string option" where
  "first_set w [] = None"
| "first_set w (e # es) = (case env_lookup w (TrimSpace e) of None \<Rightarrow> first_set w es | Some v \<Rightarrow> Some v)"

definition flagFromFileEnv :: "world \<Rightarrow> string \<Rightarrow> string option" where
  "flagFromFileEnv w envName = first_set w (Split envName CHR '','')"

text \<open>\<^verbatim>\<open>ApplyWithError\<close>: the value before the arguments are read.\<close>

definition flag_initial :: "world \<Rightarrow> cli_flag \<Rightarrow> fval result" where
  "flag_initial w f =
     (case (flag_Value f, flagFromFileEnv w (flag_EnvVar f)) of
        (FStr v, None) \<Rightarrow> Inr (FStr v)
      | (FStr _, Some v) \<Rightarrow> Inr (FStr v)
      | (FBool _, None) \<Rightarrow> Inr (FBool False)
      | (FBool _, Some v) \<Rightarrow>
          if v = [] then Inr (FBool False)
          else case ParseBool v of
            None \<Rightarrow> Inl (Msg (''could not parse '' @ v @ '' as bool value for flag '' @ flag_Name f))
          | Some b \<Rightarrow> Inr (FBool b))"

type_synonym fvals = "(string \<times> fval) list"

fun flagSet :: "world \<Rightarrow> cli_flag list \<Rightarrow> fvals result" where
  "flagSet w [] = Inr []"
| "flagSet w (f # fs) =
     (case flag_initial w f of
        Inl e \<Rightarrow> Inl e
      | Inr v \<Rightarrow> (case flagSet w fs of Inl e \<Rightarrow> Inl e | Inr vs \<Rightarrow> Inr (map (\<lambda>n. (n, v)) (flag_names f) @ vs)))"

subsection \<open>\<^verbatim>\<open>flag.FlagSet.Parse\<close>\<close>

text \<open>One argument that looks like a flag: its name and its value, if there is one.\<close>

definition flag_text :: "string \<Rightarrow> string" where
  "flag_text s = (if HasPrefix s ''--'' then drop 2 s else drop 1 s)"

definition split_value :: "string \<Rightarrow> string \<times> string option" where
  "split_value s =
     (let name = takeWhile (\<lambda>c. c \<noteq> CHR ''='') s
      in (name, if name = s then None else Some (drop (length name + 1) s)))"

text \<open>The state is the values, the names that were set, and what is left of the arguments; the error is
  the one that stopped the parse. A value that is no boolean has already made the flag false.\<close>

record parsed =
  vals :: fvals
  actual :: "string list"
  rest :: "string list"
  perr :: "goerr option"

definition set_flag :: "string \<Rightarrow> fval \<Rightarrow> parsed \<Rightarrow> parsed" where
  "set_flag n v p = p\<lparr>vals := AList.update n v (vals p), actual := n # actual p\<rparr>"

fun flag_Parse :: "parsed \<Rightarrow> string list \<Rightarrow> parsed" where
  "flag_Parse p [] = p\<lparr>rest := []\<rparr>"
| "flag_Parse p (s # args) =
     (if length s < 2 \<or> \<not> HasPrefix s ''-'' then p\<lparr>rest := s # args\<rparr>
      else if s = ''--'' then p\<lparr>rest := args\<rparr>
      else let text = flag_text s
      in if text = [] \<or> hd text = CHR ''-'' \<or> hd text = CHR ''='' then p\<lparr>rest := s # args, perr := Some (Msg (''bad flag syntax: '' @ s))\<rparr>
      else case split_value text of (name, value) \<Rightarrow>
        (case map_of (vals p) name of
           None \<Rightarrow> p\<lparr>rest := args, perr := Some (Msg (if name = ''help'' \<or> name = ''h'' then ''flag: help requested''
                                                 else ''flag provided but not defined: -'' @ name))\<rparr>
         | Some (FBool _) \<Rightarrow>
             (case value of
                None \<Rightarrow> flag_Parse (set_flag name (FBool True) p) args
              | Some v \<Rightarrow>
                  (case ParseBool v of
                     None \<Rightarrow> p\<lparr>vals := AList.update name (FBool False) (vals p), rest := args,
                              perr := Some (Msg (''invalid boolean value for -'' @ name))\<rparr>
                   | Some b \<Rightarrow> flag_Parse (set_flag name (FBool b) p) args))
         | Some (FStr _) \<Rightarrow>
             (case (value, args) of
                (Some v, _) \<Rightarrow> flag_Parse (set_flag name (FStr v) p) args
              | (None, v # args') \<Rightarrow> flag_Parse (set_flag name (FStr v) p) args'
              | (None, []) \<Rightarrow> p\<lparr>rest := args, perr := Some (Msg (''flag needs an argument: -'' @ name))\<rparr>)))"

subsection \<open>The arguments of a command\<close>

text \<open>\<^verbatim>\<open>argIsFlag\<close> and \<^verbatim>\<open>reorderArgs\<close>: the command's flags, each with the argument after it that may be its value, are moved before the
  other arguments.\<close>

definition argIsFlag :: "cli_flag list \<Rightarrow> string \<Rightarrow> bool" where
  "argIsFlag fl arg \<longleftrightarrow>
     arg \<noteq> ''-'' \<and> HasPrefix arg ''-'' \<and>
     (let a = (if HasPrefix arg ''--'' then drop 2 arg else arg);
          b = (if HasPrefix a ''-'' then drop 1 a else a);
          name = hd (Split b CHR ''='')
      in list_ex (\<lambda>f. list_ex (\<lambda>key. TrimSpace key = name) (Split (flag_Name f) CHR '','')) fl)"

fun reorder :: "cli_flag list \<Rightarrow> bool \<Rightarrow> string list \<Rightarrow> string list \<times> string list" where
  "reorder fl mayContainValue [] = ([], [])"
| "reorder fl mayContainValue (arg # args) =
     (if arg = ''--'' then ([], arg # args)
      else if mayContainValue \<and> \<not> HasPrefix arg ''-'' then apfst ((#) arg) (reorder fl False args)
      else if argIsFlag fl arg then apfst ((#) arg) (reorder fl (\<not> Contains arg ''='') args)
      else apsnd ((#) arg) (reorder fl mayContainValue args))"

definition reorderArgs :: "cli_flag list \<Rightarrow> string list \<Rightarrow> string list" where
  "reorderArgs fl args = (case reorder fl False args of (flags, others) \<Rightarrow> flags @ others)"

text \<open>\<^verbatim>\<open>normalizeFlags\<close>: a flag given under one of its names is given under all; two of them are an error.\<close>

definition copyFlag :: "string \<Rightarrow> string \<Rightarrow> parsed \<Rightarrow> parsed" where
  "copyFlag n m p = (case map_of (vals p) n of None \<Rightarrow> p | Some v \<Rightarrow> set_flag m v p)"

fun normalizeFlags :: "cli_flag list \<Rightarrow> string list \<Rightarrow> parsed \<Rightarrow> parsed result" where
  "normalizeFlags [] visited p = Inr p"
| "normalizeFlags (f # fs) visited p =
     (let names = flag_names f
      in if length names = 1 then normalizeFlags fs visited p
         else case filter (\<lambda>n. n \<in> set visited) names of
           [] \<Rightarrow> normalizeFlags fs visited p
         | [n] \<Rightarrow> normalizeFlags fs visited (fold (copyFlag n) (filter (\<lambda>m. m \<notin> set visited) names) p)
         | n # m # _ \<Rightarrow> Inl (Msg (''Cannot use two forms of the same flag: '' @ m @ '' '' @ n)))"

definition start_parse :: "fvals \<Rightarrow> parsed" where
  "start_parse vs = \<lparr>vals = vs, actual = [], rest = [], perr = None\<rparr>"

definition parseFlags :: "world \<Rightarrow> cli_flag list \<Rightarrow> string list \<Rightarrow> parsed result" where
  "parseFlags w fl args =
     (case flagSet w fl of
        Inl e \<Rightarrow> Inl e
      | Inr vs \<Rightarrow>
          let p = flag_Parse (start_parse vs) (reorderArgs fl args)
          in case perr p of Some e \<Rightarrow> Inl e | None \<Rightarrow> normalizeFlags fl (actual p) p)"

text \<open>\<^verbatim>\<open>IsSet\<close> and \<^verbatim>\<open>checkRequiredFlags\<close>: the names of the required flags that neither the arguments nor the environment set.\<close>

definition IsSet :: "world \<Rightarrow> cli_flag list \<Rightarrow> parsed \<Rightarrow> string \<Rightarrow> bool" where
  "IsSet w fl p n \<longleftrightarrow>
     n \<in> set (actual p) \<or>
     map_of (vals p) n \<noteq> None \<and> list_ex (\<lambda>f. n \<in> set (flag_names f) \<and> flagFromFileEnv w (flag_EnvVar f) \<noteq> None) fl"

definition flag_label :: "cli_flag \<Rightarrow> string" where
  "flag_label f = (case filter (\<lambda>k. length k > 1) (rev (Split (flag_Name f) CHR '','')) of [] \<Rightarrow> [] | k # _ \<Rightarrow> k)"

definition missingFlags :: "world \<Rightarrow> cli_flag list \<Rightarrow> parsed \<Rightarrow> string list" where
  "missingFlags w fl p =
     map flag_label (filter (\<lambda>f. flag_Required f \<and> flag_label f \<noteq> [] \<and>
       \<not> list_ex (\<lambda>k. IsSet w fl p (TrimSpace k)) (Split (flag_Name f) CHR '','')) fl)"

definition required_error :: "string list \<Rightarrow> goerr" where
  "required_error missing =
     Msg ((if length missing = 1 then ''Required flag '' else ''Required flags '') @ Quote (Join missing '', '') @ '' not set'')"

definition lookupBool :: "string \<Rightarrow> parsed \<Rightarrow> bool" where
  "lookupBool n p \<longleftrightarrow> map_of (vals p) n = Some (FBool True)"

definition lookupString :: "string \<Rightarrow> parsed \<Rightarrow> string" where
  "lookupString n p = (case map_of (vals p) n of Some (FStr s) \<Rightarrow> s | _ \<Rightarrow> [])"

subsection \<open>Commands\<close>

definition show_help :: "string \<Rightarrow> unit io" where
  "show_help topic = emit (EvOther ''help'' [topic])"

text \<open>\<^verbatim>\<open>Command.Run\<close>: an exit on the left, otherwise what is returned to \<^verbatim>\<open>app.Run\<close>.\<close>

definition command_Run ::
  "string \<Rightarrow> cli_flag list \<Rightarrow> (parsed \<Rightarrow> 'f result exits io) \<Rightarrow> ('f \<Rightarrow> string list \<Rightarrow> unit result exits io) \<Rightarrow>
   string list \<Rightarrow> unit result exits io" where
  "command_Run name flags before action args = do {
     w \<leftarrow> State_Monad.get;
     let fl = flags @ [HelpFlag];
     case parseFlags w fl args of
       Inl e \<Rightarrow> do { emit (EvOther ''incorrect usage'' [name]); show_help name; ok (Inl e) }
     | Inr p \<Rightarrow>
         if lookupBool ''h'' p \<or> lookupBool ''help'' p then do { show_help name; ok (Inr ()) }
         else if missingFlags w fl p \<noteq> [] then do { show_help name; ok (Inl (required_error (missingFlags w fl p))) }
         else do {
           b \<leftarrow> before p;
           case b of
             Inl code \<Rightarrow> fail code
           | Inr (Inl e) \<Rightarrow> do { show_help name; ok (Inl e) }
           | Inr (Inr f) \<Rightarrow> action f (rest p) } }"

text \<open>\<^verbatim>\<open>helpCommand.Action\<close>: of a topic that is no command the program says so and exits with status 3.\<close>

definition help_Action :: "string list \<Rightarrow> string list \<Rightarrow> unit result exits io" where
  "help_Action names args =
     (case args of
        [] \<Rightarrow> do { show_help []; ok (Inr ()) }
      | topic # _ \<Rightarrow>
          if topic = [] \<or> topic \<in> set names then do { show_help topic; ok (Inr ()) }
          else do { emit (EvOther ''stderr'' [''No help topic for '' @ [CHR 0x27] @ topic @ [CHR 0x27]]); fail 3 })"

text \<open>\<^verbatim>\<open>App.Run\<close> on the arguments after the program's name, with the names and the \<^verbatim>\<open>Run\<close> of every command. The help command
  is added to them, the help and version flags to the application's.\<close>

type_synonym commands = "(string list \<times> (string list \<Rightarrow> unit result exits io)) list"

definition all_names :: "commands \<Rightarrow> string list" where
  "all_names cmds = concat (map fst cmds) @ [''help'', ''h'']"

fun find_command :: "commands \<Rightarrow> string \<Rightarrow> (string list \<Rightarrow> unit result exits io) option" where
  "find_command [] name = None"
| "find_command ((names, run) # cmds) name = (if name \<in> set names then Some run else find_command cmds name)"

definition with_help :: "commands \<Rightarrow> commands" where
  "with_help cmds =
     cmds @ [([''help'', ''h''],
              command_Run ''help'' [] (\<lambda>p. ok (Inr ())) (\<lambda>_ args. help_Action (all_names cmds) args))]"

definition app_Run :: "string \<Rightarrow> cli_flag list \<Rightarrow> commands \<Rightarrow> string list \<Rightarrow> unit result exits io" where
  "app_Run version flags cmds args = do {
     w \<leftarrow> State_Monad.get;
     let fl = flags @ [HelpFlag, VersionFlag];
     case flagSet w fl of
       Inl e \<Rightarrow> ok (Inl e)
     | Inr vs \<Rightarrow>
         let p = flag_Parse (start_parse vs) args
         in case normalizeFlags fl (actual p) p of
           Inl e \<Rightarrow> do { emit (EvOther ''error'' []); show_help []; ok (Inl e) }
         | Inr p \<Rightarrow>
             (case perr p of
                Some e \<Rightarrow> do { emit (EvOther ''incorrect usage'' []); show_help []; ok (Inl e) }
              | None \<Rightarrow>
                  if lookupBool ''help'' p \<or> lookupBool ''h'' p then do { show_help []; ok (Inr ()) }
                  else if lookupBool ''version'' p \<or> lookupBool ''v'' p then do { emit (EvPrint version); ok (Inr ()) }
                  else if missingFlags w fl p \<noteq> [] then do { show_help []; ok (Inl (required_error (missingFlags w fl p))) }
                  else case rest p of
                    [] \<Rightarrow> help_Action (all_names cmds) []
                  | name # args' \<Rightarrow>
                      (case find_command (with_help cmds) name of
                         Some run \<Rightarrow> run args'
                       | None \<Rightarrow> help_Action (all_names cmds) (name # args'))) }"

subsection \<open>Settings as arguments\<close>

text \<open>Every setting of a flag can be written as one argument, and is read back as it was.\<close>

fun render :: "string \<times> fval \<Rightarrow> string" where
  "render (n, FBool b) = (if b then ''--'' @ n else ''--'' @ n @ ''=false'')"
| "render (n, FStr v) = ''--'' @ n @ ''='' @ v"

fun same_kind :: "fval \<Rightarrow> fval \<Rightarrow> bool" where
  "same_kind (FBool _) (FBool _) = True"
| "same_kind (FStr _) (FStr _) = True"
| "same_kind _ _ = False"

definition plain_flag :: "string \<Rightarrow> bool" where
  "plain_flag n \<longleftrightarrow> n \<noteq> [] \<and> CHR ''-'' \<noteq> hd n \<and> CHR ''='' \<notin> set n"

lemma takeWhile_sep: "CHR ''='' \<notin> set n \<Longrightarrow> takeWhile (\<lambda>c. c \<noteq> CHR ''='') (n @ CHR ''='' # v) = n"
  by (induction n) auto

lemma split_value_plain:
  assumes "CHR ''='' \<notin> set n"
  shows "split_value n = (n, None)" "split_value (n @ CHR ''='' # v) = (n, Some v)"
proof -
  have "takeWhile (\<lambda>c. c \<noteq> CHR ''='') n = n" using assms by (induction n) auto
  then show "split_value n = (n, None)" by (simp add: split_value_def)
  show "split_value (n @ CHR ''='' # v) = (n, Some v)"
    by (simp add: split_value_def Let_def takeWhile_sep [OF assms])
qed

lemma flag_Parse_render:
  assumes "plain_flag n" "map_of (vals p) n = Some x" "same_kind v x"
  shows "flag_Parse p (render (n, v) # args) = flag_Parse (set_flag n v p) args"
proof -
  have n: "n \<noteq> []" "hd n \<noteq> CHR ''-''" "hd n \<noteq> CHR ''=''" "CHR ''='' \<notin> set n"
    using assms(1) by (auto simp: plain_flag_def) (use hd_in_set in metis)
  have "ParseBool ''false'' = Some False" by (simp add: ParseBool_def)
  with n assms(2,3) show ?thesis
    by (cases v; cases x) (auto simp: HasPrefix_def flag_text_def split_value_plain Let_def)
qed

lemma set_flag_vals [simp]: "map_of (vals (set_flag n v p)) m = (if m = n then Some v else map_of (vals p) m)"
  by (simp add: set_flag_def update_conv')

lemma flag_Parse_settings:
  "\<forall>(n, v) \<in> set settings. plain_flag n \<and> (\<exists>x. map_of (vals p) n = Some x \<and> same_kind v x) \<Longrightarrow>
     flag_Parse p (map render settings) = (fold (\<lambda>(n, v). set_flag n v) settings p)\<lparr>rest := []\<rparr>"
proof (induction settings arbitrary: p)
  case (Cons s settings)
  obtain n v where s: "s = (n, v)" by (cases s)
  from Cons.prems s obtain x where x: "plain_flag n" "map_of (vals p) n = Some x" "same_kind v x" by auto
  have "flag_Parse (set_flag n v p) (map render settings) =
      (fold (\<lambda>(n, v). set_flag n v) settings (set_flag n v p))\<lparr>rest := []\<rparr>"
  proof (rule Cons.IH, clarify)
    fix m u assume "(m, u) \<in> set settings"
    then obtain y where y: "plain_flag m" "map_of (vals p) m = Some y" "same_kind u y" using Cons.prems by auto
    then have "m = n \<Longrightarrow> same_kind u v" using x y(2) by (cases u; cases v; cases x) (use y(3) in auto)
    with y show "plain_flag m \<and> (\<exists>x. map_of (vals (set_flag n v p)) m = Some x \<and> same_kind u x)" by simp
  qed
  then show ?case by (simp add: s flag_Parse_render [OF x] del: flag_Parse.simps render.simps)
qed simp

lemma reorder_flags:
  "list_all (\<lambda>a. a \<noteq> ''--'' \<and> argIsFlag fl a) args \<Longrightarrow> reorderArgs fl args = args"
proof -
  assume "list_all (\<lambda>a. a \<noteq> ''--'' \<and> argIsFlag fl a) args"
  then have "reorder fl b args = (args, [])" for b
    by (induction args arbitrary: b) (auto simp: argIsFlag_def)
  then show ?thesis by (simp add: reorderArgs_def)
qed

lemma argIsFlag_render:
  assumes "plain_flag n" "list_ex (\<lambda>f. list_ex (\<lambda>key. TrimSpace key = n) (Split (flag_Name f) CHR '','')) fl"
  shows "argIsFlag fl (render (n, v))" "render (n, v) \<noteq> ''--''"
proof -
  obtain c m where n: "n = c # m" "c \<noteq> CHR ''-''" "CHR ''='' \<notin> set n" using assms(1) by (cases n) (auto simp: plain_flag_def)
  have "hd (Split n CHR ''='') = n" "hd (Split (n @ CHR ''='' # t) CHR ''='') = n" for t
    using n(3) by (simp_all add: Split_no_sep Split_append_sep)
  then show "argIsFlag fl (render (n, v))"
    using assms(2) n by (cases v) (auto simp: argIsFlag_def HasPrefix_def Let_def)
  show "render (n, v) \<noteq> ''--''" using n by (cases v) auto
qed

end
