(* ===== verification/App.thy ===== *)
theory App
  imports CC CliInstall RC TransferRoot CommandLine
begin

text \<open>
  \<^verbatim>\<open>main.go\<close> and \<^verbatim>\<open>pkg/cli\<close>: what the program does under its different names and with its
  arguments. \<^verbatim>\<open>yaml\<close> and \<^verbatim>\<open>json\<close> are parameters.
\<close>

subsection \<open>The sub-commands\<close>

text \<open>The \<^verbatim>\<open>Before\<close> of \<^verbatim>\<open>config\<close>, \<^verbatim>\<open>install\<close> and \<^verbatim>\<open>rc\<close>.\<close>

definition require_root :: "unit result io" where
  "require_root = do {
     u \<leftarrow> os_Getuid;
     if u \<noteq> 0 then fail (Msg ''must be run as root'') else ok () }"

record config_flags =
  cf_initrd :: bool
  bootPhase :: bool
  installPhase :: bool
  cf_dump :: bool
  dumpJSON :: bool

definition config_Main ::
  "config_flags \<Rightarrow> (bytes \<Rightarrow> gmap result) \<Rightarrow> (gmap \<Rightarrow> bytes result) \<Rightarrow> (CloudConfig \<Rightarrow> bytes result) \<Rightarrow>
   externals \<Rightarrow> unit result io" where
  "config_Main f unmarshal marshal json x =
     check (ReadConfig unmarshal) (\<lambda>cfg.
       if cf_initrd f then InitApply x cfg
       else if bootPhase f then BootApply x cfg
       else if installPhase f then InstallApply cfg
       else if cf_dump f then
         config_Write marshal cfg (\<lambda>b. do { print_out b; ok () })
       else if dumpJSON f then
         check (State_Monad.return (json cfg)) (\<lambda>b. do { print_out b; ok () })
       else RunApply x cfg)"

text \<open>An \<^verbatim>\<open>Action\<close> logs the error of its function and the program still ends with status 0.\<close>

definition logged :: "unit result io \<Rightarrow> unit io" where
  "logged m = do {
     r \<leftarrow> m;
     case r of Inl _ \<Rightarrow> emit (EvLog LError) | Inr _ \<Rightarrow> skip }"

text \<open>A \<^verbatim>\<open>Before\<close> that wants to be root, in front of an \<^verbatim>\<open>Action\<close> that returns nothing.\<close>

definition as_root :: "'f \<Rightarrow> 'f result exits io" where
  "as_root f = do { r \<leftarrow> require_root; ok (case r of Inl e \<Rightarrow> Inl e | Inr _ \<Rightarrow> Inr f) }"

definition returns :: "unit io \<Rightarrow> unit result exits io" where
  "returns m = do { m; ok (Inr ()) }"

definition config_flag_list :: "cli_flag list" where
  "config_flag_list =
     [BoolFlag ''initrd'' [], BoolFlag ''boot'' [], BoolFlag ''install'' [], BoolFlag ''dump'' [], BoolFlag ''dump-json'' []]"

definition config_flags_of :: "parsed \<Rightarrow> config_flags" where
  "config_flags_of p =
     \<lparr>cf_initrd = lookupBool ''initrd'' p, bootPhase = lookupBool ''boot'' p, installPhase = lookupBool ''install'' p,
      cf_dump = lookupBool ''dump'' p, dumpJSON = lookupBool ''dump-json'' p\<rparr>"

definition config_command ::
  "(bytes \<Rightarrow> gmap result) \<Rightarrow> (gmap \<Rightarrow> bytes result) \<Rightarrow> (CloudConfig \<Rightarrow> bytes result) \<Rightarrow> externals \<Rightarrow>
   string list \<Rightarrow> unit result exits io" where
  "config_command unmarshal marshal json x =
     command_Run ''config'' config_flag_list (\<lambda>p. as_root (config_flags_of p))
       (\<lambda>f _. returns (logged (config_Main f unmarshal marshal json x)))"

definition install_command ::
  "(bytes \<Rightarrow> gmap result) \<Rightarrow> (gmap \<Rightarrow> bytes result) \<Rightarrow> (CloudConfig \<Rightarrow> bytes result) \<Rightarrow>
   string list \<Rightarrow> unit result exits io" where
  "install_command unmarshal marshal marshal_config =
     command_Run ''install'' [] (\<lambda>_. as_root ())
       (\<lambda>_ _. returns (logged (cliinstall_Run unmarshal marshal marshal_config)))"

text \<open>The command is hidden from the help of an installed system.\<close>

definition install_hidden :: "bool io" where
  "install_hidden = do {
     m \<leftarrow> mode_Get [];
     State_Monad.return (case m of Inr s \<Rightarrow> s = ''local'' | Inl _ \<Rightarrow> False) }"

definition rc_command :: "string list \<Rightarrow> unit result exits io" where
  "rc_command = command_Run ''rc'' [] (\<lambda>_. as_root ()) (\<lambda>_ _. returns rc_Action)"

definition upgrade_flag_list :: "cli_flag list" where
  "upgrade_flag_list =
     [BoolFlag ''edgi'' ''EDGI_UPGRADE_EDGI'', BoolFlag ''k3s'' ''EDGI_UPGRADE_K3S'',
      BoolFlag ''kernel'' ''EDGI_UPGRADE_KERNEL'', BoolFlag ''rootfs'' ''EDGI_UPGRADE_ROOTFS'',
      BoolFlag ''remount'' ''EDGI_UPGRADE_REMOUNT'', BoolFlag ''sync'' ''EDGI_UPGRADE_SYNC'',
      BoolFlag ''reboot'' ''EDGI_UPGRADE_REBOOT'',
      StringFlag ''source'' ''EDGI_UPGRADE_SOURCE'' True (RootPath []),
      StringFlag ''destination'' ''EDGI_UPGRADE_DESTINATION'' True (RootPath []),
      StringFlag ''lock-file'' ''EDGI_UPGRADE_LOCK_FILE'' False (StatePath [''upgrade.lock''])]"

definition upgrade_flags_of :: "parsed \<Rightarrow> upgrade_flags" where
  "upgrade_flags_of p =
     \<lparr>upgradeEDGI = lookupBool ''edgi'' p, upgradeK3S = lookupBool ''k3s'' p, upgradeKernel = lookupBool ''kernel'' p,
      upgradeRootFS = lookupBool ''rootfs'' p, doRemount = lookupBool ''remount'' p, doSync = lookupBool ''sync'' p,
      doReboot = lookupBool ''reboot'' p, sourceDir = lookupString ''source'' p,
      destinationDir = lookupString ''destination'' p, lockFile = lookupString ''lock-file'' p\<rparr>"

text \<open>Neither the \<^verbatim>\<open>Before\<close> nor the \<^verbatim>\<open>Action\<close> of \<^verbatim>\<open>upgrade\<close> returns an error: they end the process.\<close>

definition never_fails :: "'a exits io \<Rightarrow> 'a result exits io" where
  "never_fails m = do { r \<leftarrow> m; State_Monad.return (map_sum id Inr r) }"

definition upgrade_command :: "string list \<Rightarrow> unit result exits io" where
  "upgrade_command =
     command_Run ''upgrade'' upgrade_flag_list (\<lambda>p. never_fails (upgrade_Before (upgrade_flags_of p)))
       (\<lambda>f _. never_fails (upgrade_Run f))"

subsection \<open>\<open>main\<close>\<close>

definition app_Name :: string where "app_Name = ''edgi''"

text \<open>The names by which \<^verbatim>\<open>app.Command\<close> finds a command.\<close>

definition command_names :: "string list" where
  "command_names = [''rc'', ''config'', ''cfg'', ''install'', ''upgrade'']"

text \<open>A link to the program that has the name of a sub-command runs that sub-command.\<close>

definition main_args :: "string list \<Rightarrow> string list" where
  "main_args args =
     (let path = PathBase (hd (args @ [[]]))
      in [app_Name] @ (if path \<noteq> app_Name \<and> path \<in> set command_names then [path] else []) @ tl args)"

definition main_initrd :: "(world \<Rightarrow> string \<Rightarrow> int) \<Rightarrow> (world \<Rightarrow> string \<Rightarrow> int) \<Rightarrow> unit exits io" where
  "main_initrd dev fstype = do {
     r \<leftarrow> Relocate dev fstype;
     case r of
       Inl code \<Rightarrow> fail code
     | Inr gone \<Rightarrow>
         if gone then ok ()
         else do {
           m \<leftarrow> mount_Mount [] ''/'' ''none'' ''rw,remount'';
           (case m of Inl _ \<Rightarrow> emit (EvLog LError) | Inr _ \<Rightarrow> skip);
           args \<leftarrow> os_Args;
           fatal_check (enter_Mount ''edgi.debug'' False ''./edgi/data'' args) (\<lambda>_. ok ()) } }"

text \<open>The functions registered with \<^verbatim>\<open>reexec\<close>, by the program's name.\<close>

definition reexec_Init ::
  "(world \<Rightarrow> string \<Rightarrow> int) \<Rightarrow> (world \<Rightarrow> string \<Rightarrow> int) \<Rightarrow> string \<Rightarrow> unit exits io option" where
  "reexec_Init dev fstype name =
     (if name = ''/init'' \<or> name = ''/sbin/init'' then Some (main_initrd dev fstype)
      else if name = ''enter-root'' then Some Enter
      else None)"

text \<open>\<^verbatim>\<open>app.New\<close>: making the application looks at the program's file for its date and at the mode, for the help of \<^verbatim>\<open>install\<close>; the
  application itself is its flag, its version text and its commands.\<close>

definition app_New :: "bool io" where
  "app_New = do { args \<leftarrow> os_Args; _ \<leftarrow> os_Stat (hd (args @ [[]])); install_hidden }"

definition app_flags :: "cli_flag list" where
  "app_flags = [BoolFlag ''debug'' ''EDGI_DEBUG'']"

definition app_version :: string where
  "app_version = app_Name @ '' version '' @ version_Version @ [NL]"

definition app_Commands ::
  "(bytes \<Rightarrow> gmap result) \<Rightarrow> (gmap \<Rightarrow> bytes result) \<Rightarrow> (CloudConfig \<Rightarrow> bytes result) \<Rightarrow> (CloudConfig \<Rightarrow> bytes result) \<Rightarrow>
   externals \<Rightarrow> commands" where
  "app_Commands unmarshal marshal marshal_config json x =
     [([''rc''], rc_command),
      ([''config'', ''cfg''], config_command unmarshal marshal json x),
      ([''install''], install_command unmarshal marshal marshal_config),
      ([''upgrade''], upgrade_command)]"

text \<open>The arguments of the application are given without its name.\<close>

definition main_main ::
  "(world \<Rightarrow> string \<Rightarrow> int) \<Rightarrow> (world \<Rightarrow> string \<Rightarrow> int) \<Rightarrow> (bytes \<Rightarrow> gmap result) \<Rightarrow> (gmap \<Rightarrow> bytes result) \<Rightarrow>
   (CloudConfig \<Rightarrow> bytes result) \<Rightarrow> (CloudConfig \<Rightarrow> bytes result) \<Rightarrow> externals \<Rightarrow> unit exits io" where
  "main_main dev fstype unmarshal marshal marshal_config json x = do {
     args \<leftarrow> os_Args;
     case reexec_Init dev fstype (hd (args @ [[]])) of
       Some f \<Rightarrow> f
     | None \<Rightarrow> do {
         _ \<leftarrow> app_New;
         r \<leftarrow> app_Run app_version app_flags (app_Commands unmarshal marshal marshal_config json x) (tl (main_args args));
         case r of
           Inl code \<Rightarrow> fail code
         | Inr (Inl _) \<Rightarrow> do { emit (EvLog LFatal); fail 1 }
         | Inr (Inr _) \<Rightarrow> ok () } }"

subsection \<open>Both ways to make a device number\<close>

lemma loop_dev_take: "loop_dev (ucast (take_bit 12 a :: 32 word)) (ucast (take_bit 20 b :: 32 word)) = unix_Mkdev (take_bit 12 a) (take_bit 20 b)"
  unfolding loop_dev_def unix_Mkdev_def Let_def dev_masks
  by (rule bit_eqI) (auto simp: bit_simps)

lemma loop_dev_Mkdev:
  assumes "a < 0x1000" "b < 0x100000"
  shows "loop_dev (ucast a) (ucast b) = unix_Mkdev a b"
proof -
  have "take_bit 12 a = a" "take_bit 20 b = b"
    using assms less_mask_eq [of a 12] less_mask_eq [of b 20] by (simp_all add: take_bit_eq_mask)
  then show ?thesis using loop_dev_take [of a b] by simp
qed

text \<open>C36: The loop devices \<^verbatim>\<open>ensureloop\<close> makes have the device numbers \<^verbatim>\<open>unix.Mkdev\<close> would give them, for every number the shifted fields can hold.\<close>

theorem loop_dev_is_Mkdev:
  assumes "a < 0x1000" "b < 0x100000"
  shows "loop_dev (ucast a) (ucast b) = unix_Mkdev a b"
  by (rule loop_dev_Mkdev [OF assms])

theorem loop_dev_is_Mkdev_witness: "loop_dev (ucast (7 :: 32 word)) (ucast (300 :: 32 word)) = unix_Mkdev 7 300"
  using loop_dev_is_Mkdev [of 7 300] by simp

subsection \<open>The arguments of \<^verbatim>\<open>upgrade\<close>\<close>

definition upgrade_settings :: "upgrade_flags \<Rightarrow> (string \<times> fval) list" where
  "upgrade_settings f =
     [(''edgi'', FBool (upgradeEDGI f)), (''k3s'', FBool (upgradeK3S f)), (''kernel'', FBool (upgradeKernel f)),
      (''rootfs'', FBool (upgradeRootFS f)), (''remount'', FBool (doRemount f)), (''sync'', FBool (doSync f)),
      (''reboot'', FBool (doReboot f)), (''source'', FStr (sourceDir f)), (''destination'', FStr (destinationDir f)),
      (''lock-file'', FStr (lockFile f))]"

abbreviation upgrade_args :: "upgrade_flags \<Rightarrow> string list" where
  "upgrade_args f \<equiv> map render (upgrade_settings f)"

abbreviation all_upgrade_flags :: "cli_flag list" where
  "all_upgrade_flags \<equiv> upgrade_flag_list @ [HelpFlag]"

definition no_env :: "world \<Rightarrow> cli_flag list \<Rightarrow> bool" where
  "no_env w fl \<longleftrightarrow> list_all (\<lambda>f. flagFromFileEnv w (flag_EnvVar f) = None) fl"

definition upgrade_names :: "string list" where
  "upgrade_names = [''edgi'', ''k3s'', ''kernel'', ''rootfs'', ''remount'', ''sync'', ''reboot'', ''source'', ''destination'', ''lock-file'']"

lemma upgrade_setting_names: "map fst (upgrade_settings f) = upgrade_names"
  by (simp add: upgrade_settings_def upgrade_names_def)

lemma upgrade_names_ok:
  "list_all (\<lambda>n. plain_flag n \<and> list_ex (\<lambda>f. list_ex (\<lambda>key. TrimSpace key = n) (Split (flag_Name f) CHR '','')) all_upgrade_flags) upgrade_names"
  by code_simp

lemma flag_names_list: "map flag_names all_upgrade_flags = map (\<lambda>n. [n]) upgrade_names @ [[''help'', ''h'']]"
  by code_simp

fun flag_default :: "fval \<Rightarrow> fval" where
  "flag_default (FBool _) = FBool False"
| "flag_default (FStr v) = FStr v"

lemma flagSet_no_env:
  "no_env w fl \<Longrightarrow> flagSet w fl = Inr (concat (map (\<lambda>f. map (\<lambda>n. (n, flag_default (flag_Value f))) (flag_names f)) fl))"
proof (induction fl)
  case (Cons f fl)
  then have "flag_initial w f = Inr (flag_default (flag_Value f))"
    by (cases "flag_Value f") (auto simp: flag_initial_def no_env_def)
  with Cons show ?case by (simp add: no_env_def)
qed simp

lemma fold_set_flag:
  "rest (fold (\<lambda>(n, v). set_flag n v) ss p) = rest p" "perr (fold (\<lambda>(n, v). set_flag n v) ss p) = perr p"
  "actual (fold (\<lambda>(n, v). set_flag n v) ss p) = rev (map fst ss) @ actual p"
  by (induction ss arbitrary: p) (auto simp: set_flag_def)

lemma normalizeFlags_single:
  "list_all (\<lambda>f. length (flag_names f) = 1 \<or> set (flag_names f) \<inter> set visited = {}) fl \<Longrightarrow> normalizeFlags fl visited p = Inr p"
proof (induction fl)
  case (Cons f fl)
  have "filter (\<lambda>n. n \<in> set visited) (flag_names f) = []" if "set (flag_names f) \<inter> set visited = {}"
    using that by (auto simp: filter_empty_conv)
  then show ?case using Cons by (auto simp: Let_def)
qed simp

definition upgrade_start :: fvals where
  "upgrade_start =
     [(''edgi'', FBool False), (''k3s'', FBool False), (''kernel'', FBool False), (''rootfs'', FBool False),
      (''remount'', FBool False), (''sync'', FBool False), (''reboot'', FBool False), (''source'', FStr (RootPath [])),
      (''destination'', FStr (RootPath [])), (''lock-file'', FStr (StatePath [''upgrade.lock''])),
      (''help'', FBool False), (''h'', FBool False)]"

lemma upgrade_defaults_list:
  "concat (map (\<lambda>f. map (\<lambda>n. (n, flag_default (flag_Value f))) (flag_names f)) all_upgrade_flags) =
     upgrade_start"
  by code_simp

definition upgrade_parsed :: "upgrade_flags \<Rightarrow> parsed" where
  "upgrade_parsed f = (fold (\<lambda>(n, v). set_flag n v) (upgrade_settings f)
     (start_parse upgrade_start))"

lemma parse_upgrade_args:
  assumes "no_env w all_upgrade_flags"
  shows "parseFlags w all_upgrade_flags (upgrade_args f) = Inr (upgrade_parsed f)"
proof -
  have "reorderArgs all_upgrade_flags (upgrade_args f) = upgrade_args f"
  proof (rule reorder_flags, unfold list_all_iff, clarify)
    fix a assume "a \<in> set (upgrade_args f)"
    then obtain n v where a: "a = render (n, v)" "n \<in> set (map fst (upgrade_settings f))" by force
    then show "a \<noteq> ''--'' \<and> argIsFlag all_upgrade_flags a"
      using upgrade_names_ok argIsFlag_render [of n all_upgrade_flags v]
      by (simp only: upgrade_setting_names list_all_iff simp_thms)
  qed
  moreover have "flag_Parse (start_parse upgrade_start) (upgrade_args f) = (fold (\<lambda>(n, v). set_flag n v) (upgrade_settings f) (start_parse upgrade_start))\<lparr>rest := []\<rparr>"
  proof (rule flag_Parse_settings, clarify)
    fix n v assume nv: "(n, v) \<in> set (upgrade_settings f)"
    then have "n \<in> set (map fst (upgrade_settings f))" by force
    then have "plain_flag n" using upgrade_names_ok by (simp only: upgrade_setting_names list_all_iff)
    moreover have "list_all (\<lambda>(n, v). \<exists>x. map_of upgrade_start n = Some x \<and> same_kind v x) (upgrade_settings f)"
      by (simp add: upgrade_settings_def upgrade_start_def)
    then have "\<exists>x. map_of upgrade_start n = Some x \<and> same_kind v x"
      using nv by (auto simp only: list_all_iff)
    ultimately show "plain_flag n \<and> (\<exists>x. map_of (vals (start_parse upgrade_start)) n = Some x \<and> same_kind v x)"
      by (simp add: start_parse_def)
  qed
  then have "flag_Parse (start_parse upgrade_start) (upgrade_args f) = upgrade_parsed f"
    by (simp add: upgrade_parsed_def fold_set_flag start_parse_def flip: surjective)
  moreover have "list_all (\<lambda>f. length (flag_names f) = 1 \<or> set (flag_names f) \<inter> set (rev upgrade_names) = {}) all_upgrade_flags"
    by code_simp
  then have "normalizeFlags all_upgrade_flags (actual (upgrade_parsed f)) (upgrade_parsed f) = Inr (upgrade_parsed f)"
    by (intro normalizeFlags_single) (simp only: upgrade_parsed_def fold_set_flag upgrade_setting_names start_parse_def append_Nil2 parsed.select_convs)
  ultimately show ?thesis
    using flagSet_no_env [OF assms] upgrade_defaults_list
    by (simp add: parseFlags_def Let_def upgrade_parsed_def fold_set_flag start_parse_def)
qed

lemma upgrade_parsed_flags:
  "upgrade_flags_of (upgrade_parsed f) = f" "rest (upgrade_parsed f) = []"
  "missingFlags w all_upgrade_flags (upgrade_parsed f) = []" "\<not> lookupBool ''h'' (upgrade_parsed f)" "\<not> lookupBool ''help'' (upgrade_parsed f)"
proof -
  have l: "map_of (vals (upgrade_parsed f)) n = (case map_of (upgrade_settings f) n of Some v \<Rightarrow> Some v
      | None \<Rightarrow> if n = ''help'' \<or> n = ''h'' then Some (FBool False) else None)" for n
    by (simp add: upgrade_parsed_def upgrade_settings_def upgrade_start_def start_parse_def)
  show "upgrade_flags_of (upgrade_parsed f) = f"
    by (simp add: upgrade_flags_of_def lookupBool_def lookupString_def l) (simp add: upgrade_settings_def)
  show "rest (upgrade_parsed f) = []" by (simp add: upgrade_parsed_def fold_set_flag start_parse_def)
  show "\<not> lookupBool ''h'' (upgrade_parsed f)" "\<not> lookupBool ''help'' (upgrade_parsed f)"
    by (simp_all add: lookupBool_def l) (simp_all add: upgrade_settings_def)
  have "IsSet w all_upgrade_flags (upgrade_parsed f) n" if "n \<in> set upgrade_names" for n
    using that by (simp add: IsSet_def upgrade_parsed_def fold_set_flag upgrade_setting_names)
  moreover have "list_all (\<lambda>f. flag_Required f \<longrightarrow> list_ex (\<lambda>k. TrimSpace k \<in> set upgrade_names) (Split (flag_Name f) CHR '','')) all_upgrade_flags"
    by code_simp
  ultimately show "missingFlags w all_upgrade_flags (upgrade_parsed f) = []"
    unfolding missingFlags_def map_is_Nil_conv filter_empty_conv list_all_iff list_ex_iff by blast
qed

lemma upgrade_command_args:
  assumes "no_env w upgrade_flag_list"
  shows "run_state (upgrade_command (upgrade_args f)) w = run_state (do {
    b \<leftarrow> upgrade_Before f;
    case b of Inl code \<Rightarrow> fail code | Inr f' \<Rightarrow> never_fails (upgrade_Run f') }) w"
proof -
  have "no_env w [HelpFlag]" by (simp add: no_env_def HelpFlag_def BoolFlag_def flagFromFileEnv_def env_lookup_def)
  then have "no_env w all_upgrade_flags" using assms by (simp add: no_env_def)
  note p = parse_upgrade_args [OF this, of f]
  show ?thesis
    unfolding upgrade_command_def command_Run_def Let_def
    by (simp add: p upgrade_parsed_flags never_fails_def split: prod.split sum.split)
qed

lemma find_command_append: "find_command cmds name = Some run \<Longrightarrow> find_command (cmds @ cmds') name = Some run"
  by (induction cmds name rule: find_command.induct) (auto split: if_splits)

lemma app_Run_command:
  assumes "no_env w app_flags" "find_command cmds name = Some run" "name \<noteq> []" "hd name \<noteq> CHR ''-''"
  shows "run_state (app_Run version app_flags cmds (name # args)) w = run_state (run args) w"
proof -
  let ?fl = "app_flags @ [HelpFlag, VersionFlag]"
  have "no_env w ?fl"
    using assms(1) by (simp add: no_env_def HelpFlag_def VersionFlag_def BoolFlag_def flagFromFileEnv_def env_lookup_def)
  moreover have "concat (map (\<lambda>f. map (\<lambda>n. (n, flag_default (flag_Value f))) (flag_names f)) ?fl) =
      map (\<lambda>n. (n, FBool False)) [''debug'', ''help'', ''h'', ''version'', ''v'']" by code_simp
  ultimately have "flagSet w ?fl = Inr (map (\<lambda>n. (n, FBool False)) [''debug'', ''help'', ''h'', ''version'', ''v''])"
    by (simp add: flagSet_no_env)
  moreover have "flag_Parse (start_parse vs) (name # args) = (start_parse vs)\<lparr>rest := name # args\<rparr>" for vs
    using assms(3,4) by (cases name) (simp_all add: HasPrefix_def)
  moreover have "list_all (\<lambda>f. length (flag_names f) = 1 \<or> set (flag_names f) \<inter> set [] = {}) ?fl" by (simp add: list_all_iff)
  then have "normalizeFlags ?fl [] p = Inr p" for p by (rule normalizeFlags_single)
  moreover have "missingFlags w ?fl p = []" for p
    by (simp add: missingFlags_def app_flags_def HelpFlag_def VersionFlag_def BoolFlag_def)
  moreover have "find_command (with_help cmds) name = Some run"
    unfolding with_help_def by (rule find_command_append [OF assms(2)])
  ultimately show ?thesis
    by (simp add: app_Run_def Let_def start_parse_def lookupBool_def)
qed

text \<open>Flags with which \<^verbatim>\<open>upgrade\<close> is willing to run.\<close>

definition admissible :: "upgrade_flags \<Rightarrow> bool" where
  "admissible f \<longleftrightarrow>
     sourceDir f \<noteq> destinationDir f \<and> (upgradeEDGI f \<or> upgradeK3S f \<or> upgradeKernel f) \<and>
     (upgradeRootFS f \<longrightarrow> upgradeEDGI f \<and> upgradeK3S f)"

text \<open>What is only said.\<close>

fun told :: "event \<Rightarrow> bool" where
  "told (EvLog _) = True"
| "told (EvOther _ _) = True"
| "told _ = False"

definition only_told :: "world \<Rightarrow> world \<Rightarrow> bool" where
  "only_told w u \<longleftrightarrow> files u = files w \<and> (\<exists>evs. trace u = trace w @ evs \<and> list_all told evs)"

lemma only_told_trace: "list_all told evs \<Longrightarrow> only_told w (w\<lparr>trace := trace w @ evs\<rparr>)"
  by (auto simp: only_told_def)

lemma upgrade_Before_admissible:
  assumes "run_state (upgrade_Before f) w = (r, u)"
  shows "(case r of Inl _ \<Rightarrow> only_told w u | Inr f' \<Rightarrow> admissible f' \<and> u = w)"
proof -
  have "only_told w (w\<lparr>trace := trace w @ [EvOther ''help'' [''upgrade''], EvLog LError]\<rparr>)" by (rule only_told_trace) simp
  then show ?thesis
    using assms by (auto simp: upgrade_Before_def admissible_def Let_def emit_def only_told_def split: if_splits)
qed

lemma upgrade_command_cases:
  "wp (upgrade_command args) (\<lambda>r u. only_told w u \<or> (\<exists>f. admissible f \<and> run_state (never_fails (upgrade_Run f)) w = (r, u))) w"
proof -
  have b: "wp (never_fails (upgrade_Before f)) (\<lambda>r u. case r of Inr (Inr f') \<Rightarrow> admissible f' \<and> u = w | Inl _ \<Rightarrow> only_told w u | _ \<Rightarrow> False) w" for f
  proof -
    obtain r u where r: "run_state (upgrade_Before f) w = (r, u)" by fastforce
    from upgrade_Before_admissible [OF r] show ?thesis by (cases r) (simp_all add: never_fails_def wp_def r)
  qed
  have "only_told w (w\<lparr>trace := trace w @ [EvOther ''incorrect usage'' [''upgrade''], EvOther ''help'' [''upgrade'']]\<rparr>)"
    "only_told w (w\<lparr>trace := trace w @ [EvOther ''help'' [''upgrade'']]\<rparr>)" by (rule only_told_trace, simp)+
  then show ?thesis
    unfolding upgrade_command_def command_Run_def Let_def
    by (auto simp: show_help_def split: sum.split intro!: wp_mono [OF b]) (auto simp: wp_def split: prod.split)
qed

text \<open>C37: The command line of \<^verbatim>\<open>upgrade\<close>: every setting of its flags, true or false, whatever the directories are called, can be given as
  arguments, and \<^verbatim>\<open>app.Run\<close> finds the command, understands exactly these settings and passes them on to \<^verbatim>\<open>Before\<close> and \<^verbatim>\<open>Run\<close>.\<close>

theorem upgrade_arguments_understood:
  assumes "no_env w (app_flags @ upgrade_flag_list)"
  shows "run_state (app_Run app_version app_flags (app_Commands unmarshal marshal marshal_config json x)
           (''upgrade'' # map render (upgrade_settings f))) w =
    run_state (do { b \<leftarrow> upgrade_Before f;
                    case b of Inl code \<Rightarrow> fail code | Inr f' \<Rightarrow> never_fails (upgrade_Run f') }) w"
proof -
  have e: "no_env w app_flags" "no_env w upgrade_flag_list" using assms by (simp_all add: no_env_def)
  have "find_command (app_Commands unmarshal marshal marshal_config json x) ''upgrade'' = Some upgrade_command"
    by (simp add: app_Commands_def)
  from app_Run_command [OF e(1) this] show ?thesis by (simp add: upgrade_command_args [OF e(2)])
qed

text \<open>C38: \<^verbatim>\<open>upgrade\<close> guards itself: with whatever arguments and environment it is called, it either changes no file and only prints and logs,
  or it is \<^verbatim>\<open>Run\<close> with a source that is not the destination, at least one component, and both components of the root file
  system when that was asked for.\<close>

theorem upgrade_command_guarded:
  "wp (upgrade_command args)
     (\<lambda>r u. only_told w u \<or> (\<exists>f. admissible f \<and> run_state (never_fails (upgrade_Run f)) w = (r, u))) w"
  by (rule upgrade_command_cases)

end
