(* ===== verification/RoundTrip.thy ===== *)
theory RoundTrip
  imports ReadConfig
begin

text \<open>
  A configuration that is encoded to a map and decoded again is the configuration: every field of
  every struct is found under its key, whatever order the entries are visited in.
\<close>

subsection \<open>Decoding what was encoded\<close>

lemma map_of_sort: "distinct (map fst m) \<Longrightarrow> map_of (sort_key fst m) = map_of m"
  by (subst map_of_inject_set) (auto simp: distinct_map)

lemma fst_let_pair [simp]: "fst (case p of (y, b) \<Rightarrow> (f y, b)) = f (fst p)"
  and snd_let_pair [simp]: "snd (case p of (y, b) \<Rightarrow> (f y, b)) = snd p"
  by (simp_all split: prod.split)

abbreviation known :: "schema \<Rightarrow> gmap \<Rightarrow> bool" where
  "known sch m \<equiv> \<forall>k \<in> fst ` set m. map_of sch k \<noteq> None"

lemma dec_fields_known:
  assumes "map_of sch k \<noteq> None"
  shows "fst (dec_fields sch d ((k, v) # m) x) = fst (dec_fields sch d m (fst (d k v x)))"
    and "snd (dec_fields sch d ((k, v) # m) x) \<longleftrightarrow> snd (d k v x) \<or> snd (dec_fields sch d m (fst (d k v x)))"
  using assms by (simp_all add: find_field_def split: prod.split)

lemma dec_fields_get:
  assumes other: "\<And>f v x. map_of sch f \<noteq> None \<Longrightarrow> f \<noteq> k \<Longrightarrow> g (fst (d f v x)) = g x"
    and own: "\<And>v x. g (fst (d k v x)) = h v (g x)"
  shows "distinct (map fst m) \<Longrightarrow> known sch m \<Longrightarrow>
     g (fst (dec_fields sch d m x)) = (case map_of m k of None \<Rightarrow> g x | Some v \<Rightarrow> h v (g x))"
proof (induction m arbitrary: x)
  case (Cons e m)
  obtain k' v where e: "e = (k', v)" by (cases e)
  have k': "map_of sch k' \<noteq> None" using Cons.prems by (simp add: e)
  have "map_of m k' = None" using Cons.prems by (simp add: e map_of_eq_None_iff)
  moreover have "g (fst (dec_fields sch d (e # m) x)) = g (fst (dec_fields sch d m (fst (d k' v x))))"
    by (simp only: e dec_fields_known(1) [OF k'])
  ultimately show ?case
    using Cons other [OF k', of v x] own [of v x]
    by (cases "k' = k") (simp_all add: e del: dec_fields.simps split: option.split)
qed simp

lemma dec_fields_ok:
  "known sch m \<Longrightarrow> \<forall>(k, v) \<in> set m. \<forall>x. \<not> snd (d k v x) \<Longrightarrow> \<not> snd (dec_fields sch d m x)"
proof (induction m arbitrary: x)
  case (Cons e m)
  then show ?case by (cases e) (auto simp: dec_fields_known(2) simp del: dec_fields.simps)
qed simp

lemma dec_struct_get:
  assumes "\<And>f v x. map_of sch f \<noteq> None \<Longrightarrow> f \<noteq> k \<Longrightarrow> g (fst (d f v x)) = g x"
    and "\<And>v x. g (fst (d k v x)) = h v (g x)" and "distinct (map fst m)" "known sch m"
  shows "g (fst (dec_struct sch d (GMap m) x)) = (case map_of m k of None \<Rightarrow> g x | Some v \<Rightarrow> h v (g x))"
proof -
  have "distinct (map fst (sort_key fst m))" "known sch (sort_key fst m)"
    using assms(3,4) by (simp_all add: distinct_map)
  from dec_fields_get [where g = g and h = h and d = d and k = k and x = x, OF assms(1,2) this] show ?thesis
    by (simp add: dec_struct_def map_of_sort [OF assms(3)])
qed

lemma dec_struct_ok:
  "known sch m \<Longrightarrow> \<forall>(k, v) \<in> set m. \<forall>x. \<not> snd (d k v x) \<Longrightarrow> \<not> snd (dec_struct sch d (GMap m) x)"
  using dec_fields_ok [where sch = sch and m = "sort_key fst m" and d = d and x = x] by (simp add: dec_struct_def)

text \<open>The entries of an encoded struct.\<close>

lemma map_of_opt [simp]:
  "map_of (opt_str k s) k' = (if k' = k \<and> s \<noteq> [] then Some (GStr s) else None)"
  "map_of (opt_bool k b) k' = (if k' = k \<and> b then Some (GBool True) else None)"
  "map_of (opt_strs k ss) k' = (if k' = k \<and> ss \<noteq> [] then Some (GList (map GStr ss)) else None)"
  "map_of (opt_strmap k sm) k' = (if k' = k \<and> sm \<noteq> [] then Some (GMap (map (\<lambda>(k, v). (k, GStr v)) sm)) else None)"
  by (auto simp: opt_str_def opt_bool_def opt_strs_def opt_strmap_def)

lemma keys_opt [simp]:
  "fst ` set (opt_str k s) = (if s = [] then {} else {k})"
  "fst ` set (opt_bool k b) = (if b then {k} else {})"
  "fst ` set (opt_strs k ss) = (if ss = [] then {} else {k})"
  "fst ` set (opt_strmap k sm) = (if sm = [] then {} else {k})"
  "distinct (map fst (opt_str k s))" "distinct (map fst (opt_bool k b))"
  "distinct (map fst (opt_strs k ss))" "distinct (map fst (opt_strmap k sm))"
  by (auto simp: opt_str_def opt_bool_def opt_strs_def opt_strmap_def)

lemma all_opt [simp]:
  "(\<forall>(k', v) \<in> set (opt_str k s). P k' v) \<longleftrightarrow> (s \<noteq> [] \<longrightarrow> P k (GStr s))"
  "(\<forall>(k', v) \<in> set (opt_bool k b). P k' v) \<longleftrightarrow> (b \<longrightarrow> P k (GBool True))"
  "(\<forall>(k', v) \<in> set (opt_strs k ss). P k' v) \<longleftrightarrow> (ss \<noteq> [] \<longrightarrow> P k (GList (map GStr ss)))"
  "(\<forall>(k', v) \<in> set (opt_strmap k sm). P k' v) \<longleftrightarrow> (sm \<noteq> [] \<longrightarrow> P k (GMap (map (\<lambda>(k, v). (k, GStr v)) sm)))"
  by (auto simp: opt_str_def opt_bool_def opt_strs_def opt_strmap_def)

definition one_key :: "string \<Rightarrow> gmap \<Rightarrow> bool" where
  "one_key k m \<longleftrightarrow> map fst m = [] \<or> map fst m = [k]"

lemma one_key_opt [simp]:
  "one_key k (opt_str k s)" "one_key k (opt_bool k b)" "one_key k (opt_strs k ss)" "one_key k (opt_strmap k sm)"
  "one_key k []" "one_key k [(k, v)]"
  by (simp_all add: one_key_def opt_str_def opt_bool_def opt_strs_def opt_strmap_def)

lemma one_key_concat:
  "list_all2 one_key ks ms \<Longrightarrow> distinct ks \<Longrightarrow> distinct (map fst (concat ms)) \<and> set (map fst (concat ms)) \<subseteq> set ks"
proof (induction rule: list_all2_induct)
  case (Cons k ks m ms)
  have m: "set (map fst m) \<subseteq> {k}" "distinct (map fst m)" using Cons.hyps by (auto simp: one_key_def)
  have "map fst (concat (m # ms)) = map fst m @ map fst (concat ms)" by simp
  then show ?case using Cons m by (simp only: distinct_append set_append distinct.simps list.set) blast
qed simp

text \<open>Lists and maps of strings.\<close>

lemma dec_elems_strs [simp]: "dec_elems dec_str [] (map GStr ss) olds = (ss, False)"
  by (induction ss arbitrary: olds) auto

lemma dec_strs_encoded [simp]: "dec_strs (GList (map GStr ss)) old = (ss, False)"
  by (simp add: dec_list_def)

lemma dec_entries_encoded:
  "distinct (map fst m) \<Longrightarrow> set (map fst m) \<inter> set (map fst old) = {} \<Longrightarrow>
     dec_entries (map (\<lambda>(k, v). (k, GStr v)) m) old = (old @ m, False)"
proof (induction m arbitrary: old)
  case (Cons e m)
  obtain k v where e: "e = (k, v)" by (cases e)
  have "AList.update k v old = old @ [(k, v)]" using Cons.prems by (induction old) (auto simp: e)
  then show ?case using Cons by (simp add: e)
qed simp

lemma dec_entries_no_error [simp]: "\<not> snd (dec_entries (map (\<lambda>(k, v). (k, GStr v)) m) old)"
proof (induction m arbitrary: old)
  case (Cons e m)
  then show ?case by (cases e) (auto split: prod.split dest: arg_cong [where f = snd])
qed simp

lemma dec_strmap_encoded [simp]:
  "distinct (map fst m) \<Longrightarrow> fst (dec_strmap (GMap (map (\<lambda>(k, v). (k, GStr v)) m)) []) = m"
  "\<not> snd (dec_strmap (GMap (map (\<lambda>(k, v). (k, GStr v)) m)) old)"
  by (simp_all add: dec_strmap_def dec_entries_encoded)

lemma dec_elems_encoded:
  assumes "\<And>x. x \<in> set xs \<Longrightarrow> d (f x) z = (x, False)"
  shows "dec_elems d z (map f xs) [] = (xs, False)"
  using assms by (induction xs) auto

lemma dec_elems_no_error:
  assumes "\<And>x y. x \<in> set xs \<Longrightarrow> \<not> snd (d (f x) y)"
  shows "\<not> snd (dec_elems d z (map f xs) olds)"
  using assms
proof (induction xs arbitrary: olds)
  case (Cons x xs)
  have "\<not> snd (dec_elems d z (map f xs) (tl olds))" using Cons by simp
  moreover have "\<not> snd (d (f x) y)" for y using Cons.prems by simp
  ultimately show ?case by (simp add: case_prod_unfold)
qed simp

subsection \<open>The structs\<close>

lemma decode_wifi: "dec_struct wifi_schema wifi_field (GMap (encode_wifi x)) \<lparr>wifi_Name = [], wifi_Passphrase = []\<rparr> = (x, False)"
proof -
  let ?r = "dec_struct wifi_schema wifi_field (GMap (encode_wifi x)) \<lparr>wifi_Name = [], wifi_Passphrase = []\<rparr>"
  have k: "distinct (map fst (encode_wifi x))" "known wifi_schema (encode_wifi x)"
    by (simp_all add: encode_wifi_def wifi_schema_def image_Un ball_Un)
  have "wifi_Name (fst ?r) = wifi_Name x"
    by (subst dec_struct_get [where k = "''name''" and h = "\<lambda>v y. fst (dec_str v y)", OF _ _ k])
      (auto simp: wifi_schema_def wifi_field_def encode_wifi_def map_add_def)
  moreover have "wifi_Passphrase (fst ?r) = wifi_Passphrase x"
    by (subst dec_struct_get [where k = "''passphrase''" and h = "\<lambda>v y. fst (dec_str v y)", OF _ _ k])
      (auto simp: wifi_schema_def wifi_field_def encode_wifi_def map_add_def)
  moreover have "\<not> snd ?r"
    by (rule dec_struct_ok [OF k(2)]) (simp add: encode_wifi_def ball_Un wifi_field_def)
  ultimately show ?thesis by (cases ?r) simp
qed


definition encoded_field :: "schema \<Rightarrow> (string \<Rightarrow> 'a decoder) \<Rightarrow> string \<Rightarrow> ('a \<Rightarrow> 'b) \<Rightarrow> (gval \<Rightarrow> 'b \<Rightarrow> 'b) \<Rightarrow> bool" where
  "encoded_field sch d k g h \<longleftrightarrow>
     (\<forall>f v x. map_of sch f \<noteq> None \<longrightarrow> f \<noteq> k \<longrightarrow> g (fst (d f v x)) = g x) \<and> (\<forall>v x. g (fst (d k v x)) = h v (g x))"

lemma decode_field:
  assumes "encoded_field sch d k g h" "distinct (map fst m)" "known sch m"
  shows "g (fst (dec_struct sch d (GMap m) x)) = (case map_of m k of None \<Rightarrow> g x | Some v \<Rightarrow> h v (g x))"
  by (rule dec_struct_get [OF _ _ assms(2,3)]) (use assms(1) in \<open>auto simp: encoded_field_def\<close>)

abbreviation "dstr \<equiv> \<lambda>v y. fst (dec_str v y)"
abbreviation "dbool \<equiv> \<lambda>v y. fst (dec_bool v y)"
abbreviation "dstrs \<equiv> \<lambda>v y. fst (dec_strs v y)"
abbreviation "dstrmap \<equiv> \<lambda>v y. fst (dec_strmap v y)"

lemma file_fields:
  "encoded_field file_schema file_field ''encoding'' Encoding dstr"
  "encoded_field file_schema file_field ''content'' Content dstr"
  "encoded_field file_schema file_field ''owner'' Owner dstr"
  "encoded_field file_schema file_field ''path'' Path dstr"
  "encoded_field file_schema file_field ''permissions'' RawFilePermissions dstr"
  by (auto simp: encoded_field_def file_schema_def file_field_def split: if_splits)

lemma install_fields:
  "encoded_field install_schema install_field ''forceEfi'' ForceEFI dbool"
  "encoded_field install_schema install_field ''device'' Device dstr"
  "encoded_field install_schema install_field ''configUrl'' ConfigURL dstr"
  "encoded_field install_schema install_field ''silent'' Silent dbool"
  "encoded_field install_schema install_field ''isoUrl'' ISOURL dstr"
  "encoded_field install_schema install_field ''powerOff'' PowerOff dbool"
  "encoded_field install_schema install_field ''noFormat'' NoFormat dbool"
  "encoded_field install_schema install_field ''debug'' Debug dbool"
  "encoded_field install_schema install_field ''tty'' TTY dstr"
  by (simp_all add: encoded_field_def install_schema_def install_field_def)

lemma edgi_fields:
  "encoded_field edgi_schema edgi_field ''dataSources'' DataSources dstrs"
  "encoded_field edgi_schema edgi_field ''modules'' Modules dstrs"
  "encoded_field edgi_schema edgi_field ''sysctls'' Sysctls dstrmap"
  "encoded_field edgi_schema edgi_field ''ntpServers'' NTPServers dstrs"
  "encoded_field edgi_schema edgi_field ''dnsNameservers'' DNSNameservers dstrs"
  "encoded_field edgi_schema edgi_field ''wifi'' Wifi (\<lambda>v y. fst (dec_list (dec_struct wifi_schema wifi_field) \<lparr>wifi_Name = [], wifi_Passphrase = []\<rparr> v y))"
  "encoded_field edgi_schema edgi_field ''password'' Password dstr"
  "encoded_field edgi_schema edgi_field ''serverUrl'' ServerURL dstr"
  "encoded_field edgi_schema edgi_field ''token'' Token dstr"
  "encoded_field edgi_schema edgi_field ''labels'' Labels dstrmap"
  "encoded_field edgi_schema edgi_field ''k3sArgs'' K3sArgs dstrs"
  "encoded_field edgi_schema edgi_field ''environment'' Environment dstrmap"
  "encoded_field edgi_schema edgi_field ''taints'' Taints dstrs"
  "encoded_field edgi_schema edgi_field ''install'' Install (\<lambda>v y. fst (dec_install v y))"
  by (simp_all add: encoded_field_def edgi_schema_def edgi_field_def)


lemma config_fields:
  "encoded_field cloudConfig_schema config_field ''sshAuthorizedKeys'' SSHAuthorizedKeys dstrs"
  "encoded_field cloudConfig_schema config_field ''writeFiles'' WriteFiles (\<lambda>v y. fst (dec_list (dec_struct file_schema file_field) empty_file v y))"
  "encoded_field cloudConfig_schema config_field ''hostname'' Hostname dstr"
  "encoded_field cloudConfig_schema config_field ''edgi'' EDGI (\<lambda>v y. fst (dec_struct edgi_schema edgi_field v y))"
  "encoded_field cloudConfig_schema config_field ''runCmd'' Runcmd dstrs"
  "encoded_field cloudConfig_schema config_field ''bootCmd'' Bootcmd dstrs"
  "encoded_field cloudConfig_schema config_field ''initCmd'' Initcmd dstrs"
  by (simp_all add: encoded_field_def cloudConfig_schema_def config_field_def)

lemma decode_file: "dec_struct file_schema file_field (GMap (encode_file x)) y = (x, False)"
proof -
  let ?r = "dec_struct file_schema file_field (GMap (encode_file x)) y"
  have k: "distinct (map fst (encode_file x))" "known file_schema (encode_file x)"
    by (simp_all add: encode_file_def file_schema_def)
  have "fst ?r = x"
    by (rule cfile.equality) (simp_all add: file_fields [THEN decode_field, OF k], simp_all add: encode_file_def)
  moreover have "\<not> snd ?r"
    by (rule dec_struct_ok [OF k(2)]) (simp add: encode_file_def file_field_def)
  ultimately show ?thesis by (cases ?r) simp
qed

lemma decode_install: "dec_struct install_schema install_field (GMap (encode_install x)) empty_install = (x, False)"
proof -
  let ?r = "dec_struct install_schema install_field (GMap (encode_install x)) empty_install"
  have k: "distinct (map fst (encode_install x))" "known install_schema (encode_install x)"
    by (simp_all add: encode_install_def install_schema_def image_Un ball_Un)
  have "fst ?r = x"
    by (rule install.equality)
      (simp_all add: install_fields [THEN decode_field, OF k], simp_all add: encode_install_def map_add_def empty_install_def)
  moreover have "\<not> snd ?r"
    by (rule dec_struct_ok [OF k(2)]) (simp add: encode_install_def ball_Un install_field_def)
  ultimately show ?thesis by (cases ?r) simp
qed

text \<open>A Go map has distinct keys.\<close>

definition wf_edgi :: "edgi \<Rightarrow> bool" where
  "wf_edgi e \<longleftrightarrow> distinct (map fst (Sysctls e)) \<and> distinct (map fst (Labels e)) \<and> distinct (map fst (Environment e))"

definition start_edgi :: "install option \<Rightarrow> edgi" where
  "start_edgi i = empty_edgi\<lparr>Install := i\<rparr>"

lemma start_edgi_fields [simp]:
  "DataSources (start_edgi i) = []" "Modules (start_edgi i) = []" "Sysctls (start_edgi i) = []"
  "NTPServers (start_edgi i) = []" "DNSNameservers (start_edgi i) = []" "Wifi (start_edgi i) = []"
  "Password (start_edgi i) = []" "ServerURL (start_edgi i) = []" "Token (start_edgi i) = []"
  "Labels (start_edgi i) = []" "K3sArgs (start_edgi i) = []" "Environment (start_edgi i) = []"
  "Taints (start_edgi i) = []" "Install (start_edgi i) = i"
  by (simp_all add: start_edgi_def empty_edgi_def)

lemma dec_install_ok [simp]: "\<not> snd (dec_install (GMap (encode_install x)) y)"
proof -
  have k: "known install_schema (encode_install x)"
    by (simp_all add: encode_install_def install_schema_def image_Un ball_Un)
  have "\<not> snd (dec_struct install_schema install_field (GMap (encode_install x)) z)" for z
    by (rule dec_struct_ok [OF k]) (simp add: encode_install_def ball_Un install_field_def)
  then show ?thesis by (simp add: dec_install_def case_prod_unfold)
qed

lemma dec_wifi_list:
  "dec_list (dec_struct wifi_schema wifi_field) \<lparr>wifi_Name = [], wifi_Passphrase = []\<rparr> (GList (map (\<lambda>x. GMap (encode_wifi x)) xs)) [] = (xs, False)"
  "\<not> snd (dec_list (dec_struct wifi_schema wifi_field) z (GList (map (\<lambda>x. GMap (encode_wifi x)) xs)) old)"
proof -
  have "\<not> snd (dec_struct wifi_schema wifi_field (GMap (encode_wifi x)) y)" for x y
    by (rule dec_struct_ok) (simp_all add: encode_wifi_def wifi_schema_def image_Un ball_Un wifi_field_def)
  then show "\<not> snd (dec_list (dec_struct wifi_schema wifi_field) z (GList (map (\<lambda>x. GMap (encode_wifi x)) xs)) old)"
    by (simp add: dec_list_def dec_elems_no_error)
qed (simp add: dec_list_def dec_elems_encoded decode_wifi)

lemma dec_file_list:
  "dec_list (dec_struct file_schema file_field) z (GList (map (\<lambda>x. GMap (encode_file x)) xs)) [] = (xs, False)"
  "\<not> snd (dec_list (dec_struct file_schema file_field) z (GList (map (\<lambda>x. GMap (encode_file x)) xs)) old)"
  by (simp_all add: dec_list_def dec_elems_encoded decode_file dec_elems_no_error)

lemma encode_edgi_keys:
  "distinct (map fst (encode_edgi e))" "known edgi_schema (encode_edgi e)"
proof -
  let ?ms = "[opt_strs ''dataSources'' (DataSources e), opt_strs ''modules'' (Modules e),
     opt_strmap ''sysctls'' (Sysctls e), opt_strs ''ntpServers'' (NTPServers e),
     opt_strs ''dnsNameservers'' (DNSNameservers e),
     if Wifi e = [] then [] else [(''wifi'', GList (map (\<lambda>x. GMap (encode_wifi x)) (Wifi e)))],
     opt_str ''password'' (Password e), opt_str ''serverUrl'' (ServerURL e),
     opt_str ''token'' (Token e), opt_strmap ''labels'' (Labels e), opt_strs ''k3sArgs'' (K3sArgs e),
     opt_strmap ''environment'' (Environment e), opt_strs ''taints'' (Taints e),
     case Install e of None \<Rightarrow> [] | Some i \<Rightarrow> [(''install'', GMap (encode_install i))]]"
  have m: "encode_edgi e = concat ?ms" by (simp add: encode_edgi_def)
  have "list_all2 one_key (map fst edgi_schema) ?ms" "distinct (map fst edgi_schema)"
    by (simp_all add: edgi_schema_def split: option.split)
  from one_key_concat [OF this] have keys: "distinct (map fst (encode_edgi e))" "set (map fst (encode_edgi e)) \<subseteq> set (map fst edgi_schema)"
    unfolding m by simp_all
  then show "distinct (map fst (encode_edgi e))" "known edgi_schema (encode_edgi e)"
    by (auto simp: map_of_eq_None_iff)
qed

lemma encode_edgi_ok: "\<not> snd (dec_struct edgi_schema edgi_field (GMap (encode_edgi e)) x)"
  by (rule dec_struct_ok [OF encode_edgi_keys(2)], cases "Install e")
    (simp_all add: encode_edgi_def ball_Un edgi_field_def dec_wifi_list)

lemma decode_edgi:
  assumes "wf_edgi e" "i = None \<or> i = Some empty_install"
  shows "dec_struct edgi_schema edgi_field (GMap (encode_edgi e)) (start_edgi i) =
    (e\<lparr>Install := (case Install e of None \<Rightarrow> i | Some j \<Rightarrow> Some j)\<rparr>, False)"
proof -
  let ?r = "dec_struct edgi_schema edgi_field (GMap (encode_edgi e)) (start_edgi i)"
  note k = encode_edgi_keys [of e]
  have inst: "fst (dec_install (GMap (encode_install j)) i) = Some j" for j
    using assms(2) by (auto simp: dec_install_def decode_install)
  have "fst ?r = e\<lparr>Install := (case Install e of None \<Rightarrow> i | Some j \<Rightarrow> Some j)\<rparr>"
    using assms(1)
    by (intro edgi.equality; simp add: edgi_fields [THEN decode_field, OF k]; simp add: encode_edgi_def map_add_def wf_edgi_def inst dec_wifi_list split: option.split)
  moreover have "\<not> snd ?r" by (rule encode_edgi_ok)
  ultimately show ?thesis by (cases ?r) simp
qed


lemma decode_config:
  assumes "wf_edgi (EDGI c)" "i = None \<or> i = Some empty_install"
  shows "ToObj (EncodeToMap c) (empty_config\<lparr>EDGI := start_edgi i\<rparr>) =
    Inr (c\<lparr>EDGI := (EDGI c)\<lparr>Install := (case Install (EDGI c) of None \<Rightarrow> i | Some j \<Rightarrow> Some j)\<rparr>\<rparr>)"
proof -
  let ?s = "empty_config\<lparr>EDGI := start_edgi i\<rparr>"
  let ?r = "dec_struct cloudConfig_schema config_field (GMap (EncodeToMap c)) ?s"
  let ?ms = "[opt_strs ''sshAuthorizedKeys'' (SSHAuthorizedKeys c),
     if WriteFiles c = [] then [] else [(''writeFiles'', GList (map (\<lambda>f. GMap (encode_file f)) (WriteFiles c)))],
     opt_str ''hostname'' (Hostname c), [(''edgi'', GMap (encode_edgi (EDGI c)))],
     opt_strs ''runCmd'' (Runcmd c), opt_strs ''bootCmd'' (Bootcmd c), opt_strs ''initCmd'' (Initcmd c)]"
  have m: "EncodeToMap c = concat ?ms" by (simp add: EncodeToMap_def)
  have "list_all2 one_key (map fst cloudConfig_schema) ?ms" "distinct (map fst cloudConfig_schema)"
    by (simp_all add: cloudConfig_schema_def)
  from one_key_concat [OF this] have keys: "distinct (map fst (EncodeToMap c))"
    "set (map fst (EncodeToMap c)) \<subseteq> set (map fst cloudConfig_schema)"
    unfolding m by simp_all
  have k: "distinct (map fst (EncodeToMap c))" "known cloudConfig_schema (EncodeToMap c)"
    using keys by (auto simp: map_of_eq_None_iff)
  have s: "SSHAuthorizedKeys ?s = []" "WriteFiles ?s = []" "Hostname ?s = []" "EDGI ?s = start_edgi i"
    "Runcmd ?s = []" "Bootcmd ?s = []" "Initcmd ?s = []" by (simp_all add: empty_config_def)
  have "fst ?r = c\<lparr>EDGI := (EDGI c)\<lparr>Install := (case Install (EDGI c) of None \<Rightarrow> i | Some j \<Rightarrow> Some j)\<rparr>\<rparr>"
    by (intro CloudConfig.equality; (simp only: config_fields [THEN decode_field, OF k] s)?;
      simp add: EncodeToMap_def map_add_def dec_file_list decode_edgi [OF assms])
  moreover have "\<not> snd ?r"
    by (rule dec_struct_ok [OF k(2)]) (simp add: EncodeToMap_def ball_Un config_field_def dec_file_list encode_edgi_ok)
  ultimately show ?thesis by (simp add: ToObj_def case_prod_unfold)
qed



text \<open>C13: A binary user-data file travels through the configuration unharmed: \<^verbatim>\<open>readUserData\<close> turns it into a file to write, and what
  that file's content decodes to after the configuration was encoded and decoded is the user data, to be run as \<^verbatim>\<open>/run/edgi/userdata\<close>.\<close>

theorem userdata_unharmed:
  assumes "CHR 0x00 \<in> set b"
  shows "\<exists>m c f. parse_userdata unmarshal b = Inr m \<and>
    ToObj m (empty_config\<lparr>EDGI := empty_edgi\<lparr>Install := Some empty_install\<rparr>\<rparr>) = Inr c \<and>
    WriteFiles c = [f] \<and> Path f = ''/run/edgi/userdata'' \<and> Permissions f = Inr 0x1C0 \<and>
    DecodeContent gunzip (Content f) (Encoding f) = Inr b \<and> Runcmd c = [''source /run/edgi/userdata'']"
proof -
  let ?c = "userdata_script (base64_encode b) ''b64''"
  have "wf_edgi (EDGI ?c)" by (simp add: userdata_script_def empty_config_def wf_edgi_def empty_edgi_def)
  note rt = decode_config [OF this, of "Some empty_install"]
  have enc: "filter (\<lambda>c. c \<noteq> NL \<and> c \<noteq> CR) (base64_encode b) = base64_encode b"
    by (rule filter_True) (use base64_encode_chars in blast)
  have "ParseInt 8 32 ''0700'' = Some 448" by (simp add: ParseInt_def ParseUint_def digit_val_def HasPrefix_def)
  then show ?thesis
    using rt base64_decode_encode [OF enc] assms
    by (simp add: parse_userdata_def userdata_script_def start_edgi_def Permissions_def DecodeContent_def DecodeBase64Content_def)
qed

theorem userdata_unharmed_witness:
  "\<exists>m c f. parse_userdata (\<lambda>_. Inl IOEOF) [CHR 0x7F, CHR ''E'', CHR 0x00] = Inr m \<and>
    ToObj m (empty_config\<lparr>EDGI := empty_edgi\<lparr>Install := Some empty_install\<rparr>\<rparr>) = Inr c \<and>
    WriteFiles c = [f] \<and> DecodeContent (\<lambda>_. None) (Content f) (Encoding f) = Inr [CHR 0x7F, CHR ''E'', CHR 0x00]"
proof -
  have "CHR 0x00 \<in> set [CHR 0x7F, CHR ''E'', CHR 0x00]" by simp
  from userdata_unharmed [OF this, of "\<lambda>_. Inl IOEOF" "\<lambda>_. None"] show ?thesis by blast
qed

end
