(* ===== verification/Normal.thy ===== *)
theory Normal
  imports Schema
begin

text \<open>
  What the mappers of \<^verbatim>\<open>pkg/config/read.go\<close> make of a map: every field is read from the last of its
  spellings and converted to its type. The result conforms to the schema, and normalising it again changes
  nothing.
\<close>

subsection \<open>Maps entry by entry\<close>

definition each :: "(string \<Rightarrow> gval \<Rightarrow> gval) \<Rightarrow> gmap \<Rightarrow> gmap" where
  "each c = map (\<lambda>(k, v). (k, c k v))"

lemma each_keys [simp]: "map fst (each c d) = map fst d"
  by (auto simp: each_def)

lemma each_lookup [simp]: "map_of (each c d) k = map_option (c k) (map_of d k)"
  by (induction d) (auto simp: each_def)

lemma each_each: "each c (each c' d) = each (\<lambda>k v. c k (c' k v)) d"
  by (auto simp: each_def)

lemma each_cong: "(\<And>k v. (k, v) \<in> set d \<Longrightarrow> c k v = c' k v) \<Longrightarrow> each c d = each c' d"
  by (auto simp: each_def)

lemma each_id [simp]: "each (\<lambda>_ v. v) d = d"
  by (auto simp: each_def)

lemma alist_lookups: "distinct (map fst d) \<Longrightarrow> d = map (\<lambda>k. (k, the (map_of d k))) (map fst d)"
  by (rule sym, unfold map_map comp_def) (rule map_idI, auto)

lemma alist_eqI: "map fst d = map fst d' \<Longrightarrow> distinct (map fst d) \<Longrightarrow> map_of d = map_of d' \<Longrightarrow> d = d'"
  using alist_lookups [of d] alist_lookups [of d'] by simp

lemma convert_field_each: "distinct (map fst d) \<Longrightarrow> convert_field n c d = each (\<lambda>k v. if k = n then c v else v) d"
proof (cases "map_of d n")
  case None
  then have "each (\<lambda>k v. if k = n then c v else v) d = each (\<lambda>_ v. v) d" by (intro each_cong) (auto simp: map_of_eq_None_iff image_iff)
  then show ?thesis using None by (simp add: convert_field_def)
next
  case (Some x)
  then have n: "n \<in> fst ` set d" by (auto dest: map_of_SomeD simp: image_iff intro: rev_bexI)
  assume "distinct (map fst d)"
  then show ?thesis
    using Some n
    by (intro alist_eqI) (auto simp: convert_field_def update_conv' update_keys fun_eq_iff option.map_ident)
qed

lemma convert_fields_each:
  "distinct ns \<Longrightarrow> distinct (map fst d) \<Longrightarrow>
     fold (\<lambda>n. convert_field n c) ns d = each (\<lambda>k v. if k \<in> set ns then c v else v) d"
  by (induction ns arbitrary: d) (auto simp: convert_field_each each_each intro!: each_cong)

lemma schema_names: "distinct (map fst sch) \<Longrightarrow> k \<in> set (map fst (filter (\<lambda>(_, t'). t' = t) sch)) \<longleftrightarrow> map_of sch k = Some t"
  by force

lemma convert_type_each:
  "distinct (map fst sch) \<Longrightarrow> distinct (map fst d) \<Longrightarrow>
     convert_type sch t c d = each (\<lambda>k v. if map_of sch k = Some t then c v else v) d"
  unfolding convert_type_def
  by (subst convert_fields_each) (simp_all only: schema_names distinct_map_filter cong: if_cong)

subsection \<open>Spellings\<close>

text \<open>A name to which another spelling leads is no spelling of a third.\<close>

definition canonical :: "(string \<times> string) list \<Rightarrow> bool" where
  "canonical names \<longleftrightarrow> list_all (\<lambda>(k, n). n = k \<or> map_of names n \<in> {None, Some n}) names"

definition spells :: "(string \<times> string) list \<Rightarrow> string \<Rightarrow> string \<Rightarrow> bool" where
  "spells names n k \<longleftrightarrow> k \<noteq> n \<and> map_of names k = Some n"

lemma canonicalD: "canonical names \<Longrightarrow> spells names n k \<Longrightarrow> \<not> spells names k j"
  unfolding canonical_def spells_def list_all_iff
  by (metis (mono_tags, lifting) case_prodD insert_iff map_of_SomeD option.distinct(1) option.inject singletonD)

text \<open>A field has the value of the last entry that spells it otherwise, and its own if there is none.\<close>

definition spelled :: "(string \<times> string) list \<Rightarrow> gmap \<Rightarrow> string \<Rightarrow> gval option" where
  "spelled names d n =
     (case find (spells names n) (rev (map fst d)) of None \<Rightarrow> map_of d n | Some k \<Rightarrow> map_of d k)"

lemma fuzzy_step_lookup:
  "map_of (fuzzy_step names k d) n = (if spells names n k \<and> map_of d k \<noteq> None then map_of d k else map_of d n)"
  by (auto simp: fuzzy_step_def spells_def update_conv' split: option.split)

lemma fuzzy_step_keys:
  "\<exists>extra. map fst (fuzzy_step names k d) = map fst d @ extra \<and>
     (\<forall>x \<in> set extra. spells names x k) \<and> distinct extra \<and> set extra \<inter> set (map fst d) = {}"
  by (auto simp: fuzzy_step_def spells_def update_keys split: option.split)

lemma fuzzy_lookup:
  assumes "canonical names" "\<forall>k \<in> set ks. map_of d k \<noteq> None"
  shows "map_of (fold (fuzzy_step names) ks d) n =
    (case find (spells names n) (rev ks) of None \<Rightarrow> map_of d n | Some k \<Rightarrow> map_of d k)"
  using assms(2)
proof (induction ks arbitrary: n rule: rev_induct)
  case (snoc k ks)
  have "find (spells names k) (rev ks) = None" if "spells names n k" for n
    using canonicalD [OF assms(1) that] by (simp add: find_None_iff)
  with snoc show ?case by (auto simp: fuzzy_step_lookup)
qed simp

lemma fuzzy_keys:
  "\<exists>extra. map fst (fold (fuzzy_step names) ks d) = map fst d @ extra \<and>
     (\<forall>x \<in> set extra. \<exists>k. spells names x k) \<and> (distinct (map fst d) \<longrightarrow> distinct (map fst d @ extra))"
proof (induction ks arbitrary: d)
  case (Cons k ks)
  obtain e where e: "map fst (fuzzy_step names k d) = map fst d @ e" "\<forall>x \<in> set e. spells names x k" "distinct e"
    "set e \<inter> set (map fst d) = {}"
    using fuzzy_step_keys by blast
  from Cons [of "fuzzy_step names k d"] obtain e' where
    "map fst (fold (fuzzy_step names) ks (fuzzy_step names k d)) = map fst (fuzzy_step names k d) @ e'"
    "\<forall>x \<in> set e'. \<exists>k. spells names x k"
    "distinct (map fst (fuzzy_step names k d)) \<longrightarrow> distinct (map fst (fuzzy_step names k d) @ e')" by blast
  with e show ?case by (intro exI [of _ "e @ e'"]) auto
qed simp

lemma fuzzy_keys_closed:
  "(\<And>k n. k \<in> fst ` set d \<Longrightarrow> spells names n k \<Longrightarrow> n \<in> fst ` set d) \<Longrightarrow>
     map fst (fold (fuzzy_step names) ks d) = map fst d"
proof (induction ks arbitrary: d)
  case (Cons k ks)
  have same: "map fst (fuzzy_step names k d) = map fst d"
  proof (cases "\<exists>n. spells names n k \<and> map_of d k \<noteq> None")
    case True
    then obtain n v where n: "spells names n k" "map_of d k = Some v" by blast
    from n(2) have "k \<in> fst ` set d" by (force dest: map_of_SomeD)
    then have "n \<in> fst ` set d" by (rule Cons.prems) (rule n(1))
    with n show ?thesis by (auto simp: fuzzy_step_def spells_def update_keys)
  qed (auto simp: fuzzy_step_def spells_def split: option.split)
  then have "fst ` set (fuzzy_step names k d) = fst ` set d" by (metis list.set_map)
  then have "map fst (fold (fuzzy_step names) ks (fuzzy_step names k d)) = map fst (fuzzy_step names k d)"
    by (intro Cons.IH) (use Cons.prems in auto)
  with same show ?case by simp
qed simp

lemma find_in: "find P xs = Some x \<Longrightarrow> x \<in> set xs \<and> P x"
  by (induction xs) (auto split: if_splits)

lemma find_None_append: "find P xs = None \<Longrightarrow> find P (xs @ ys) = find P ys"
  by (induction xs) (auto split: if_splits)

lemma spelled_from: "spelled names d n = Some v \<Longrightarrow> v \<in> snd ` set d"
  by (force simp: spelled_def dest: map_of_SomeD split: option.splits)

lemma spelled_known:
  assumes "k \<in> fst ` set d" "k = n \<or> spells names n k"
  shows "spelled names d n \<noteq> None"
proof (cases "find (spells names n) (rev (map fst d))")
  case None
  then have "\<not> spells names n k" using assms(1) by (auto simp: find_None_iff)
  then show ?thesis using None assms by (auto simp: spelled_def map_of_eq_None_iff)
next
  case (Some x)
  then have "x \<in> fst ` set d" by (auto dest: find_in)
  then have "map_of d x \<noteq> None" by (simp add: map_of_eq_None_iff)
  with Some show ?thesis by (simp add: spelled_def)
qed

subsection \<open>Normalisation\<close>

definition normalise :: "(string \<times> string) list \<Rightarrow> (string \<Rightarrow> gval \<Rightarrow> gval) \<Rightarrow> gmap \<Rightarrow> gmap" where
  "normalise names conv d = each conv (fold (fuzzy_step names) (map fst d) d)"

text \<open>The maps of a decoded document have every key once, at every depth.\<close>

fun keyed :: "gval \<Rightarrow> bool" where
  "keyed (GMap m) = (distinct (map fst m) \<and> (\<forall>x \<in> set m. keyed (snd x)))"
| "keyed (GList vs) = (\<forall>v \<in> set vs. keyed v)"
| "keyed _ = True"

locale normaliser =
  fixes names :: "(string \<times> string) list" and conv :: "string \<Rightarrow> gval \<Rightarrow> gval"
  assumes canonical: "canonical names"
    and plain: "spells names n k \<Longrightarrow> conv k v = v"
    and keeps_keyed: "keyed v \<Longrightarrow> keyed (conv k v)"
    and twice: "keyed v \<Longrightarrow> conv k (conv k v) = conv k v"
begin

lemma lookup: "map_of (normalise names conv d) n = map_option (conv n) (spelled names d n)"
  using fuzzy_lookup [OF canonical, of "map fst d" d n]
  by (auto simp: normalise_def spelled_def map_of_eq_None_iff split: option.splits)

lemma keys:
  obtains extra where "map fst (normalise names conv d) = map fst d @ extra" "\<forall>x \<in> set extra. \<exists>k. spells names x k"
    "distinct (map fst d) \<Longrightarrow> distinct (map fst d @ extra)"
  using fuzzy_keys [of names "map fst d" d] by (auto simp: normalise_def)

lemma distinct_keys: "distinct (map fst d) \<Longrightarrow> distinct (map fst (normalise names conv d))"
  by (rule keys [of d]) simp

lemma find_same: "find (spells names n) (rev (map fst (normalise names conv d))) = find (spells names n) (rev (map fst d))"
proof (rule keys [of d])
  fix extra assume e: "map fst (normalise names conv d) = map fst d @ extra" "\<forall>x \<in> set extra. \<exists>k. spells names x k"
  then have "\<not> spells names n x" if "x \<in> set extra" for x using canonicalD [OF canonical] that by blast
  then have "find (spells names n) (rev extra) = None" by (simp add: find_None_iff)
  then show ?thesis unfolding e(1) by (simp add: find_None_append)
qed

lemma closed:
  assumes "k \<in> fst ` set (normalise names conv d)" "spells names n k"
  shows "n \<in> fst ` set (normalise names conv d)"
proof (rule keys [of d])
  fix extra assume "map fst (normalise names conv d) = map fst d @ extra" "\<forall>x \<in> set extra. \<exists>k. spells names x k"
  then have "k \<in> fst ` set d" using assms canonicalD [OF canonical assms(2)] by (metis Un_iff list.set_map set_append)
  then have "map_of (normalise names conv d) n \<noteq> None" using spelled_known assms(2) by (simp add: lookup)
  then show ?thesis by (simp add: map_of_eq_None_iff)
qed

lemma keyed_normalise:
  assumes "keyed (GMap d)"
  shows "keyed (GMap (normalise names conv d))"
proof -
  have dist: "distinct (map fst (normalise names conv d))" using assms by (simp add: distinct_keys)
  have "keyed v" if "(k, v) \<in> set (normalise names conv d)" for k v
  proof -
    from map_of_is_SomeI [OF dist that] obtain u where "spelled names d k = Some u" "v = conv k u" by (auto simp: lookup)
    with spelled_from assms keeps_keyed show ?thesis by fastforce
  qed
  with dist show ?thesis by auto
qed

lemma normalise_twice:
  assumes "keyed (GMap d)"
  shows "normalise names conv (normalise names conv d) = normalise names conv d"
proof (rule alist_eqI)
  show "map fst (normalise names conv (normalise names conv d)) = map fst (normalise names conv d)"
    unfolding normalise_def [of _ _ "normalise names conv d"] each_keys by (rule fuzzy_keys_closed) (rule closed)
  show "distinct (map fst (normalise names conv (normalise names conv d)))" using assms by (simp add: distinct_keys)
  show "map_of (normalise names conv (normalise names conv d)) = map_of (normalise names conv d)"
  proof
    fix n
    have "spelled names (normalise names conv d) n =
      (if find (spells names n) (rev (map fst d)) = None then map_option (conv n) (spelled names d n) else spelled names d n)"
    proof (cases "find (spells names n) (rev (map fst d))")
      case (Some k)
      then have "spells names n k" by (auto dest: find_in)
      then have "find (spells names k) (rev (map fst d)) = None" "conv k = (\<lambda>v. v)"
        using canonicalD [OF canonical] plain by (auto simp: find_None_iff)
      with Some show ?thesis by (simp add: spelled_def find_same lookup option.map_ident)
    qed (simp add: spelled_def find_same lookup)
    moreover have "conv n (conv n v) = conv n v" if "spelled names d n = Some v" for v
      using spelled_from [OF that] assms twice by force
    ultimately show "map_of (normalise names conv (normalise names conv d)) n = map_of (normalise names conv d) n"
      by (cases "spelled names d n") (simp_all add: lookup)
  qed
qed

end

subsection \<open>The mappers of the configuration\<close>

fun type_conv :: "ftype \<Rightarrow> gval \<Rightarrow> gval" where
  "type_conv TStringMap = to_map"
| "type_conv TStrings = to_slice"
| "type_conv TBoolean = to_bool"
| "type_conv _ = (\<lambda>v. v)"

definition field_conv :: "schema \<Rightarrow> string \<Rightarrow> gval \<Rightarrow> gval" where
  "field_conv sch k = (case map_of sch k of None \<Rightarrow> (\<lambda>v. v) | Some t \<Rightarrow> type_conv t)"

lemma field_conv_types:
  "(if map_of sch k = Some TStringMap
    then to_map (if map_of sch k = Some TStrings then to_slice (if map_of sch k = Some TBoolean then to_bool v else v)
                 else if map_of sch k = Some TBoolean then to_bool v else v)
    else if map_of sch k = Some TStrings then to_slice (if map_of sch k = Some TBoolean then to_bool v else v)
    else if map_of sch k = Some TBoolean then to_bool v else v) = field_conv sch k v"
proof (cases "map_of sch k")
  case (Some t)
  then show ?thesis by (cases t) (simp_all add: field_conv_def)
qed (simp add: field_conv_def)

lemma own_mappers_normalise:
  assumes "distinct (map fst sch)" "distinct (map fst d)"
  shows "own_mappers sch d = normalise (fuzzy_names sch) (field_conv sch) d"
proof -
  let ?d = "FuzzyNames_ToInternal sch d"
  have "distinct (map fst ?d)"
    using fuzzy_keys [of "fuzzy_names sch" "map fst d" d] assms(2) by (auto simp: FuzzyNames_ToInternal_def)
  then have "own_mappers sch d = each (\<lambda>k. field_conv sch k) ?d"
    using assms(1) by (simp add: own_mappers_def convert_type_each each_each field_conv_types del: map_of_eq_Some_iff)
  then show ?thesis by (simp add: normalise_def FuzzyNames_ToInternal_def)
qed

lemma keyed_convs: "keyed v \<Longrightarrow> keyed (type_conv t v)"
  by (cases t; cases v) auto

lemma convs_twice: "type_conv t (type_conv t v) = type_conv t v"
  by (cases t; cases v) auto

text \<open>No spelling of a field is itself a field that is converted.\<close>

definition schema_ok :: "schema \<Rightarrow> bool" where
  "schema_ok sch \<longleftrightarrow>
     distinct (map fst sch) \<and> canonical (fuzzy_names sch) \<and>
     list_all (\<lambda>(k, n). n = k \<or> map_of sch k \<in> {None, Some TString}) (fuzzy_names sch)"

lemma schema_ok_wifi: "schema_ok wifi_schema"
  by code_simp
lemma schema_ok_cloud: "schema_ok cloudConfig_schema"
  by code_simp
lemma schema_ok_edgi: "schema_ok edgi_schema"
  by code_simp
lemma schema_ok_install: "schema_ok install_schema"
  by code_simp
lemma schema_ok_file: "schema_ok file_schema"
  by code_simp

lemmas schemas_ok = schema_ok_wifi schema_ok_cloud schema_ok_edgi schema_ok_install schema_ok_file

lemma schema_ok_plain: "schema_ok sch \<Longrightarrow> spells (fuzzy_names sch) n k \<Longrightarrow> map_of sch k \<in> {None, Some TString}"
  unfolding schema_ok_def spells_def list_all_iff by (metis (mono_tags, lifting) case_prodD map_of_SomeD)

text \<open>The mappers of a struct's own fields, then those of the structs in the fields \<open>subs\<close>.\<close>

definition steady :: "(gval \<Rightarrow> gval) \<Rightarrow> bool" where
  "steady c \<longleftrightarrow> (\<forall>v. keyed v \<longrightarrow> keyed (c v) \<and> c (c v) = c v)"

lemma steadyD: "steady c \<Longrightarrow> keyed v \<Longrightarrow> keyed (c v)" "steady c \<Longrightarrow> keyed v \<Longrightarrow> c (c v) = c v"
  by (simp_all add: steady_def)

definition struct_conv :: "schema \<Rightarrow> (string \<times> (gval \<Rightarrow> gval)) list \<Rightarrow> string \<Rightarrow> gval \<Rightarrow> gval" where
  "struct_conv sch subs k = (case map_of subs k of None \<Rightarrow> field_conv sch k | Some c \<Rightarrow> c)"

fun structured :: "ftype option \<Rightarrow> bool" where
  "structured (Some (TStruct _)) = True"
| "structured (Some (TStructs _)) = True"
| "structured _ = False"

definition subs_ok :: "schema \<Rightarrow> (string \<times> (gval \<Rightarrow> gval)) list \<Rightarrow> bool" where
  "subs_ok sch subs \<longleftrightarrow> distinct (map fst subs) \<and> (\<forall>(k, c) \<in> set subs. structured (map_of sch k) \<and> steady c)"

lemma subs_ok_Nil [simp]: "subs_ok sch []"
  by (simp add: subs_ok_def)

lemma subs_okD: "subs_ok sch subs \<Longrightarrow> map_of subs k = Some c \<Longrightarrow> structured (map_of sch k) \<and> steady c"
  by (auto simp: subs_ok_def dest: map_of_SomeD)

lemma field_conv_structured: "structured (map_of sch k) \<Longrightarrow> field_conv sch k v = v"
  by (cases "map_of sch k" rule: structured.cases) (auto simp: field_conv_def)

lemma normaliser_struct:
  assumes "schema_ok sch" "subs_ok sch subs"
  shows "normaliser (fuzzy_names sch) (struct_conv sch subs)"
proof unfold_locales
  fix n k v assume "spells (fuzzy_names sch) n k"
  from schema_ok_plain [OF assms(1) this] show "struct_conv sch subs k v = v"
    using subs_okD [OF assms(2), of k] by (auto simp: struct_conv_def field_conv_def split: option.split)
next
  fix k v assume "keyed v"
  then show "keyed (struct_conv sch subs k v)" "struct_conv sch subs k (struct_conv sch subs k v) = struct_conv sch subs k v"
    using subs_okD [OF assms(2), of k]
    by (auto simp: struct_conv_def field_conv_def keyed_convs convs_twice steadyD split: option.split)
qed (use assms(1) in \<open>simp add: schema_ok_def\<close>)

lemma struct_mappers_normalise:
  assumes "schema_ok sch" "subs_ok sch subs" "distinct (map fst d)"
  shows "fold (\<lambda>(k, c). convert_field k c) subs (own_mappers sch d) = normalise (fuzzy_names sch) (struct_conv sch subs) d"
  using assms(2)
proof (induction subs rule: rev_induct)
  case Nil
  then show ?case using assms by (simp add: own_mappers_normalise schema_ok_def struct_conv_def)
next
  case (snoc x subs)
  obtain k c where x: "x = (k, c)" by (cases x)
  from snoc.prems x have ok: "subs_ok sch subs" "k \<notin> fst ` set subs" "structured (map_of sch k)" by (auto simp: subs_ok_def)
  let ?N = "normalise (fuzzy_names sch) (struct_conv sch subs) d"
  have "distinct (map fst ?N)" by (rule normaliser.distinct_keys [OF normaliser_struct [OF assms(1) ok(1)] assms(3)])
  then have "convert_field k c ?N = each (\<lambda>j v. if j = k then c (struct_conv sch subs j v) else struct_conv sch subs j v)
      (fold (fuzzy_step (fuzzy_names sch)) (map fst d) d)"
    unfolding convert_field_each by (simp add: normalise_def convert_field_each each_each)
  also have "\<dots> = normalise (fuzzy_names sch) (struct_conv sch (subs @ [x])) d"
    unfolding normalise_def
  proof (rule each_cong)
    fix j v
    have "map_of subs k = None" using ok(2) by (simp add: map_of_eq_None_iff)
    then show "(if j = k then c (struct_conv sch subs j v) else struct_conv sch subs j v) = struct_conv sch (subs @ [x]) j v"
      using field_conv_structured [OF ok(3)] by (auto simp: x struct_conv_def map_add_def split: option.split)
  qed
  finally show ?case using snoc.IH [OF ok(1)] by (simp add: x)
qed

definition steady_map :: "(gmap \<Rightarrow> gmap) \<Rightarrow> bool" where
  "steady_map f \<longleftrightarrow> (\<forall>d. keyed (GMap d) \<longrightarrow> keyed (GMap (f d)) \<and> f (f d) = f d)"

lemma steady_mapD: "steady_map f \<Longrightarrow> keyed (GMap d) \<Longrightarrow> keyed (GMap (f d)) \<and> f (f d) = f d"
  by (simp add: steady_map_def)

lemma steady_struct:
  assumes "schema_ok sch" "subs_ok sch subs" "\<And>d. f d = fold (\<lambda>(k, c). convert_field k c) subs (own_mappers sch d)"
  shows "steady_map f"
  unfolding steady_map_def
proof (intro allI impI)
  fix d assume d: "keyed (GMap d)"
  note N = normaliser_struct [OF assms(1,2)]
  have f: "f m = normalise (fuzzy_names sch) (struct_conv sch subs) m" if "keyed (GMap m)" for m
    using that assms(3) struct_mappers_normalise [OF assms(1,2)] by simp
  have k: "keyed (GMap (f d))" unfolding f [OF d] by (rule normaliser.keyed_normalise [OF N d])
  have "f (f d) = normalise (fuzzy_names sch) (struct_conv sch subs) (normalise (fuzzy_names sch) (struct_conv sch subs) d)"
    unfolding f [OF k] unfolding f [OF d] ..
  with k show "keyed (GMap (f d)) \<and> f (f d) = f d" using normaliser.normalise_twice [OF N d] f [OF d] by simp
qed

lemma steady_own: "schema_ok sch \<Longrightarrow> steady_map (own_mappers sch)"
  by (rule steady_struct [where subs = "[]"]) (simp_all add: subs_ok_def)

lemma steady_in_map: "steady_map f \<Longrightarrow> steady (in_map f)"
  unfolding steady_def
proof (intro allI impI)
  fix v assume f: "steady_map f" "keyed v"
  show "keyed (in_map f v) \<and> in_map f (in_map f v) = in_map f v"
  proof (cases v)
    case (GMap d)
    then show ?thesis using steady_mapD [OF f(1)] f(2) by (simp only: in_map.simps)
  qed (use f in simp_all)
qed

lemma steady_in_array: "steady_map f \<Longrightarrow> steady (in_array f)"
  unfolding steady_def
proof (intro allI impI)
  fix v assume f: "steady_map f" "keyed v"
  have "keyed (case x of GMap m \<Rightarrow> GMap (f m) | _ \<Rightarrow> x)"
    "(case (case x of GMap m \<Rightarrow> GMap (f m) | _ \<Rightarrow> x) of GMap m \<Rightarrow> GMap (f m) | _ \<Rightarrow> (case x of GMap m \<Rightarrow> GMap (f m) | _ \<Rightarrow> x)) =
      (case x of GMap m \<Rightarrow> GMap (f m) | _ \<Rightarrow> x)" if "keyed x" for x
    using that steady_mapD [OF f(1)] by (cases x; simp only: gval.case; simp)+
  with f(2) show "keyed (in_array f v) \<and> in_array f (in_array f v) = in_array f v"
    by (cases v) auto
qed

abbreviation edgi_subs :: "(string \<times> (gval \<Rightarrow> gval)) list" where
  "edgi_subs \<equiv> [(''wifi'', in_array (own_mappers wifi_schema)), (''install'', in_map (own_mappers install_schema))]"

abbreviation config_subs :: "(string \<times> (gval \<Rightarrow> gval)) list" where
  "config_subs \<equiv> [(''writeFiles'', in_array (own_mappers file_schema)), (''edgi'', in_map edgi_ToInternal)]"

lemma edgi_subs_ok: "subs_ok edgi_schema edgi_subs"
proof -
  have "structured (map_of edgi_schema ''wifi'')" "structured (map_of edgi_schema ''install'')" by (simp_all add: edgi_schema_def)
  then show ?thesis
    by (simp add: subs_ok_def steady_in_map steady_in_array steady_own schemas_ok)
qed

lemma steady_edgi: "steady_map edgi_ToInternal"
  by (rule steady_struct [OF schema_ok_edgi edgi_subs_ok]) (simp add: edgi_ToInternal_def)

lemma config_subs_ok: "subs_ok cloudConfig_schema config_subs"
proof -
  have "structured (map_of cloudConfig_schema ''writeFiles'')" "structured (map_of cloudConfig_schema ''edgi'')"
    by (simp_all add: cloudConfig_schema_def)
  then show ?thesis
    by (simp add: subs_ok_def steady_in_map steady_in_array steady_own steady_edgi schemas_ok)
qed

text \<open>The two structs that contain others are normalisers too.\<close>

interpretation edgi: normaliser "fuzzy_names edgi_schema" "struct_conv edgi_schema edgi_subs"
  by (rule normaliser_struct [OF schema_ok_edgi edgi_subs_ok])

interpretation cloud: normaliser "fuzzy_names cloudConfig_schema" "struct_conv cloudConfig_schema config_subs"
  by (rule normaliser_struct [OF schema_ok_cloud config_subs_ok])

lemma ToInternal_normalise:
  "distinct (map fst d) \<Longrightarrow> ToInternal d = normalise (fuzzy_names cloudConfig_schema) (struct_conv cloudConfig_schema config_subs) d"
  using struct_mappers_normalise [OF schema_ok_cloud config_subs_ok, of d] by (simp add: ToInternal_def)

subsection \<open>Types\<close>

text \<open>What the conversions establish: a boolean, a list of strings and a map of strings are no longer given as a string or a map of
  anything.\<close>

fun typed :: "ftype \<Rightarrow> gval \<Rightarrow> bool" where
  "typed TBoolean (GStr _) = False"
| "typed TStrings (GStr _) = False"
| "typed TStringMap (GMap _) = False"
| "typed _ _ = True"

definition typed_fields :: "schema \<Rightarrow> gmap \<Rightarrow> bool" where
  "typed_fields sch d \<longleftrightarrow> list_all (\<lambda>(n, t). case map_of d n of None \<Rightarrow> True | Some v \<Rightarrow> typed t v) sch"

fun struct_at :: "(gmap \<Rightarrow> bool) \<Rightarrow> gval option \<Rightarrow> bool" where
  "struct_at P (Some (GMap m)) = P m"
| "struct_at P _ = True"

fun structs_at :: "(gmap \<Rightarrow> bool) \<Rightarrow> gval option \<Rightarrow> bool" where
  "structs_at P (Some (GList vs)) = list_all (\<lambda>v. struct_at P (Some v)) vs"
| "structs_at P _ = True"

definition typed_edgi :: "gmap \<Rightarrow> bool" where
  "typed_edgi d \<longleftrightarrow>
     typed_fields edgi_schema d \<and> structs_at (typed_fields wifi_schema) (map_of d ''wifi'') \<and>
     struct_at (typed_fields install_schema) (map_of d ''install'')"

definition typed_config :: "gmap \<Rightarrow> bool" where
  "typed_config d \<longleftrightarrow>
     typed_fields cloudConfig_schema d \<and> structs_at (typed_fields file_schema) (map_of d ''writeFiles'') \<and>
     struct_at typed_edgi (map_of d ''edgi'')"

lemma typed_type_conv: "typed t (type_conv t v)"
  by (cases t; cases v) simp_all

lemma typed_structured: "structured (Some t) \<Longrightarrow> typed t v"
  by (cases t) simp_all

lemma typed_struct:
  assumes "schema_ok sch" "subs_ok sch subs" "keyed (GMap d)"
  defines "m \<equiv> fold (\<lambda>(k, c). convert_field k c) subs (own_mappers sch d)"
  shows "typed_fields sch m" "map_of subs k = Some c \<Longrightarrow> map_of m k = Some x \<Longrightarrow> \<exists>v. keyed v \<and> x = c v"
proof -
  have m: "map_of m n = map_option (struct_conv sch subs n) (spelled (fuzzy_names sch) d n)" for n
    unfolding m_def using assms(3)
    by (simp add: struct_mappers_normalise [OF assms(1,2)] normaliser.lookup [OF normaliser_struct [OF assms(1,2)]])
  have "typed t (struct_conv sch subs n v)" if "map_of sch n = Some t" for n t v
    using that subs_okD [OF assms(2), of n] typed_structured typed_type_conv
    by (auto simp: struct_conv_def field_conv_def split: option.split)
  then show "typed_fields sch m"
    using assms(1) by (auto simp: typed_fields_def list_all_iff schema_ok_def m split: option.split)
  assume "map_of subs k = Some c" "map_of m k = Some x"
  then obtain v where "spelled (fuzzy_names sch) d k = Some v" "x = c v" by (auto simp: m struct_conv_def)
  moreover from spelled_from [OF this(1)] have "keyed v" using assms(3) by auto
  ultimately show "\<exists>v. keyed v \<and> x = c v" by blast
qed

lemma typed_own: "schema_ok sch \<Longrightarrow> keyed (GMap d) \<Longrightarrow> typed_fields sch (own_mappers sch d)"
  using typed_struct(1) [OF _ subs_ok_Nil, of sch d] by (simp del: keyed.simps)

lemma struct_at_in_map:
  assumes "\<And>d. keyed (GMap d) \<Longrightarrow> P (f d)" "\<And>x. r = Some x \<Longrightarrow> \<exists>v. keyed v \<and> x = in_map f v"
  shows "struct_at P r"
proof (cases r)
  case (Some x)
  with assms(2) obtain v where "keyed v" "r = Some (in_map f v)" by blast
  with assms(1) show ?thesis by (cases v) simp_all
qed simp

lemma structs_at_in_array:
  assumes "\<And>d. keyed (GMap d) \<Longrightarrow> P (f d)" "\<And>x. r = Some x \<Longrightarrow> \<exists>v. keyed v \<and> x = in_array f v"
  shows "structs_at P r"
proof (cases r)
  case (Some x)
  with assms(2) obtain v where v: "keyed v" "r = Some (in_array f v)" by blast
  have "struct_at P (Some (case u of GMap m \<Rightarrow> GMap (f m) | _ \<Rightarrow> u))" if "keyed u" for u
    using that assms(1) by (cases u) simp_all
  with v show ?thesis by (cases v) (simp_all add: list_all_iff)
qed simp

lemma typed_edgi_ToInternal:
  assumes "keyed (GMap d)"
  shows "typed_edgi (edgi_ToInternal d)"
proof -
  note T = typed_struct [OF schema_ok_edgi edgi_subs_ok assms]
  have e: "edgi_ToInternal d = fold (\<lambda>(k, c). convert_field k c) edgi_subs (own_mappers edgi_schema d)"
    by (simp add: edgi_ToInternal_def)
  show ?thesis
    unfolding typed_edgi_def e
    by (intro conjI T(1) structs_at_in_array [where f = "own_mappers wifi_schema" and P = "typed_fields wifi_schema", OF typed_own [OF schema_ok_wifi]]
       struct_at_in_map [where f = "own_mappers install_schema" and P = "typed_fields install_schema", OF typed_own [OF schema_ok_install]])
      (assumption | (erule T(2) [rotated], simp))+
qed

lemma typed_config_ToInternal:
  assumes "keyed (GMap d)"
  shows "typed_config (ToInternal d)"
proof -
  note T = typed_struct [OF schema_ok_cloud config_subs_ok assms]
  have e: "ToInternal d = fold (\<lambda>(k, c). convert_field k c) config_subs (own_mappers cloudConfig_schema d)"
    by (simp add: ToInternal_def)
  show ?thesis
    unfolding typed_config_def e
    by (intro conjI T(1) structs_at_in_array [where f = "own_mappers file_schema" and P = "typed_fields file_schema", OF typed_own [OF schema_ok_file]]
       struct_at_in_map [where f = edgi_ToInternal and P = typed_edgi, OF typed_edgi_ToInternal])
      (assumption | (erule T(2) [rotated], simp))+
qed





text \<open>C29: Where a field is spelled in several ways, the reader takes the last spelling that is not the canonical one, in
  the order the map is visited, converted to the field's type; the canonical spelling counts only when there is no
  other.\<close>

theorem field_from_spelling:
  assumes "sch \<in> set [cloudConfig_schema, edgi_schema, install_schema, wifi_schema, file_schema]" "distinct (map fst d)"
  shows "map_of (own_mappers sch d) n = map_option (field_conv sch n)
    (case find (\<lambda>k. k \<noteq> n \<and> map_of (fuzzy_names sch) k = Some n) (rev (map fst d)) of
       None \<Rightarrow> map_of d n | Some k \<Rightarrow> map_of d k)"
proof -
  have ok: "schema_ok sch" using assms(1) schemas_ok by auto
  then have "own_mappers sch d = normalise (fuzzy_names sch) (field_conv sch) d"
    using assms(2) by (simp add: own_mappers_normalise schema_ok_def)
  moreover have "struct_conv sch [] = field_conv sch" by (simp add: struct_conv_def fun_eq_iff)
  then have "normaliser (fuzzy_names sch) (field_conv sch)" using normaliser_struct [OF ok subs_ok_Nil] by simp
  ultimately show ?thesis
    by (simp add: normaliser.lookup [unfolded spelled_def spells_def])
qed

theorem field_from_spelling_witness:
  "map_of (own_mappers cloudConfig_schema [(''bootCmd'', GStr ''a''), (''boot_cmd'', GStr ''b'')]) ''bootCmd'' = Some (GStrs [''b''])"
proof -
  have "find (\<lambda>k. k \<noteq> ''bootCmd'' \<and> map_of (fuzzy_names cloudConfig_schema) k = Some ''bootCmd'')
      (rev (map fst [(''bootCmd'', GStr ''a''), (''boot_cmd'', GStr ''b'')])) = Some ''boot_cmd''"
    by code_simp
  with field_from_spelling [of cloudConfig_schema "[(''bootCmd'', GStr ''a''), (''boot_cmd'', GStr ''b'')]" "''bootCmd''"]
  show ?thesis by (simp add: field_conv_def cloudConfig_schema_def)
qed

end
