(* ===== verification/Spec2Isabelle.thy ===== *)
theory Spec2Isabelle
  imports Wellformed Protocol Installer Entering App RoundTrip Normal
begin

text \<open>
  The Go program of EDGI OS, modelled and verified.

  \<^bold>\<open>The program.\<close> One binary plays every role of the system, selected by its name and first argument
  (\<^verbatim>\<open>main.go\<close>). Started as itself it finds the root image, attaches it to a loop device and enters it
  (\<^verbatim>\<open>pkg/enterchroot\<close>), relocating a root that lives in memory first (\<^verbatim>\<open>pkg/transferroot\<close>); at boot the \<^verbatim>\<open>rc\<close>
  command prepares the kernel's file systems and the \<^verbatim>\<open>config\<close> command reads the configuration
  (\<^verbatim>\<open>pkg/config\<close>) and applies it in phases (\<^verbatim>\<open>pkg/cc\<close>), with one package per kind of setting; \<^verbatim>\<open>install\<close> asks
  questions and runs the installation script (\<^verbatim>\<open>pkg/cliinstall\<close>); \<^verbatim>\<open>upgrade\<close> copies new versions of the
  components \<open>edgi\<close>, \<open>k3s\<close> and \<open>kernel\<close> into the system directory and switches their links
  (\<^verbatim>\<open>pkg/system\<close>).

  \<^bold>\<open>The machine.\<close> A stateful Go function is a value of the library's state monad over the record \<open>world\<close>
  (theory \<open>OS\<close>): the file system as a map from paths to nodes, working directory, environment, standard
  input, the trace of what an observer sees, and the outside world as uninterpreted fields. The field
  \<open>fault\<close> makes any system call fail at any time, and tells how much of a write arrives before it fails, so that
  a theorem about every world holds under every schedule of failures; a crash is the schedule in which everything
  fails from some call on. A world in which no call fails for an outside reason is \<open>calm\<close>. An error is the left
  side of a sum; \<open>check\<close> is \<^verbatim>\<open>if err != nil { return err }\<close> and \<open>defer_after\<close> is \<^verbatim>\<open>defer\<close>. Proofs use the weakest
  preconditions \<open>wp\<close> of theory \<open>Prelude\<close>.

  \<^bold>\<open>The theories and what they model.\<close>

  \<^item> \<open>Prelude\<close>: results, sequencing, loops, weakest preconditions; the interface \<open>step_order\<close> of the relations
    that every step of a function keeps, with its interpretations for invariants (\<open>keeps\<close>), reading calls
    (\<open>reads_only\<close>, in \<open>OSFrame\<close>) and visible events (\<open>emits\<close>, in \<open>Traces\<close>).
  \<^item> \<open>GoStrings\<close>, \<open>GoPath\<close>, \<open>GoStrconv\<close>: the functions of Go's \<^verbatim>\<open>strings\<close>, \<^verbatim>\<open>path\<close>, \<^verbatim>\<open>strconv\<close> the sources call.
  \<^item> \<open>OS\<close>, \<open>Syscalls\<close>: the world and the functions of \<^verbatim>\<open>os\<close>, \<^verbatim>\<open>io/ioutil\<close>, \<^verbatim>\<open>os/exec\<close> and \<^verbatim>\<open>unix\<close> on it;
    \<open>OSLemmas\<close> and \<open>OSFrame\<close>: what they do and what they leave alone.
  \<^item> \<open>System\<close>: \<^verbatim>\<open>pkg/system/system.go\<close>, \<^verbatim>\<open>pkg/mode\<close>, \<^verbatim>\<open>pkg/version\<close>. \<open>Util\<close>: \<^verbatim>\<open>pkg/util/util.go\<close>; the interface
    \<open>atomic_writer\<close> is what \<^verbatim>\<open>WriteFileAtomic\<close> promises to its callers. \<open>Decode\<close> and \<open>Prompt\<close>: \<^verbatim>\<open>decode.go\<close>, \<^verbatim>\<open>prompt.go\<close>.
  \<^item> \<open>Copy\<close>: the tree copy of \<^verbatim>\<open>vendor/github.com/otiai10/copy\<close>; \<open>Faithful\<close>: what it produces is a copy.
  \<^item> \<open>Component\<close>: \<^verbatim>\<open>pkg/system/component.go\<close>; \<open>Switch\<close>: its copies are atomic and complete.
    \<open>Upgrade\<close>: \<^verbatim>\<open>pkg/cli/upgrade\<close>; \<open>Invariants\<close>, \<open>Wellformed\<close>: the file system stays a tree of plain
    names; \<open>UpgradeSafe\<close>: the outcome of a run; \<open>Traces\<close>, \<open>Protocol\<close>: the events of a run and of several runs at once. \<open>Demo\<close>: the concrete world of the examples.
  \<^item> \<open>Values\<close>: \<^verbatim>\<open>map[string]interface{}\<close> and \<^verbatim>\<open>rancher/mapper/convert\<close>; \<open>Config\<close>: \<^verbatim>\<open>pkg/config/config.go\<close>, \<^verbatim>\<open>write.go\<close>;
    \<open>Schema\<close>: \<^verbatim>\<open>coerce.go\<close>, \<^verbatim>\<open>rename.go\<close>, the schema and the merge;
    \<open>Normal\<close>: normalising gives every field its type and is idempotent, by the interface \<open>normaliser\<close> of a table of spellings
    and a conversion per field; \<open>ReadConfig\<close>: \<^verbatim>\<open>read.go\<close>, \<^verbatim>\<open>read_cc.go\<close>; \<open>RoundTrip\<close>:
    encoding and decoding are inverse.
  \<^item> \<open>Quote\<close>: \<^verbatim>\<open>strconv.Quote\<close> and \<^verbatim>\<open>Unquote\<close>; \<open>Writefile\<close>: \<^verbatim>\<open>pkg/writefile\<close>, \<^verbatim>\<open>pkg/sysctl\<close>, \<^verbatim>\<open>pkg/module\<close>,
    \<^verbatim>\<open>pkg/hostname\<close>, \<^verbatim>\<open>pkg/command\<close>; \<open>Ssh\<close>: \<^verbatim>\<open>pkg/ssh\<close>; \<open>CC\<close>: \<^verbatim>\<open>pkg/cc\<close>; \<open>Questions\<close>, \<open>CliInstall\<close>: \<^verbatim>\<open>pkg/questions\<close>,
    \<^verbatim>\<open>pkg/cliinstall\<close>; \<open>Installer\<close>: what the installer promises.
  \<^item> \<open>EnterChroot\<close>: \<^verbatim>\<open>pkg/enterchroot\<close>; \<open>Entering\<close>: the order of its steps; \<open>TransferRoot\<close>: \<^verbatim>\<open>pkg/transferroot\<close>; \<open>RC\<close>: \<^verbatim>\<open>pkg/cli/rc\<close>;
    \<open>CommandLine\<close>: flags and arguments, with \<^verbatim>\<open>vendor/github.com/urfave/cli\<close>; \<open>App\<close>: \<^verbatim>\<open>main.go\<close> and the commands with their flags.

  \<^bold>\<open>What is proved.\<close> \<^emph>\<open>Upgrades\<close> (this theory, \<open>Faithful\<close>, \<open>Switch\<close>, \<open>UpgradeSafe\<close>): a component moves entirely or
  not at all, to a faithful copy, under every schedule of failures; a run refines the abstract step that moves a set of
  components; in a calm world it succeeds, and a second run does nothing; a leftover of a crash blocks it for ever; what a run shows the outside,
  that two runs never overlap, and that the command line is understood and guarded. \<^emph>\<open>Files and keys\<close>: no torn file, no lost key. \<^emph>\<open>Configuration\<close>: what is encoded is
  decoded, a normalised configuration is typed, newer sources win in a merge, names written are names understood, the environment file survives
  reading and writing, paths written by a sysctl stay below \<^verbatim>\<open>/proc/sys\<close>. \<^emph>\<open>Boot\<close>: every applier of a phase runs, the
  image search is the search of the whole file, the root is entered step by step and only with the image mounted, device numbers.
  \<^emph>\<open>Dialogue\<close>: questions end and answers are in range, passwords are clean; the installer's questions fill in what is missing, and the
  disk is formatted only after a yes.
  Several theorems state where the code does not do what its comments or callers expect.

  \<^bold>\<open>Bounds and fuel.\<close> Path resolution follows 40 links, as the kernel does, and temporary names are tried 10000
  times, as Go does. The tree copy recurs 2048 levels deep: a level adds two bytes to a path and the kernel refuses paths of
  4096. \<open>MaskPassword\<close> has the code's own bound of 512 bytes. The image search gets one round per buffer of the file and two
  more, which the theorem on it shows to be enough. Other loops recur on their data.

  \<^bold>\<open>Not modelled.\<close> YAML, JSON and gzip enter as parameters
  with the documented behaviour a theorem names. Of help texts only that one is shown is kept. Permissions of files are recorded but not enforced: the program
  runs as root, and a refusal is one of the failures of the schedule. Log texts, raw terminal modes and the goroutine that
  marks a loop device for release are left out. The build of the images, their shell scripts and the overlay are
  no Go code.
\<close>

section \<open>Upgrades\<close>

lemma demo_fs_ok [simp]: "fs_ok demo" "fs_ok (crash_demo n)"
  by (simp_all add: fs_ok_def tree_fs_def plain_fs_def dir_at_iff demo_defs plain_name_def)

lemma demo_ready [simp]:
  "ready [''new''] [''edgi'', ''system''] (\<lambda>_. ''v2'') ''k3s'' (files demo)"
  "ready [''new''] [''edgi'', ''system''] (\<lambda>_. ''v2'') ''edgi'' (files demo)"
proof -
  have "look (files demo) [''new'', k, ''v2'', ''bin''] \<noteq> None" if "k = ''k3s'' \<or> k = ''edgi''" for k
    using that by (auto simp: demo_defs)
  then have "''bin'' \<in> set (fs_names (files demo) [''new'', k, ''v2''])" if "k = ''k3s'' \<or> k = ''edgi''" for k
    using that by (simp add: fs_names_iff plain_name_def)
  then have "fs_names (files demo) [''new'', k, ''v2''] \<noteq> []" if "k = ''k3s'' \<or> k = ''edgi''" for k
    using that by (metis empty_iff empty_set)
  then show "ready [''new''] [''edgi'', ''system''] (\<lambda>_. ''v2'') ''k3s'' (files demo)"
    "ready [''new''] [''edgi'', ''system''] (\<lambda>_. ''v2'') ''edgi'' (files demo)"
    by (simp_all add: ready_def version_name_def plain_name_def apart_def) (simp_all add: demo_defs)
qed

lemma demo_copyable: "copyable 2048 (files demo) [''new'', ''k3s'', ''v2'']" "copyable 2048 (files demo) [''new'', ''edgi'', ''v2'']"
  by (rule copyable_list, simp add: demo_defs)+

lemma digits_not: "''v2'' @ digits_base 10 n \<noteq> ''v1''" "''v2'' @ digits_base 10 n \<noteq> ''current''"
  using digits_base_nonempty [of 10 n] by auto

lemma demo_fresh [simp]:
  "fresh [''new''] [''edgi'', ''system''] (\<lambda>_. ''v2'') ''k3s'' (files demo)"
  "fresh [''new''] [''edgi'', ''system''] (\<lambda>_. ''v2'') ''edgi'' (files demo)"
  using demo_copyable demo_has_version(3) demo_has_version_edgi
  by (simp_all add: fresh_def upgradable_def exI [of _ "''v1''"]) (simp_all add: demo_defs digits_not)

text \<open>C1: Copying a component is atomic and complete under every schedule of failing system calls, a crash at any
  point included: \<^verbatim>\<open>CopyComponent\<close> reports \<^verbatim>\<open>true\<close> exactly when \<open>current\<close> has become a link to the new version, and then that
  version is a faithful copy of the source's, every file, directory and link with its content, target and
  permissions; otherwise the link is the one it was. Nothing outside the component's directory changes and the
  file system stays well-formed.\<close>

theorem CopyComponent_atomic:
  assumes "fs_ok w" "ready S D v key (files w)"
  shows "wp (CopyComponent (abs_string S) (abs_string D) remount key) (\<lambda>r u. advance S D key (v key) (r = Inr True) w u) w"
  by (rule wp_mono [OF CopyComponent_advance [OF assms]]) blast

theorem CopyComponent_atomic_witness:
  "wp (CopyComponent ''/new'' ''/edgi/system'' False ''k3s'')
     (\<lambda>r u. advance [''new''] [''edgi'', ''system''] ''k3s'' ''v2'' (r = Inr True) (crash_demo 9) u) (crash_demo 9)"
  using CopyComponent_atomic [of "crash_demo 9" "[''new'']" "[''edgi'', ''system'']" "\<lambda>_. ''v2''" "''k3s''" False]
  by (simp add: abs_string_def)

text \<open>C2: The outcome of a whole run. \<^verbatim>\<open>Run\<close> copies \<open>edgi\<close>, \<open>k3s\<close> and \<open>kernel\<close> one after the other; whatever fails
  on the way, there is a set of enabled components that have moved, each to a faithful copy of its new version, while all
  others kept their links; nothing else has changed and \<^verbatim>\<open>atLeastOneComponentCopied\<close> is true exactly when the set is not empty.\<close>

theorem upgrade_copies_all_or_nothing:
  assumes "fs_ok w" "sourceDir f = abs_string S" "destinationDir f = abs_string D" "apart S D"
    and "\<forall>k \<in> enabled (parts f). ready S D v k (files w)"
  shows "wp (upgrade_copies f) (\<lambda>copied u. \<exists>K \<subseteq> enabled (parts f).
       moved S D v [''edgi'', ''k3s'', ''kernel''] K w u \<and> copied = (K \<noteq> {})) w"
  by (rule wp_mono [OF upgrade_copies_moved [OF assms]]) blast

definition demo_flags :: upgrade_flags where
  "demo_flags = upgrade_defaults\<lparr>upgradeEDGI := True, upgradeK3S := True, doSync := True, doReboot := True, sourceDir := ''/new''\<rparr>"

lemma demo_flags_facts:
  "sourceDir demo_flags = abs_string [''new'']" "destinationDir demo_flags = abs_string [''edgi'', ''system'']"
  "enabled (parts demo_flags) = {''edgi'', ''k3s''}" "apart [''new''] [''edgi'', ''system'']"
proof -
  show "destinationDir demo_flags = abs_string [''edgi'', ''system'']"
    using system_paths(1) [of "[]"] by (simp add: demo_flags_def upgrade_defaults_def)
qed (auto simp: demo_flags_def upgrade_defaults_def parts_def apart_def abs_string_def)

theorem upgrade_copies_all_or_nothing_witness:
  "wp (upgrade_copies demo_flags) (\<lambda>copied u. \<exists>K \<subseteq> {''edgi'', ''k3s''}.
     moved [''new''] [''edgi'', ''system''] (\<lambda>_. ''v2'') [''edgi'', ''k3s'', ''kernel''] K (crash_demo 40) u \<and> copied = (K \<noteq> {})) (crash_demo 40)"
  using upgrade_copies_all_or_nothing [of "crash_demo 40" demo_flags "[''new'']" "[''edgi'', ''system'']" "\<lambda>_. ''v2''"]
  by (simp add: demo_flags_facts)

text \<open>C3: An upgrade succeeds when nothing stands in its way: in a calm world, from a source whose trees hold files,
  directories and links only, and without leftovers of earlier runs in the destination, every enabled component moves to its
  new version, completely.\<close>

theorem upgrade_copies_succeeds:
  assumes "fs_ok w" "sourceDir f = abs_string S" "destinationDir f = abs_string D" "apart S D" "calm w"
    and "\<forall>k \<in> enabled (parts f). ready S D v k (files w) \<and> fresh S D v k (files w)"
  shows "wp (upgrade_copies f) (\<lambda>copied u. copied = (enabled (parts f) \<noteq> {}) \<and>
       moved S D v [''edgi'', ''k3s'', ''kernel''] (enabled (parts f)) w u) w"
  by (rule wp_mono [OF upgrade_copies_moved [OF assms(1-4)]]) (use assms(5,6) in blast)+

theorem upgrade_copies_succeeds_witness:
  "wp (upgrade_copies demo_flags) (\<lambda>copied u. copied \<and>
     moved [''new''] [''edgi'', ''system''] (\<lambda>_. ''v2'') [''edgi'', ''k3s'', ''kernel''] {''edgi'', ''k3s''} demo u) demo"
  using upgrade_copies_succeeds [of demo demo_flags "[''new'']" "[''edgi'', ''system'']" "\<lambda>_. ''v2''"]
  by (simp add: demo_flags_facts)

text \<open>C4: An upgrade is idempotent: when a run has succeeded, a second one with the same flags finds every component up to date, reports
  that nothing was copied and changes no file.\<close>

theorem upgrade_copies_idempotent:
  assumes "fs_ok w" "sourceDir f = abs_string S" "destinationDir f = abs_string D" "apart S D" "calm w"
    and "\<forall>k \<in> enabled (parts f). ready S D v k (files w) \<and> fresh S D v k (files w)"
  shows "wp (do { copied \<leftarrow> upgrade_copies f; before \<leftarrow> State_Monad.get; again \<leftarrow> upgrade_copies f;
                  State_Monad.return (copied, before, again) })
    (\<lambda>(copied, before, again) u. copied = (enabled (parts f) \<noteq> {}) \<and> \<not> again \<and> files u = files before) w"
  by (rule upgrade_copies_again [OF assms])

theorem upgrade_copies_idempotent_witness:
  "wp (do { copied \<leftarrow> upgrade_copies demo_flags; before \<leftarrow> State_Monad.get; again \<leftarrow> upgrade_copies demo_flags;
            State_Monad.return (copied, before, again) })
     (\<lambda>(copied, before, again) u. copied \<and> \<not> again \<and> files u = files before) demo"
  using upgrade_copies_idempotent [of demo demo_flags "[''new'']" "[''edgi'', ''system'']" "\<lambda>_. ''v2''"]
  by (simp add: demo_flags_facts)


text \<open>C7: A temporary link left by an interrupted copy stops every later copy of the component, whatever
  the schedule: \<^verbatim>\<open>CopyComponent\<close> never removes a \<^verbatim>\<open>current.tmp\<close> it did not create, so it never again reports success and
  changes no file.\<close>

theorem CopyComponent_stuck:
  assumes "has_version (files w) (S @ [key]) v"
    and "real_dirs (files w) (D @ [key])" "list_all plain_name (D @ [key])"
    and "look (files w) (D @ [key, ''current.tmp'']) \<noteq> None"
  shows "wp (CopyComponent (abs_string S) (abs_string D) remount key) (\<lambda>r u. files u = files w \<and> r \<noteq> Inr True) w"
  by (rule CopyComponent_wedged [OF assms])

theorem CopyComponent_stuck_witness:
  "wp (CopyComponent ''/new'' ''/edgi/system'' False ''k3s'') (\<lambda>r u. files u = files wedged_demo \<and> r \<noteq> Inr True) wedged_demo"
  using CopyComponent_stuck [of wedged_demo "[''new'']" "''k3s''" "''v2''" "[''edgi'', ''system'']" False]
  by (simp add: abs_string_def plain_name_def) (simp add: demo_defs)

text \<open>C8: Upgrading to the version that is installed does nothing: no file changes and the result is \<^verbatim>\<open>false\<close>, so neither
  \<^verbatim>\<open>sync\<close> nor reboot follow.\<close>

theorem CopyComponent_up_to_date:
  assumes "calm w" "has_version (files w) (S @ [key]) v" "has_version (files w) (D @ [key]) v"
  shows "wp (CopyComponent (abs_string S) (abs_string D) remount key) (\<lambda>r u. files u = files w \<and> r = Inr False) w"
  by (rule wp_mono [OF CopyComponent_same [OF assms]]) simp

theorem CopyComponent_up_to_date_witness:
  "wp (CopyComponent ''/new'' ''/new'' True ''k3s'') (\<lambda>r u. files u = files demo \<and> r = Inr False) demo"
  using CopyComponent_up_to_date [of demo "[''new'']" "''k3s''" "''v2''" "[''new'']" True] by (simp add: abs_string_def)

section \<open>Files\<close>

text \<open>C9: The tree copy copies. Whatever fails, a copy of a directory to a place with nothing below it touches only that place; when it
  reports success, every file, directory and link of the source is there with its content, target and permissions, and
  nothing else; in a calm world a tree of files, directories and links no deeper than 2048 is always copied.\<close>

theorem copy_Copy_faithful:
  assumes "fs_ok w" "real_dirs (files w) s" "list_all plain_name (s @ [x])" "dir_at (files w) (s @ [x])"
    and "real_dirs (files w) d" "list_all plain_name (d @ [c])" "blank (files w) (d @ [c])" "apart (s @ [x]) (d @ [c])"
  shows "wp (copy_Copy (abs_string (s @ [x])) (abs_string (d @ [c])))
    (\<lambda>r u. changes_below [d @ [c]] (files w) (files u) \<and>
       (if isl r then \<not> (calm w \<and> copyable 2048 (files w) (s @ [x])) else faithful (files w) (s @ [x]) (files u) (d @ [c]))) w"
  by (rule wp_mono [OF wp_Copy_copies]) (use assms in \<open>auto simp: rooted_tree fs_ok_def touched_def tree_copied_def split: sum.splits\<close>)

theorem copy_Copy_faithful_witness:
  "wp (copy_Copy ''/new/k3s/v2'' ''/etc/copy'') (\<lambda>r u. \<not> isl r \<and> faithful (files demo) [''new'', ''k3s'', ''v2''] (files u) [''etc'', ''copy'']) demo"
proof -
  have "real_dirs (files demo) [''new'', ''k3s'']" "dir_at (files demo) ([''new'', ''k3s''] @ [''v2''])"
    using demo_has_version(1) by (simp_all add: has_version_def)
  moreover have "blank (files demo) [''etc'', ''copy'']"
    by (auto simp: blank_def strict_prefix_def prefix_def) (simp_all add: demo_defs)
  ultimately show ?thesis
    using copy_Copy_faithful [of demo "[''new'', ''k3s'']" "''v2''" "[''etc'']" "''copy''"] demo_copyable(1)
    by (simp add: abs_string_def plain_name_def apart_def) (auto elim: wp_mono split: if_splits)
qed

text \<open>C10: \<^verbatim>\<open>WriteFileAtomic\<close> never leaves a torn file: under every schedule the target either is as it was, and then the
  caller gets an error, or is a regular file with exactly the new bytes and permissions. Besides the target, only a name in
  the same directory that was free is touched.\<close>

theorem WriteFileAtomic_never_torn:
  assumes "real_dirs (files w) d" "list_all plain_name (d @ [c])"
  shows "wp (WriteFileAtomic (abs_string (d @ [c])) data perm) (replaced d c data perm w) w"
  by (rule wfa.replace_all_or_nothing [OF assms])

theorem WriteFileAtomic_never_torn_witness:
  "wp (WriteFileAtomic ''/etc/motd'' ''new text'' 0x1A4) (replaced [''etc''] ''motd'' ''new text'' 0x1A4 (crash_demo 3)) (crash_demo 3)"
  using WriteFileAtomic_never_torn [of "crash_demo 3" "[''etc'']" "''motd''" "''new text''" "0x1A4"]
  by (simp add: abs_string_def plain_name_def)

section \<open>Applications of the components' properties\<close>

text \<open>The properties stand in the components' theories; here they are applied to concrete worlds.\<close>

theorem MaskPassword_clean_witness:
  "\<exists>u. run_state MaskPassword (demo\<lparr>stdin := [[CHR ''a'', CHR ''b'', CHR 0x7F, CHR ''c'', NL]]\<rparr>) = ((''ac'', Inr ()), u) \<and> length ''ac'' \<le> maxBytes"
proof -
  let ?w = "demo\<lparr>stdin := [[CHR ''a'', CHR ''b'', CHR 0x7F, CHR ''c'', NL]]\<rparr>"
  have "\<not> stdin_tty ?w" by (simp add: demo_defs)
  moreover have "fst (run_state (mask_loop (maxBytes + 1) []) ?w) = (''ac'', Inr ())"
    by (simp add: maxBytes_def eval_nat_numeral mask_loop.simps getCharacter_def stdin_read_def print_out_def emit_def)
  ultimately have r: "fst (run_state MaskPassword ?w) = (''ac'', Inr ())" by (simp add: MaskPassword_def)
  then show ?thesis
    using MaskPassword_clean [of ?w] by (cases "run_state MaskPassword ?w") (simp add: wp_def)
qed

theorem upgrade_arguments_understood_witness:
  "\<forall>unmarshal marshal marshal_config json x.
     fst (run_state (app_Run app_version app_flags (app_Commands unmarshal marshal marshal_config json x)
       (''upgrade'' # map render (upgrade_settings upgrade_defaults))) demo) = Inl 1"
proof -
  have "no_env demo (app_flags @ upgrade_flag_list)"
    by code_simp
  from upgrade_arguments_understood [OF this, of _ _ _ _ _ upgrade_defaults] show ?thesis
    by (simp add: upgrade_Before_def upgrade_defaults_def emit_def)
qed

theorem PromptOptions_ends_witness: "isl (fst (run_state (PromptOptions ''Which?'' 0 [''server'', ''agent'']) demo))"
proof -
  have "stdin demo = []" by (simp add: demo_defs)
  then show ?thesis
    using PromptOptions_ends [of "''Which?''" 0 "[''server'', ''agent'']" demo] by (auto simp: wp_def split: prod.splits)
qed

theorem PromptOptions_in_range_witness:
  "fst (run_state (PromptOptions ''Which?'' 0 [''server'', ''agent'']) (demo\<lparr>stdin := [''2'' @ [NL]]\<rparr>)) = Inr 1"
proof -
  have d: "digits_base 10 (Suc (Suc 0)) = ''2''" by (simp add: digits_base.simps digit_char_def)
  show ?thesis
    using PromptOptions_in_range [of "demo\<lparr>stdin := [''2'' @ [NL]]\<rparr>" 1 "[]" "[''server'', ''agent'']" "''Which?''" 0 demo]
    by (simp add: d bufio_size_def)
qed

definition keys_demo :: world where
  "keys_demo = demo_world (([''etc'', ''keys''], Reg demo_meta ''ssh-rsa AAA'') # demo_files) (\<lambda>n. if n = 5 then Some (5, 2) else None)"


definition self_demo :: world where
  "self_demo = demo_world
     [([], Dir demo_meta), ([''dev''], Dir demo_meta), ([''proc''], Dir demo_meta), ([''proc'', ''self''], Dir demo_meta),
      ([''proc'', ''self'', ''exe''], Reg demo_meta ''code_sqmagic_image''),
      ([''proc'', ''cgroups''], Reg demo_meta (concat (map (csv_line CHR 0x09) [[''cpu'', ''1'', ''2'', ''1''], [''hugetlb'', ''3'', ''1'', ''0'']])))]
     (\<lambda>_. None)"

lemma self_demo_facts [simp]:
  "calm self_demo" "resolve True self_demo reexec_Self = Inr [''proc'', ''self'', ''exe'']"
  "look (files self_demo) [''proc'', ''self'', ''exe''] = Some (Reg demo_meta ''code_sqmagic_image'')"
  "resolve True self_demo ''/proc/cgroups'' = Inr [''proc'', ''cgroups'']"
  "look (files self_demo) [''proc'', ''cgroups''] = Some (Reg demo_meta (concat (map (csv_line CHR 0x09) [[''cpu'', ''1'', ''2'', ''1''], [''hugetlb'', ''3'', ''1'', ''0'']])))"
  "resolve False self_demo ''/dev/null'' = Inr [''dev'', ''null'']" "look (files self_demo) [''dev'', ''null''] = None"
  by (simp_all add: self_demo_def demo_world_def calm_def resolve_def reexec_Self_def is_abs_def HasPrefix_def comps_def)

lemma magic_lower: "ToLower magic = ''_sqmagic_''"
  by code_simp

theorem inFile_searches_all_witness: "fst (run_state inFile self_demo) = Inr (reexec_Self, 13)"
proof -
  have "scan_magic (ToLower magic) ''code_sqmagic_image'' (0, 0) = Inl 13"
    by (simp add: magic_lower)
  with inFile_searches_all [of self_demo "[''proc'', ''self'', ''exe'']" demo_meta "''code_sqmagic_image''"]
  show ?thesis by (cases "run_state inFile self_demo") (simp add: wp_def)
qed

theorem cgroupList_reads_table_witness: "fst (run_state cgroupList self_demo) = [''cpu'']"
proof -
  have "\<forall>r \<in> set [[''cpu'', ''1'', ''2'', ''1''], [''hugetlb'', ''3'', ''1'', ''0'']]. length r = 4 \<and> (\<forall>f \<in> set r. plain_field CHR 0x09 f)"
    by (simp add: plain_field_def)
  from cgroupList_reads_table [OF self_demo_facts(1,4,5) this] show ?thesis
    by (cases "run_state cgroupList self_demo") (simp add: wp_def)
qed

theorem mkchar_makes_regular_files_witness:
  "wp (mkchar ''/dev/null'' 0x1B6 1 3) (\<lambda>_ u. \<exists>m. look (files u) [''dev'', ''null''] = Some (Reg m [])) self_demo"
  by (rule mkchar_makes_regular_files [OF _ self_demo_facts(6,7,1)]) (simp add: standard_devices_def)

theorem move_special_loses_devices_witness:
  "wp (move_special ''/old'' ''/dev/null'' \<lparr>fi_name = ''null'', fi_node = Chr demo_meta 259\<rparr>)
     (\<lambda>_ u. \<exists>m. look (files u) [''dev'', ''null''] = Some (Reg m [])) self_demo"
  by (rule move_special_loses_devices [OF self_demo_facts(6,7,1)]) simp


end
